(* ===== verification/Prelude.thy ===== *)
theory Prelude
  imports "HOL-Library.Multiset"
begin

text \<open>
  Shared vocabulary of the edgeci development: the names of the model's types, the
  rule collections the component theories fill, and the few JavaScript built-ins the
  source relies on (\<open>Array.prototype.reduce\<close> without an initial value, the
  conversion of an integer to a string when it is concatenated into a URL, and the
  \<open>undefined\<close> that an unset property of \<open>args\<close> turns into when it is
  concatenated). These built-ins are language semantics, not repository code.
\<close>

section \<open>Names of the model's types\<close>

type_synonym proxy_name = string
type_synonym org_name = string
type_synonym env_name = string
type_synonym path = string
type_synonym timestamp = int
type_synonym revision = int

named_theorems frame_simps "fields an operation of the orchestrator leaves unchanged"
named_theorems handler_simps "characteristic equations of the callbacks"

section \<open>JavaScript built-ins\<close>

text \<open>
  \<open>xs.reduce(f)\<close> with no initial value folds from the first element and throws a
  \<open>TypeError\<close> on an empty array; \<open>None\<close> is that exception.
\<close>

definition js_reduce :: "('a \<Rightarrow> 'a \<Rightarrow> 'a) \<Rightarrow> 'a list \<Rightarrow> 'a option" where
  "js_reduce f xs = (case xs of [] \<Rightarrow> None | x # ys \<Rightarrow> Some (fold (\<lambda>b a. f a b) ys x))"

text \<open>Decimal rendering of an integer, as \<open>"" + n\<close> does for a safe integer.\<close>

fun js_digits :: "nat \<Rightarrow> string" where
  "js_digits n =
     (if n < 10 then [char_of (48 + n)] else js_digits (n div 10) @ [char_of (48 + n mod 10)])"

declare js_digits.simps [simp del]

definition js_string_of_int :: "int \<Rightarrow> string" where
  "js_string_of_int i = (if i < 0 then CHR ''-'' # js_digits (nat (- i)) else js_digits (nat i))"

text \<open>\<open>parseInt(x, 10)\<close>: leading white space (the ASCII part of JavaScript's) is
  skipped, a sign is read, then the longest prefix of decimal digits; no digit gives
  \<open>NaN\<close>, here \<open>None\<close>.\<close>

definition js_is_digit :: "char \<Rightarrow> bool" where
  "js_is_digit c = (48 \<le> (of_char c :: nat) \<and> (of_char c :: nat) < 58)"

definition js_space :: "char \<Rightarrow> bool" where
  "js_space c = ((of_char c :: nat) \<in> {9, 10, 11, 12, 13, 32})"

definition js_parse_nat :: "string \<Rightarrow> nat" where
  "js_parse_nat cs = foldl (\<lambda>acc c. 10 * acc + (of_char c - 48)) 0 cs"

definition js_parseInt :: "string \<Rightarrow> int option" where
  "js_parseInt str =
     (let t = dropWhile js_space str;
          (neg, u) = (case t of [] \<Rightarrow> (False, [])
                      | c # r \<Rightarrow> if c = CHR ''-'' then (True, r)
                                 else if c = CHR ''+'' then (False, r) else (False, t));
          ds = takeWhile js_is_digit u
      in if ds = [] then None
         else Some (if neg then - int (js_parse_nat ds) else int (js_parse_nat ds)))"

text \<open>An unset property concatenated into a string reads \<open>"undefined"\<close>.\<close>

definition js_undefined :: string where
  "js_undefined = ''undefined''"

text \<open>Removing the \<open>i\<close>-th element of a list: a callback leaving the event queue.\<close>

definition remove_at :: "nat \<Rightarrow> 'a list \<Rightarrow> 'a list" where
  "remove_at i xs = take i xs @ drop (Suc i) xs"

section \<open>Generic lemmas\<close>

lemma fold_max_eq_Max:
  "fold (\<lambda>b a. max a b) ys x = Max (set (x # ys))"
proof -
  have eq: "(\<lambda>b a. max a b) = (max :: 'a \<Rightarrow> 'a \<Rightarrow> 'a)"
    by (intro ext) (rule max.commute)
  show ?thesis
    unfolding eq by (rule Max.set_eq_fold [symmetric])
qed

lemma js_reduce_max:
  "js_reduce max xs = (if xs = [] then None else Some (Max (set xs)))"
  by (cases xs) (simp_all add: js_reduce_def fold_max_eq_Max)

lemma Max_insert_max:
  fixes a b :: "'a::linorder"
  assumes "finite S"
  shows "Max (insert (max a b) S) = Max (insert a (insert b S))"
  using assms by (cases "S = {}") (simp_all add: max.assoc)

lemma js_digits_nonempty [simp]: "js_digits n \<noteq> []"
  by (subst js_digits.simps) simp

lemma js_parse_nat_digits: "js_parse_nat (js_digits n) = n"
proof (induction n rule: js_digits.induct)
  case (1 n)
  show ?case
  proof (cases "n < 10")
    case True
    then show ?thesis by (subst js_digits.simps) (simp add: js_parse_nat_def)
  next
    case False
    with "1.IH" have "foldl (\<lambda>acc c. 10 * acc + (of_char c - 48)) 0 (js_digits (n div 10)) = n div 10"
      by (simp add: js_parse_nat_def)
    with False show ?thesis by (subst js_digits.simps) (simp add: js_parse_nat_def)
  qed
qed

lemma js_digits_chars:
  "c \<in> set (js_digits n) \<Longrightarrow> 48 \<le> (of_char c :: nat) \<and> (of_char c :: nat) < 58"
proof (induction n rule: js_digits.induct)
  case (1 n)
  from "1.prems" show ?case
    by (subst (asm) js_digits.simps) (auto split: if_splits dest: "1.IH")
qed

lemma js_digits_not_minus: "js_digits n = c # cs \<Longrightarrow> c \<noteq> CHR ''-''"
  using js_digits_chars [of c n] by (auto simp del: of_char_of)

lemma js_digits_are_digits: "takeWhile js_is_digit (js_digits n) = js_digits n"
  using js_digits_chars [of _ n] by (simp add: takeWhile_eq_all_conv js_is_digit_def)

lemma js_digits_no_space: "dropWhile js_space (js_digits n) = js_digits n"
proof -
  obtain c cs where d: "js_digits n = c # cs"
    using js_digits_nonempty by (cases "js_digits n") auto
  have "48 \<le> (of_char c :: nat)" using js_digits_chars [of c n] d by simp
  then have "\<not> js_space c" by (auto simp: js_space_def)
  with d show ?thesis by simp
qed

lemma js_parseInt_string_of_int: "js_parseInt (js_string_of_int i) = Some i"
proof (cases "i < 0")
  case True
  have "\<not> js_space CHR ''-''" by (simp add: js_space_def)
  with True show ?thesis
    by (simp add: js_string_of_int_def js_parseInt_def js_digits_are_digits js_parse_nat_digits)
next
  case False
  obtain c cs where d: "js_digits (nat i) = c # cs"
    using js_digits_nonempty by (cases "js_digits (nat i)") auto
  have m: "c \<noteq> CHR ''-''" using js_digits_not_minus [OF d] .
  have "48 \<le> (of_char c :: nat)" using js_digits_chars [of c "nat i"] d by simp
  then have p: "c \<noteq> CHR ''+''" by auto
  have "js_parseInt (js_digits (nat i)) = Some (int (js_parse_nat (js_digits (nat i))))"
    using m p js_digits_are_digits [of "nat i"] js_digits_no_space [of "nat i"]
    by (simp add: js_parseInt_def d Let_def)
  with False show ?thesis by (simp add: js_string_of_int_def js_parse_nat_digits)
qed

lemma drop_length_append: "drop (length xs) (xs @ ys) = ys"
  by simp

lemma set_remove_at_subset: "set (remove_at i xs) \<subseteq> set xs"
  by (auto simp: remove_at_def dest: in_set_takeD in_set_dropD)

lemma length_remove_at [simp]: "i < length xs \<Longrightarrow> length (remove_at i xs) = length xs - 1"
  by (simp add: remove_at_def)

lemma mset_remove_at: "i < length xs \<Longrightarrow> mset xs = add_mset (xs ! i) (mset (remove_at i xs))"
proof -
  assume i: "i < length xs"
  have "xs = take i xs @ xs ! i # drop (Suc i) xs" using i by (simp add: id_take_nth_drop)
  then have "mset xs = mset (take i xs @ xs ! i # drop (Suc i) xs)" by (rule arg_cong)
  then show ?thesis by (simp add: remove_at_def)
qed

lemma mset_remove_at_subseteq: "mset (remove_at i xs) \<subseteq># mset xs"
proof (cases "i < length xs")
  case True then show ?thesis by (simp add: mset_remove_at [OF True])
next
  case False then show ?thesis by (simp add: remove_at_def)
qed

lemma remove_at_append_before: "i < length as \<Longrightarrow> remove_at i (as @ bs) = remove_at i as @ bs"
  by (simp add: remove_at_def)

lemma remove_at_append_after:
  "length as \<le> i \<Longrightarrow> remove_at i (as @ bs) = as @ remove_at (i - length as) bs"
  by (simp add: remove_at_def Suc_diff_le)

text \<open>Removing two entries in either order.\<close>

lemma remove_at_swap:
  assumes "i < j" "j < length xs"
  shows "remove_at (j - 1) (remove_at i xs) = remove_at i (remove_at j xs)"
proof -
  have i: "length (take i xs) \<le> j - 1" using assms by simp
  have "remove_at (j - 1) (remove_at i xs) = take i xs @ remove_at (j - 1 - i) (drop (Suc i) xs)"
    using remove_at_append_after [OF i, of "drop (Suc i) xs"] assms by (simp add: remove_at_def [of i])
  also have "remove_at (j - 1 - i) (drop (Suc i) xs) = take (j - Suc i) (drop (Suc i) xs) @ drop (Suc j) xs"
    using assms by (simp add: remove_at_def)
  finally have l: "remove_at (j - 1) (remove_at i xs) =
             take i xs @ take (j - Suc i) (drop (Suc i) xs) @ drop (Suc j) xs" .
  have r: "remove_at i (remove_at j xs) =
             take i xs @ take (j - Suc i) (drop (Suc i) xs) @ drop (Suc j) xs"
    using assms by (simp add: remove_at_def [of j] remove_at_append_before)
                   (simp add: remove_at_def drop_take min_def)
  show ?thesis by (simp only: l r)
qed

lemma nth_remove_at_after:
  "i < j \<Longrightarrow> j < length xs \<Longrightarrow> remove_at i xs ! (j - 1) = xs ! j"
  by (auto simp: remove_at_def nth_append)

lemma nth_remove_at_before:
  "i < j \<Longrightarrow> j < length xs \<Longrightarrow> remove_at j xs ! i = xs ! i"
  by (simp add: remove_at_def nth_append)

lemma nth_append_before [simp]:
  "i < length xs \<Longrightarrow> (xs @ ys) ! i = xs ! i"
  by (simp add: nth_append)

end
