(* ===== verification/ChangeDetector.thy ===== *)
theory ChangeDetector
  imports Prelude
begin

text \<open>
  The Change Detector of the spec: the global \<open>data\<close> object of src/edgeci.js, a map
  from proxy name to the record \<open>{proxyName, lastRevision, lastModified}\<close>, the guard
  of \<open>getProxyToPull\<close> that decides whether to export, and the upsert that follows it.
  The abstract specification keeps only the last-seen timestamp per proxy; the refinement
  lemma shows that the guarded upsert keeps, per proxy, the largest timestamp observed.
\<close>

record proxy_record =
  proxyName :: proxy_name
  lastRevision :: revision
  lastModified :: timestamp

type_synonym proxy_data = "proxy_name \<rightharpoonup> proxy_record"

text \<open>\<open>!data[proxyName] || (data[proxyName].lastModified < lastModified)\<close>\<close>

definition shouldExport :: "proxy_data \<Rightarrow> proxy_name \<Rightarrow> timestamp \<Rightarrow> bool" where
  "shouldExport data name lastModified' =
     (case data name of None \<Rightarrow> True | Some r \<Rightarrow> lastModified r < lastModified')"

text \<open>\<open>data[proxyName] = {proxyName, lastRevision, lastModified}\<close>\<close>

definition recordSeen :: "proxy_data \<Rightarrow> proxy_name \<Rightarrow> revision \<Rightarrow> timestamp \<Rightarrow> proxy_data" where
  "recordSeen data name rv lm =
     data(name \<mapsto> \<lparr>proxyName = name, lastRevision = rv, lastModified = lm\<rparr>)"

text \<open>The guard and the upsert together, as the metadata callback runs them.\<close>

definition observe :: "proxy_data \<Rightarrow> proxy_name \<Rightarrow> revision \<Rightarrow> timestamp \<Rightarrow> proxy_data" where
  "observe data name rv lm =
     (if shouldExport data name lm then recordSeen data name rv lm else data)"

subsection \<open>Abstract specification\<close>

definition lastSeen :: "proxy_data \<Rightarrow> (proxy_name \<rightharpoonup> timestamp)" where
  "lastSeen data = (\<lambda>n. map_option lastModified (data n))"

definition seen_spec :: "(proxy_name \<rightharpoonup> timestamp) \<Rightarrow> proxy_name \<Rightarrow> timestamp \<Rightarrow> (proxy_name \<rightharpoonup> timestamp)" where
  "seen_spec m n lm = m(n \<mapsto> (case m n of None \<Rightarrow> lm | Some l \<Rightarrow> max l lm))"

text \<open>No record is garbled: each record sits under its own proxy name.\<close>

definition data_wf :: "proxy_data \<Rightarrow> bool" where
  "data_wf data = (\<forall>n r. data n = Some r \<longrightarrow> proxyName r = n)"

text \<open>Observing a list of (revision, timestamp) metadata replies for one proxy.\<close>

definition observe_all :: "proxy_data \<Rightarrow> proxy_name \<Rightarrow> (revision \<times> timestamp) list \<Rightarrow> proxy_data" where
  "observe_all data name obs = fold (\<lambda>(rv, lm) d. observe d name rv lm) obs data"

subsection \<open>Lemmas\<close>

lemma shouldExport_None [simp]: "data n = None \<Longrightarrow> shouldExport data n lm"
  by (simp add: shouldExport_def)

lemma recordSeen_same [simp]:
  "recordSeen data n rv lm n = Some \<lparr>proxyName = n, lastRevision = rv, lastModified = lm\<rparr>"
  by (simp add: recordSeen_def)

lemma recordSeen_other [simp]: "m \<noteq> n \<Longrightarrow> recordSeen data n rv lm m = data m"
  by (simp add: recordSeen_def)

lemma shouldExport_recordSeen [simp]:
  "shouldExport (recordSeen data n rv lm) n lm' = (lm < lm')"
  by (simp add: shouldExport_def)

lemma observe_other [simp]: "m \<noteq> n \<Longrightarrow> observe data n rv lm m = data m"
  by (simp add: observe_def)

lemma lastSeen_observe_same:
  "lastSeen (observe data n rv lm) n =
     Some (case lastSeen data n of None \<Rightarrow> lm | Some l \<Rightarrow> max l lm)"
  by (auto simp: observe_def lastSeen_def shouldExport_def split: option.splits)

lemma observe_wf_step: "data_wf data \<Longrightarrow> data_wf (recordSeen data n rv lm)"
  by (simp add: data_wf_def recordSeen_def)

lemma observe_keeps_entry:
  "data m = Some x \<Longrightarrow>
     \<exists>y. observe data n rv lm m = Some y \<and> lastModified x \<le> lastModified y"
  by (cases "m = n") (auto simp: observe_def shouldExport_def)

lemma lastSeen_observe_all:
  "lastSeen (observe_all data n obs) n =
     (case lastSeen data n of
        None \<Rightarrow> (if obs = [] then None else Some (Max (snd ` set obs)))
      | Some l \<Rightarrow> Some (Max (insert l (snd ` set obs))))"
proof (induction obs arbitrary: data)
  case Nil
  then show ?case by (simp add: observe_all_def split: option.splits)
next
  case (Cons ob obs)
  obtain rv lm where ob: "ob = (rv, lm)" by fastforce
  have step: "observe_all data n ((rv, lm) # obs) = observe_all (observe data n rv lm) n obs"
    by (simp add: observe_all_def)
  show ?case
  proof (cases "lastSeen data n")
    case None
    then show ?thesis
      using Cons.IH [of "observe data n rv lm"] by (simp add: step ob lastSeen_observe_same)
  next
    case (Some l)
    then show ?thesis
      using Cons.IH [of "observe data n rv lm"]
      by (simp add: step ob lastSeen_observe_same Max_insert_max)
  qed
qed

lemma observe_refines_spec:
  "lastSeen (observe data n rv lm) = seen_spec (lastSeen data) n lm"
proof
  fix m
  show "lastSeen (observe data n rv lm) m = seen_spec (lastSeen data) n lm m"
    by (cases "m = n") (simp_all add: lastSeen_observe_same seen_spec_def, simp add: lastSeen_def)
qed

text \<open>C21. Whatever order a sequence of metadata observations for one proxy arrives in
  (overlapping poll passes deliver them in any order), the stored timestamp ends up as the
  largest one observed.\<close>

theorem observe_all_keeps_max:
  "lastSeen (observe_all Map.empty n obs) n =
     (if obs = [] then None else Some (Max (snd ` set obs)))"
  using lastSeen_observe_all [of Map.empty n obs] by (simp add: lastSeen_def)

end
