(* ===== verification/BundleStore.thy ===== *)
theory BundleStore
  imports Prelude "HOL-Library.Sublist"
begin

text \<open>
  The disk as the Bundle Store of src/edgeci.js sees it, and the library calls that read
  and write it: \<open>rimraf.sync(path)\<close>, the \<open>unzip.Extract({path})\<close> sink of an
  export, \<open>zipfolder(src, zip, cb)\<close>, \<open>fs.readdirSync\<close> and
  \<open>fs.statSync(..).isDirectory()\<close>. The disk is a list of entries, each a path with a
  directory or a file; a lookup is \<open>map_of\<close>, so the first entry of a path is the one
  that counts, and every write puts its entry in front. Paths are the strings the code
  builds (\<open>args.destination + "/" + proxyName\<close>); a path lies under \<open>p\<close> when it is
  \<open>p\<close> or starts with \<open>p/\<close>. Archives hold their files by relative path.
\<close>

section \<open>Disk contents\<close>

datatype blob = Raw string | Archive "(string \<times> blob) list"

datatype node = Dir | File blob

type_synonym disk = "(path \<times> node) list"

definition path_under :: "path \<Rightarrow> path \<Rightarrow> bool" where
  "path_under p f = (f = p \<or> prefix (p @ ''/'') f)"

section \<open>Library calls\<close>

text \<open>\<open>rimraf.sync(p)\<close>: \<open>p\<close> and everything below it are gone.\<close>

definition rimraf :: "path \<Rightarrow> disk \<Rightarrow> disk" where
  "rimraf p d = filter (\<lambda>e. \<not> path_under p (fst e)) d"

text \<open>\<open>unzip.Extract({path: p})\<close> fed an archive: the directory \<open>p\<close>, then each
  entry in archive order at \<open>p/name\<close>; a later entry of the same name overwrites an
  earlier one. Nothing else below \<open>p\<close> is touched.\<close>

definition unzip_extract :: "path \<Rightarrow> (string \<times> blob) list \<Rightarrow> disk \<Rightarrow> disk" where
  "unzip_extract p es d = rev (map (\<lambda>(r, b). (p @ ''/'' @ r, File b)) es) @ (p, Dir) # d"

text \<open>The relative paths of the entries below \<open>p\<close>, and the files among them: what
  \<open>zipfolder\<close> packs.\<close>

definition files_below :: "path \<Rightarrow> disk \<Rightarrow> string list" where
  "files_below p d =
     remdups (map (\<lambda>e. drop (length p + 1) (fst e)) (filter (\<lambda>e. prefix (p @ ''/'') (fst e)) d))"

definition zip_entries :: "path \<Rightarrow> disk \<Rightarrow> (string \<times> blob) list" where
  "zip_entries p d =
     List.map_filter (\<lambda>r. case map_of d (p @ ''/'' @ r) of Some (File b) \<Rightarrow> Some (r, b) | _ \<Rightarrow> None)
       (files_below p d)"

text \<open>\<open>zipfolder(src, zp, cb)\<close> when it succeeds: the archive of the files below
  \<open>src\<close> written at \<open>zp\<close>.\<close>

definition zip_folder :: "path \<Rightarrow> path \<Rightarrow> disk \<Rightarrow> disk" where
  "zip_folder src zp d = (zp, File (Archive (zip_entries src d))) # d"

text \<open>\<open>fs.readdirSync(p)\<close>: the names of the entries directly below the directory
  \<open>p\<close>; it throws (\<open>None\<close>) when \<open>p\<close> is not a directory.\<close>

definition readdirSync :: "disk \<Rightarrow> path \<Rightarrow> string list option" where
  "readdirSync d p =
     (if map_of d p = Some Dir then
        Some (remdups (List.map_filter
                (\<lambda>e. let c = drop (length p + 1) (fst e)
                     in if fst e = p @ ''/'' @ c \<and> c \<noteq> [] \<and> CHR ''/'' \<notin> set c then Some c else None) d))
      else None)"

definition isDirectory :: "disk \<Rightarrow> path \<Rightarrow> bool" where
  "isDirectory d p = (map_of d p = Some Dir)"

section \<open>Lemmas\<close>

text \<open>The simplifier writes \<open>p @ ''/'' @ r\<close> as \<open>p @ CHR ''/'' # r\<close>; the lemmas
  below are stated in that form.\<close>

lemma path_under_refl [simp]: "path_under p p"
  by (simp add: path_under_def)

lemma path_under_child [simp]: "path_under p (p @ CHR ''/'' # r)"
  by (simp add: path_under_def)

lemma map_of_append_at: "map_of (xs @ ys) k = (case map_of xs k of None \<Rightarrow> map_of ys k | Some v \<Rightarrow> Some v)"
  by (induction xs) auto

lemma map_of_rimraf [simp]:
  "map_of (rimraf p d) f = (if path_under p f then None else map_of d f)"
  by (induction d) (auto simp: rimraf_def)

lemma rimraf_commute: "rimraf p (rimraf q d) = rimraf q (rimraf p d)"
  by (simp add: rimraf_def conj_commute)

lemma map_of_extract_entries:
  "map_of (rev (map (\<lambda>(r, b). (p @ CHR ''/'' # r, File b)) es)) (p @ CHR ''/'' # r) =
   map_option File (map_of (rev es) r)"
  by (induction es rule: rev_induct) auto

lemma map_of_extract_outside:
  "\<not> path_under p f \<Longrightarrow> map_of (rev (map (\<lambda>(r, b). (p @ CHR ''/'' # r, File b)) es)) f = None"
  by (induction es rule: rev_induct) auto

lemma map_of_extract_self:
  "map_of (rev (map (\<lambda>(r, b). (p @ CHR ''/'' # r, File b)) es)) p = None"
  by (induction es rule: rev_induct) auto

lemma map_of_unzip_extract_child [simp]:
  "map_of (unzip_extract p es d) (p @ CHR ''/'' # r) =
   (case map_of (rev es) r of Some b \<Rightarrow> Some (File b) | None \<Rightarrow> map_of d (p @ CHR ''/'' # r))"
  by (simp add: unzip_extract_def map_of_append_at map_of_extract_entries del: map_of_append
           split: option.splits)

lemma map_of_unzip_extract_dir [simp]: "map_of (unzip_extract p es d) p = Some Dir"
  by (simp add: unzip_extract_def map_of_append_at map_of_extract_self del: map_of_append)

lemma map_of_unzip_extract_outside [simp]:
  "\<not> path_under p f \<Longrightarrow> map_of (unzip_extract p es d) f = map_of d f"
  by (simp add: unzip_extract_def map_of_append_at map_of_extract_outside del: map_of_append)
     (auto simp: path_under_def)

lemma map_of_zip_folder [simp]:
  "map_of (zip_folder src zp d) f = (if f = zp then Some (File (Archive (zip_entries src d))) else map_of d f)"
  by (simp add: zip_folder_def)

text \<open>Every path below \<open>p\<close> is \<open>p\<close> or \<open>p/r\<close> for some \<open>r\<close>.\<close>

lemma path_under_cases:
  assumes "path_under p f"
  obtains "f = p" | r where "f = p @ CHR ''/'' # r"
  using assms by (auto simp: path_under_def prefix_def)

end
