(* ===== verification/Gateway.thy ===== *)
theory Gateway
  imports ChangeDetector BundleStore
begin

text \<open>
  The interface between the orchestration logic of src/edgeci.js and its external
  collaborators: the Gateway Client (the \<open>request\<close> library calls built by
  \<open>listOptions\<close>, \<open>apiOptions\<close>, \<open>exportOptions\<close>, \<open>importOptions\<close>,
  \<open>updateOptions\<close>, \<open>deployOptions\<close>) and the Bundle Store (\<open>rimraf.sync\<close>,
  \<open>zipfolder\<close>, \<open>unzip.Extract\<close>, \<open>fs.readdirSync\<close>, on the disk of theory
  BundleStore). A call to \<open>request(options, callback)\<close> is the
  effect \<open>Request options cb\<close> appended to the trace, and the callback \<open>cb\<close>
  appended to the queue of pending callbacks; the event loop later runs a pending callback
  with whatever response the remote side gives (theory PollLoop). The global mutable
  state of the source, \<open>args\<close> and \<open>data\<close>, is the record \<open>state\<close>, together with
  the console output and the disk the process reads and writes.
\<close>

section \<open>Responses, callbacks and effects\<close>

text \<open>
  A response body as \<open>JSON.parse\<close> sees it: the proxy metadata
  \<open>{revision: [...], metaData: {lastModifiedAt}}\<close>, a JSON array of names, some other
  JSON value, a zip archive (an exported bundle) with its entries, or another text that is
  not JSON (an HTML error page).
\<close>

datatype body = JsonMeta "revision list" timestamp | JsonList "string list" | JsonOther | NotJson
  | ZipData "(string \<times> blob) list"

text \<open>What the \<open>unzip.Extract\<close> sink of an export writes: the entries of an archive
  below the destination; a body that is no archive writes nothing.\<close>

definition unpack :: "path \<Rightarrow> body \<Rightarrow> disk \<Rightarrow> disk" where
  "unpack p b d = (case b of ZipData es \<Rightarrow> unzip_extract p es d | _ \<Rightarrow> d)"

text \<open>\<open>error\<close> set (the request could not complete), or a response with a status.\<close>

datatype response = NetError | Reply nat body

text \<open>Exceptions a callback can throw; any of them ends the Node process.\<close>

datatype js_exn = TypeError | SyntaxError | FsError

text \<open>The callbacks the source passes to \<open>request\<close> and \<open>zipfolder\<close>, with the
  values they close over; \<open>CbZip n src zp\<close> is the callback of \<open>zipProxy(n)\<close>
  together with the folder and archive paths of the pending \<open>zipfolder\<close> call.\<close>

datatype callback =
    CbProxyList org_name
  | CbPullApi org_name proxy_name
  | CbPushApi org_name proxy_name
  | CbExport org_name proxy_name revision path
  | CbZip proxy_name path path
  | CbImport org_name proxy_name revision
  | CbUpdate org_name proxy_name revision
  | CbDeploy org_name proxy_name revision env_name

record http_request =
  url :: string
  reqMethod :: string
  auth :: "string \<times> string"
  qs :: "(string \<times> string) list"
  formFile :: "path option"
  headers :: "(string \<times> string) list"

text \<open>The calls that leave the process: \<open>request(options, callback)\<close>,
  \<open>rimraf.sync(path)\<close>, the \<open>unzip.Extract\<close> sink of an export and
  \<open>zipfolder(src, zip, callback)\<close>.\<close>

datatype effect =
    Request http_request callback
  | RemoveDir path
  | Unpack path
  | ZipFolder path path callback

text \<open>One line of console output. \<open>ErrorValue\<close> is the line \<open>error: \<dots>\<close> that prints
  a transport error object and \<open>BodyValue b\<close> the line \<open>body: \<dots>\<close> that prints the
  text of the body \<open>b\<close>; their characters depend on the library and are not modelled.\<close>

datatype log_line = Line string | ErrorValue | BodyValue body

section \<open>Program state\<close>

text \<open>The parsed command line (\<open>parseArgs\<close>, \<open>pullWithArgs\<close>, \<open>pushWithArgs\<close>).
  \<open>quite\<close> and \<open>verbose\<close> are the global flags \<open>-q\<close> and \<open>-V\<close>.\<close>

record args =
  command :: "string option"
  org :: org_name
  proxy :: "proxy_name list"
  destination :: path
  source :: path
  update :: bool
  env :: "env_name option"
  continuous :: bool
  interval :: "int option"
  username :: string
  password :: string
  quite :: bool
  verbose :: bool

record state =
  args :: args
  data :: proxy_data
  pending :: "callback list"
  trace :: "effect list"
  console :: "log_line list"
  disk :: disk

definition emit :: "effect \<Rightarrow> state \<Rightarrow> state" where
  "emit e s = s\<lparr>trace := trace s @ [e]\<rparr>"

definition pend :: "callback \<Rightarrow> state \<Rightarrow> state" where
  "pend cb s = s\<lparr>pending := pending s @ [cb]\<rparr>"

text \<open>The callbacks an effect list registers, in order: those of \<open>request\<close> and
  \<open>zipfolder\<close>.\<close>

fun cbs_of :: "effect list \<Rightarrow> callback list" where
  "cbs_of [] = []"
| "cbs_of (Request q cb # es) = cb # cbs_of es"
| "cbs_of (ZipFolder a b cb # es) = cb # cbs_of es"
| "cbs_of (RemoveDir p # es) = cbs_of es"
| "cbs_of (Unpack p # es) = cbs_of es"

text \<open>The paths an effect list removes with \<open>rimraf.sync\<close>, in order.\<close>

fun removed :: "effect list \<Rightarrow> path list" where
  "removed [] = []"
| "removed (RemoveDir p # es) = p # removed es"
| "removed (Request q cb # es) = removed es"
| "removed (Unpack p # es) = removed es"
| "removed (ZipFolder a b cb # es) = removed es"

text \<open>\<open>request(options, callback)\<close>: the request goes out, the callback waits.\<close>

definition request :: "http_request \<Rightarrow> callback \<Rightarrow> state \<Rightarrow> state" where
  "request q cb s = pend cb (emit (Request q cb) s)"

text \<open>\<open>!error && response.statusCode == code\<close>\<close>

definition succeeded :: "nat \<Rightarrow> response \<Rightarrow> bool" where
  "succeeded code r = (case r of NetError \<Rightarrow> False | Reply c _ \<Rightarrow> c = code)"

definition body_of :: "response \<Rightarrow> body" where
  "body_of r = (case r of NetError \<Rightarrow> NotJson | Reply _ b \<Rightarrow> b)"

section \<open>Console output\<close>

text \<open>\<open>console.log(msg)\<close>\<close>

definition say :: "string \<Rightarrow> state \<Rightarrow> state" where
  "say msg s = s\<lparr>console := console s @ [Line msg]\<rparr>"

definition defaultLog :: "string \<Rightarrow> state \<Rightarrow> state" where
  "defaultLog msg s = (if quite (args s) then s else say msg s)"

definition verboseLog :: "string \<Rightarrow> state \<Rightarrow> state" where
  "verboseLog msg s = (if verbose (args s) then say msg s else s)"

text \<open>\<open>logError(fnName, error, response, body)\<close>: four lines, whatever the flags. On a
  transport error \<open>response\<close> and \<open>body\<close> are undefined; on a reply \<open>error\<close> is
  null.\<close>

definition error_lines :: "string \<Rightarrow> response \<Rightarrow> log_line list" where
  "error_lines fnName r =
     [Line (''Error while calling '' @ fnName),
      Line (''statusCode: '' @ (case r of NetError \<Rightarrow> js_undefined | Reply c _ \<Rightarrow> js_string_of_int (int c))),
      (case r of NetError \<Rightarrow> ErrorValue | Reply _ _ \<Rightarrow> Line ''error: null''),
      (case r of NetError \<Rightarrow> Line (''body: '' @ js_undefined) | Reply _ b \<Rightarrow> BodyValue b)]"

definition logError :: "string \<Rightarrow> response \<Rightarrow> state \<Rightarrow> state" where
  "logError fnName r s = s\<lparr>console := console s @ error_lines fnName r\<rparr>"

text \<open>A string-valued field that may be unset, as string concatenation renders it.\<close>

definition js_str_opt :: "string option \<Rightarrow> string" where
  "js_str_opt v = (case v of None \<Rightarrow> js_undefined | Some x \<Rightarrow> x)"

text \<open>\<open>"" + array\<close>: the elements joined by commas.\<close>

fun js_join :: "string list \<Rightarrow> string" where
  "js_join [] = []"
| "js_join [x] = x"
| "js_join (x # y # xs) = x @ '','' @ js_join (y # xs)"

section \<open>Request options and paths\<close>

definition baseURL :: string where
  "baseURL = ''https://api.enterprise.apigee.com/v1/organizations/''"

definition getProxyDestinationPath :: "args \<Rightarrow> proxy_name \<Rightarrow> path" where
  "getProxyDestinationPath a name = destination a @ ''/'' @ name"

definition getProxySourcePath :: "args \<Rightarrow> proxy_name \<Rightarrow> path" where
  "getProxySourcePath a name = source a @ ''/'' @ name"

definition getProxyZipPath :: "args \<Rightarrow> proxy_name \<Rightarrow> path" where
  "getProxyZipPath a name = source a @ ''/'' @ name @ ''.zip''"

definition listOptions :: "args \<Rightarrow> org_name \<Rightarrow> http_request" where
  "listOptions a orgName =
     \<lparr>url = baseURL @ orgName @ ''/apis'', reqMethod = ''GET'', auth = (username a, password a),
      qs = [], formFile = None, headers = []\<rparr>"

definition apiOptions :: "args \<Rightarrow> org_name \<Rightarrow> proxy_name \<Rightarrow> http_request" where
  "apiOptions a orgName name =
     \<lparr>url = baseURL @ orgName @ ''/apis/'' @ name, reqMethod = ''GET'',
      auth = (username a, password a), qs = [], formFile = None, headers = []\<rparr>"

definition exportOptions :: "args \<Rightarrow> org_name \<Rightarrow> proxy_name \<Rightarrow> revision \<Rightarrow> http_request" where
  "exportOptions a orgName name revision =
     \<lparr>url = baseURL @ orgName @ ''/apis/'' @ name @ ''/revisions/'' @ js_string_of_int revision,
      reqMethod = ''GET'', auth = (username a, password a), qs = [(''format'', ''bundle'')],
      formFile = None, headers = []\<rparr>"

definition importOptions :: "args \<Rightarrow> org_name \<Rightarrow> proxy_name \<Rightarrow> http_request" where
  "importOptions a orgName name =
     \<lparr>url = baseURL @ orgName @ ''/apis'', reqMethod = ''POST'', auth = (username a, password a),
      qs = [(''action'', ''import''), (''name'', name), (''validate'', ''true'')],
      formFile = Some (getProxyZipPath a name), headers = []\<rparr>"

definition updateOptions :: "args \<Rightarrow> org_name \<Rightarrow> proxy_name \<Rightarrow> revision \<Rightarrow> http_request" where
  "updateOptions a orgName name revision =
     \<lparr>url = baseURL @ orgName @ ''/apis/'' @ name @ ''/revisions/'' @ js_string_of_int revision,
      reqMethod = ''POST'', auth = (username a, password a), qs = [(''validate'', ''true'')],
      formFile = Some (getProxyZipPath a name), headers = []\<rparr>"

definition deployOptions :: "args \<Rightarrow> org_name \<Rightarrow> proxy_name \<Rightarrow> revision \<Rightarrow> env_name \<Rightarrow> http_request" where
  "deployOptions a orgName name revision e =
     \<lparr>url = baseURL @ orgName @ ''/environments/'' @ e @ ''/apis/'' @ name @ ''/revisions/''
            @ js_string_of_int revision @ ''/deployments'',
      reqMethod = ''POST'', auth = (username a, password a), qs = [(''override'', ''true'')],
      formFile = None, headers = [(''Content-Type'', ''application/x-www-form-urlencoded'')]\<rparr>"

text \<open>\<open>!str || (undefined === str) || ("" === str)\<close>\<close>

fun isEmpty :: "string option \<Rightarrow> bool" where
  "isEmpty None = True"
| "isEmpty (Some str) = (str = '''')"

section \<open>Frame lemmas of the primitive effects\<close>

lemma emit_fields [simp, frame_simps]:
  "args (emit e s) = args s" "data (emit e s) = data s" "pending (emit e s) = pending s"
  "trace (emit e s) = trace s @ [e]" "console (emit e s) = console s" "disk (emit e s) = disk s"
  by (simp_all add: emit_def)

lemma pend_fields [simp, frame_simps]:
  "args (pend cb s) = args s" "data (pend cb s) = data s" "pending (pend cb s) = pending s @ [cb]"
  "trace (pend cb s) = trace s" "console (pend cb s) = console s" "disk (pend cb s) = disk s"
  by (simp_all add: pend_def)

lemma request_fields [simp, frame_simps]:
  "args (request q cb s) = args s" "data (request q cb s) = data s"
  "pending (request q cb s) = pending s @ [cb]"
  "trace (request q cb s) = trace s @ [Request q cb]"
  "console (request q cb s) = console s" "disk (request q cb s) = disk s"
  by (simp_all add: request_def)

text \<open>Logging touches the console only.\<close>

lemma say_fields [simp, frame_simps]:
  "args (say m s) = args s" "data (say m s) = data s" "pending (say m s) = pending s"
  "trace (say m s) = trace s" "console (say m s) = console s @ [Line m]" "disk (say m s) = disk s"
  by (simp_all add: say_def)

lemma defaultLog_fields [simp, frame_simps]:
  "args (defaultLog m s) = args s" "data (defaultLog m s) = data s"
  "pending (defaultLog m s) = pending s" "trace (defaultLog m s) = trace s"
  "console (defaultLog m s) = console s @ (if quite (args s) then [] else [Line m])"
  "disk (defaultLog m s) = disk s"
  by (simp_all add: defaultLog_def)

lemma verboseLog_fields [simp, frame_simps]:
  "args (verboseLog m s) = args s" "data (verboseLog m s) = data s"
  "pending (verboseLog m s) = pending s" "trace (verboseLog m s) = trace s"
  "console (verboseLog m s) = console s @ (if verbose (args s) then [Line m] else [])"
  "disk (verboseLog m s) = disk s"
  by (simp_all add: verboseLog_def)

lemma logError_fields [simp, frame_simps]:
  "args (logError f r s) = args s" "data (logError f r s) = data s"
  "pending (logError f r s) = pending s" "trace (logError f r s) = trace s"
  "console (logError f r s) = console s @ error_lines f r" "disk (logError f r s) = disk s"
  by (simp_all add: logError_def)

lemma cbs_of_append [simp]: "cbs_of (xs @ ys) = cbs_of xs @ cbs_of ys"
  by (induction xs rule: cbs_of.induct) simp_all

lemma removed_append [simp]: "removed (xs @ ys) = removed xs @ removed ys"
  by (induction xs rule: removed.induct) simp_all

lemma cbs_of_concat [simp]: "cbs_of (concat xss) = concat (map cbs_of xss)"
  by (induction xss) simp_all

lemma cbs_of_map_Request [simp]: "cbs_of (map (\<lambda>x. Request (f x) (g x)) xs) = map g xs"
  by (induction xs) simp_all

lemma state_eqI:
  "args s = args t \<Longrightarrow> data s = data t \<Longrightarrow> pending s = pending t \<Longrightarrow> trace s = trace t \<Longrightarrow>
   console s = console t \<Longrightarrow> disk s = disk t \<Longrightarrow> state.more s = state.more t \<Longrightarrow> s = t"
  by (cases s, cases t) simp

lemma succeeded_Reply [simp]: "succeeded code (Reply c b) = (c = code)"
  by (simp add: succeeded_def)

lemma succeeded_NetError [simp]: "\<not> succeeded code NetError"
  by (simp add: succeeded_def)

lemma body_of_Reply [simp]: "body_of (Reply c b) = b"
  by (simp add: body_of_def)

text \<open>Unpacking into a freshly removed directory: below it the disk holds exactly what
  the body unpacks to on an empty disk, outside it nothing changes.\<close>

lemma unpack_fresh:
  assumes "path_under p f"
  shows "map_of (unpack p b (rimraf p d)) f = map_of (unpack p b []) f"
  using assms
proof (cases rule: path_under_cases)
  case 1
  then show ?thesis by (simp add: unpack_def split: body.split)
next
  case (2 r)
  then show ?thesis by (simp add: unpack_def split: body.split option.split)
qed

lemma unpack_outside: "\<not> path_under p f \<Longrightarrow> map_of (unpack p b d) f = map_of d f"
  by (simp add: unpack_def split: body.split)

lemma unpack_changes: "map_of (unpack p b d) f \<noteq> map_of d f \<Longrightarrow> path_under p f"
  using unpack_outside by blast


end
