(* ===== verification/Revision.thy ===== *)
theory Revision
  imports Prelude
begin

text \<open>
  The Revision Resolver of the spec. In the source it is the function
  \<open>getMaxRevision\<close> (src/edgeci.js) and the \<open>lastRevision + 1\<close> that
  \<open>getProxyToPush\<close> computes inline; the latter is modelled in the Orchestrator
  theory, where it is used. \<open>Math.max\<close> on two numbers is \<open>max\<close>; the
  \<open>reduce\<close> without initial value throws on an empty revision list, which the model
  keeps as \<open>None\<close>.
\<close>

definition getMaxRevision :: "revision list \<Rightarrow> revision option" where
  "getMaxRevision revisions = js_reduce (\<lambda>a b. max a b) revisions"

text \<open>The abstract contract: the largest existing revision, undefined for none.\<close>

definition max_revision_spec :: "revision set \<Rightarrow> revision option" where
  "max_revision_spec R = (if R = {} then None else Some (Max R))"

lemma getMaxRevision_eq:
  "getMaxRevision revisions = (if revisions = [] then None else Some (Max (set revisions)))"
  by (simp add: getMaxRevision_def js_reduce_max)

lemma getMaxRevision_Nil [simp]: "getMaxRevision [] = None"
  by (simp add: getMaxRevision_eq)

lemma getMaxRevision_Max: "revisions \<noteq> [] \<Longrightarrow> getMaxRevision revisions = Some (Max (set revisions))"
  by (simp add: getMaxRevision_eq)

lemma getMaxRevision_SomeD:
  assumes "getMaxRevision revisions = Some m"
  shows "m \<in> set revisions" and "\<forall>r \<in> set revisions. r \<le> m"
  using assms by (auto simp: getMaxRevision_eq split: if_splits)

text \<open>C22. \<open>getMaxRevision\<close> implements the abstract contract of the Revision
  Resolver: the largest revision of a non-empty list, and an error (the \<open>TypeError\<close> of
  \<open>reduce\<close>) for an empty one.\<close>

theorem getMaxRevision_refines:
  "getMaxRevision revisions = max_revision_spec (set revisions)"
  by (simp add: getMaxRevision_eq max_revision_spec_def)

end
