(* ===== verification/Orchestrator.thy ===== *)
theory Orchestrator
  imports Gateway Revision
begin

text \<open>
  The Sync Orchestrator of the spec: the pull sequence (\<open>pull\<close>, \<open>getProxyList\<close>,
  \<open>pullProxies\<close>, \<open>getProxyToPull\<close>, \<open>exportProxy\<close>) and the push sequence
  (\<open>push\<close>, \<open>getProxySourceDirs\<close>, \<open>pushProxies\<close>, \<open>zipProxy\<close>,
  \<open>getProxyToPush\<close>, \<open>importProxy\<close>, \<open>updateProxy\<close>, \<open>deployProxy\<close>) of
  src/edgeci.js, and the module entry points \<open>pullWithArgs\<close> and \<open>pushWithArgs\<close>.
  Each function that issues a request is a state transformer; the body of each callback
  is a separate function \<open>on\<dots>\<close> that receives the response and returns the new state
  or the exception it throws. \<open>handle\<close> dispatches a pending callback to its body and
  \<open>deliver\<close> runs the \<open>i\<close>-th pending callback, as the event loop does when that
  response arrives.
\<close>

section \<open>Operations\<close>

subsection \<open>Leaf operations\<close>

definition deployProxy :: "org_name \<Rightarrow> proxy_name \<Rightarrow> revision \<Rightarrow> state \<Rightarrow> state" where
  "deployProxy orgName name revision s =
     (if isEmpty (env (args s)) then s
      else let e = the (env (args s))
           in request (deployOptions (args s) orgName name revision e)
                (CbDeploy orgName name revision e)
                (defaultLog (''Deploying proxy '' @ name @ '' revision '' @ js_string_of_int revision
                             @ '' to env '' @ e) s))"

definition importProxy :: "org_name \<Rightarrow> proxy_name \<Rightarrow> revision \<Rightarrow> state \<Rightarrow> state" where
  "importProxy orgName name revision s =
     request (importOptions (args s) orgName name) (CbImport orgName name revision) s"

definition updateProxy :: "org_name \<Rightarrow> proxy_name \<Rightarrow> revision \<Rightarrow> state \<Rightarrow> state" where
  "updateProxy orgName name revision s =
     request (updateOptions (args s) orgName name revision) (CbUpdate orgName name revision) s"

text \<open>\<open>rimraf.sync(dest)\<close> removes the local copy at once; then the export request
  whose body is piped into \<open>unzip.Extract({path: dest})\<close>; the destination is fixed when
  the pipe is set up.\<close>

definition exportProxy :: "org_name \<Rightarrow> proxy_name \<Rightarrow> revision \<Rightarrow> state \<Rightarrow> state" where
  "exportProxy orgName name revision s =
     (let dest = getProxyDestinationPath (args s) name
      in request (exportOptions (args s) orgName name revision)
           (CbExport orgName name revision dest)
           ((emit (RemoveDir dest) s)\<lparr>disk := rimraf dest (disk s)\<rparr>))"

text \<open>\<open>rimraf.sync(zip)\<close>, then \<open>zipfolder(src, zip, callback)\<close>, which packs the
  folder in the background.\<close>

definition zipProxy :: "proxy_name \<Rightarrow> state \<Rightarrow> state" where
  "zipProxy name s =
     (let src = getProxySourcePath (args s) name; zp = getProxyZipPath (args s) name
      in pend (CbZip name src zp) (emit (ZipFolder src zp (CbZip name src zp))
                                    ((emit (RemoveDir zp) s)\<lparr>disk := rimraf zp (disk s)\<rparr>)))"

subsection \<open>Pull\<close>

definition getProxyToPull :: "org_name \<Rightarrow> proxy_name \<Rightarrow> state \<Rightarrow> state" where
  "getProxyToPull orgName name s =
     request (apiOptions (args s) orgName name) (CbPullApi orgName name) s"

text \<open>The callback of \<open>getProxyToPull\<close>: \<open>JSON.parse\<close> throws \<open>SyntaxError\<close>
  on a body that is not JSON, reading \<open>content.revision.reduce\<close> of another JSON value
  throws \<open>TypeError\<close>, and so does \<open>reduce\<close> on an empty revision list.\<close>

definition onPullApi :: "org_name \<Rightarrow> proxy_name \<Rightarrow> response \<Rightarrow> state \<Rightarrow> js_exn + state" where
  "onPullApi orgName name r s =
     (if succeeded 200 r then
        (case body_of r of
           JsonMeta revs lm \<Rightarrow>
             (case getMaxRevision revs of
                None \<Rightarrow> Inl TypeError
              | Some lr \<Rightarrow>
                  if shouldExport (data s) name lm
                  then Inr (exportProxy orgName name lr
                         (defaultLog (''Exporting proxy '' @ name @ '' revision '' @ js_string_of_int lr)
                           (s\<lparr>data := recordSeen (data s) name lr lm\<rparr>)))
                  else Inr s)
         | NotJson \<Rightarrow> Inl SyntaxError
         | ZipData _ \<Rightarrow> Inl SyntaxError
         | _ \<Rightarrow> Inl TypeError)
      else Inr (logError ''getAPI: '' r s))"

text \<open>The callback of the export request, run once the body, whatever the status, has
  gone through the pipe into \<open>unzip.Extract\<close>.\<close>

definition onExport :: "org_name \<Rightarrow> proxy_name \<Rightarrow> revision \<Rightarrow> path \<Rightarrow> response \<Rightarrow> state \<Rightarrow> js_exn + state" where
  "onExport orgName name revision dest r s =
     (case r of
        NetError \<Rightarrow> Inr (logError ''exportProxy: '' r s)
      | Reply c b \<Rightarrow>
          (let s' = s\<lparr>disk := unpack dest b (disk s)\<rparr>
           in Inr (emit (Unpack dest)
                (if c = 200
                 then defaultLog (''Done exporting proxy '' @ name @ '' revision '' @ js_string_of_int revision) s'
                 else logError ''exportProxy: '' r s'))))"

text \<open>\<open>args.proxy.forEach(aProxy => {verboseLog(..); getProxyToPull(args.org, aProxy)})\<close>\<close>

definition pullProxies :: "state \<Rightarrow> state" where
  "pullProxies s =
     fold (\<lambda>name s'. getProxyToPull (org (args s)) name (verboseLog (''Checking proxy: '' @ name) s'))
       (proxy (args s)) s"

definition getProxyList :: "org_name \<Rightarrow> state \<Rightarrow> state" where
  "getProxyList orgName s =
     request (listOptions (args s) orgName) (CbProxyList orgName) (defaultLog ''Getting list of proxies'' s)"

text \<open>The callback of \<open>getProxyList\<close>: \<open>args.proxy = proxies; callback()\<close>, the
  callback being \<open>pullProxies\<close>; \<open>forEach\<close> of a value that is not an array throws.\<close>

definition onProxyList :: "org_name \<Rightarrow> response \<Rightarrow> state \<Rightarrow> js_exn + state" where
  "onProxyList orgName r s =
     (if succeeded 200 r then
        (case body_of r of
           JsonList proxies \<Rightarrow>
             (let s' = defaultLog (''Proxies: '' @ js_join proxies) s
              in Inr (pullProxies (s'\<lparr>args := (args s')\<lparr>proxy := proxies\<rparr>\<rparr>)))
         | NotJson \<Rightarrow> Inl SyntaxError
         | ZipData _ \<Rightarrow> Inl SyntaxError
         | _ \<Rightarrow> Inl TypeError)
      else Inr (logError ''listProxies: '' r s))"

text \<open>\<open>args.proxy[0] === "all"\<close>: false on an empty list.\<close>

definition first_is_all :: "proxy_name list \<Rightarrow> bool" where
  "first_is_all xs = (case xs of [] \<Rightarrow> False | x # _ \<Rightarrow> x = ''all'')"

definition pull :: "state \<Rightarrow> state" where
  "pull s = (if first_is_all (proxy (args s)) then getProxyList (org (args s)) s else pullProxies s)"

subsection \<open>Push\<close>

definition getProxyToPush :: "org_name \<Rightarrow> proxy_name \<Rightarrow> state \<Rightarrow> state" where
  "getProxyToPush orgName name s =
     request (apiOptions (args s) orgName name) (CbPushApi orgName name) s"

text \<open>The callback of \<open>getProxyToPush\<close>: any failed lookup imports revision 1.\<close>

definition onPushApi :: "org_name \<Rightarrow> proxy_name \<Rightarrow> response \<Rightarrow> state \<Rightarrow> js_exn + state" where
  "onPushApi orgName name r s =
     (if succeeded 200 r then
        (case body_of r of
           JsonMeta revs _ \<Rightarrow>
             (case getMaxRevision revs of
                None \<Rightarrow> Inl TypeError
              | Some lr \<Rightarrow>
                  if update (args s)
                  then Inr (updateProxy orgName name lr
                         (defaultLog (''Updating proxy '' @ name @ '' revision '' @ js_string_of_int lr) s))
                  else Inr (importProxy orgName name (lr + 1)
                         (defaultLog (''Importing proxy '' @ name @ '' new revision ''
                                      @ js_string_of_int (lr + 1)) s)))
         | NotJson \<Rightarrow> Inl SyntaxError
         | ZipData _ \<Rightarrow> Inl SyntaxError
         | _ \<Rightarrow> Inl TypeError)
      else Inr (importProxy orgName name 1 (defaultLog (''Importing new proxy '' @ name) s)))"

definition onImport :: "org_name \<Rightarrow> proxy_name \<Rightarrow> revision \<Rightarrow> response \<Rightarrow> state \<Rightarrow> js_exn + state" where
  "onImport orgName name revision r s =
     Inr (if succeeded 201 r
          then deployProxy orgName name revision (defaultLog (''Done importing proxy '' @ name) s)
          else logError ''importProxy: '' r s)"

definition onUpdate :: "org_name \<Rightarrow> proxy_name \<Rightarrow> revision \<Rightarrow> response \<Rightarrow> state \<Rightarrow> js_exn + state" where
  "onUpdate orgName name revision r s =
     Inr (if succeeded 200 r
          then defaultLog (''Done updating proxy '' @ name @ '' revision '' @ js_string_of_int revision) s
          else logError ''updateProxy: '' r s)"

definition onDeploy :: "org_name \<Rightarrow> proxy_name \<Rightarrow> revision \<Rightarrow> env_name \<Rightarrow> response \<Rightarrow> state \<Rightarrow> js_exn + state" where
  "onDeploy orgName name revision e r s =
     Inr (if succeeded 200 r
          then defaultLog (''Done deploying proxy '' @ name @ '' revision '' @ js_string_of_int revision
                           @ '' to env '' @ js_str_opt (env (args s))) s
          else logError ''deployProxy: '' r s)"

text \<open>The callback of \<open>zipfolder\<close>, with \<open>NetError\<close> standing for a set
  \<open>err\<close>; when there is none, the archive has been written before the callback runs. It
  prints with \<open>console.log\<close>, so \<open>-q\<close> does not silence it.\<close>

definition onZip :: "proxy_name \<Rightarrow> path \<Rightarrow> path \<Rightarrow> response \<Rightarrow> state \<Rightarrow> js_exn + state" where
  "onZip name src zp r s =
     Inr (case r of NetError \<Rightarrow> say (''Error zipping '' @ name) s
          | Reply _ _ \<Rightarrow> say (''Done zipping proxy '' @ name) (s\<lparr>disk := zip_folder src zp (disk s)\<rparr>))"

text \<open>\<open>verboseLog(..); zipProxy(aProxy); getProxyToPush(args.org, aProxy)\<close> for each
  name.\<close>

definition pushProxies :: "state \<Rightarrow> state" where
  "pushProxies s =
     fold (\<lambda>name s'. getProxyToPush (org (args s)) name
                        (zipProxy name (verboseLog (''Checking proxy: '' @ name) s')))
       (proxy (args s)) s"

text \<open>\<open>fs.readdirSync(args.source).filter(file =>
  fs.statSync(args.source + "/" + file).isDirectory())\<close>; \<open>readdirSync\<close> throws when the
  source is not a directory.\<close>

definition getProxySourceDirs :: "state \<Rightarrow> js_exn + proxy_name list" where
  "getProxySourceDirs s =
     (case readdirSync (disk s) (source (args s)) of
        None \<Rightarrow> Inl FsError
      | Some files \<Rightarrow> Inr (filter (\<lambda>file. isDirectory (disk s) (source (args s) @ ''/'' @ file)) files))"

definition push :: "state \<Rightarrow> js_exn + state" where
  "push s =
     (if first_is_all (proxy (args s)) then
        (case getProxySourceDirs s of
           Inl e \<Rightarrow> Inl e
         | Inr dirs \<Rightarrow> Inr (pushProxies (s\<lparr>args := (args s)\<lparr>proxy := dirs\<rparr>\<rparr>)))
      else Inr (pushProxies s))"

subsection \<open>The event loop's view: running a callback\<close>

fun handle :: "callback \<Rightarrow> response \<Rightarrow> state \<Rightarrow> js_exn + state" where
  "handle (CbProxyList orgName) r s = onProxyList orgName r s"
| "handle (CbPullApi orgName name) r s = onPullApi orgName name r s"
| "handle (CbPushApi orgName name) r s = onPushApi orgName name r s"
| "handle (CbExport orgName name revision dest) r s = onExport orgName name revision dest r s"
| "handle (CbZip name src zp) r s = onZip name src zp r s"
| "handle (CbImport orgName name revision) r s = onImport orgName name revision r s"
| "handle (CbUpdate orgName name revision) r s = onUpdate orgName name revision r s"
| "handle (CbDeploy orgName name revision e) r s = onDeploy orgName name revision e r s"

definition deliver :: "nat \<Rightarrow> response \<Rightarrow> state \<Rightarrow> js_exn + state" where
  "deliver i r s = handle (pending s ! i) r (s\<lparr>pending := remove_at i (pending s)\<rparr>)"

subsection \<open>Module entry points\<close>

text \<open>\<open>args = {}\<close> and the given fields set; \<open>data\<close> is not reset. Unset string
  fields read \<open>"undefined"\<close> when concatenated, unset flags are falsy.\<close>

definition pullWithArgs ::
  "string \<Rightarrow> string \<Rightarrow> org_name \<Rightarrow> proxy_name list \<Rightarrow> path \<Rightarrow> bool \<Rightarrow> int option \<Rightarrow> state \<Rightarrow> state" where
  "pullWithArgs user pass orgName proxies dest cont ival s =
     pull (s\<lparr>args := \<lparr>command = None, org = orgName, proxy = proxies, destination = dest,
                       source = js_undefined, update = False, env = None, continuous = cont,
                       interval = ival, username = user, password = pass, quite = False,
                       verbose = False\<rparr>\<rparr>)"

definition pushWithArgs ::
  "string \<Rightarrow> string \<Rightarrow> org_name \<Rightarrow> proxy_name list \<Rightarrow> path \<Rightarrow> bool \<Rightarrow> env_name option \<Rightarrow> state \<Rightarrow> state" where
  "pushWithArgs user pass orgName proxies src upd e s =
     pull (s\<lparr>args := \<lparr>command = None, org = orgName, proxy = proxies, destination = js_undefined,
                       source = src, update = upd, env = e, continuous = False,
                       interval = None, username = user, password = pass, quite = False,
                       verbose = False\<rparr>\<rparr>)"

subsection \<open>Abstract contract of the push decision\<close>

text \<open>The spec's Revision Resolver for a push: a proxy that is not found remotely is
  imported as revision 1; an existing one is updated at its current revision or imported
  at the next one.\<close>

datatype push_op = OpUpdate revision | OpImport revision

definition push_target_spec :: "bool \<Rightarrow> revision set option \<Rightarrow> push_op" where
  "push_target_spec upd meta =
     (case meta of None \<Rightarrow> OpImport 1
      | Some R \<Rightarrow> if upd then OpUpdate (Max R) else OpImport (Max R + 1))"

fun op_callback :: "org_name \<Rightarrow> proxy_name \<Rightarrow> push_op \<Rightarrow> callback" where
  "op_callback orgName name (OpUpdate revision) = CbUpdate orgName name revision"
| "op_callback orgName name (OpImport revision) = CbImport orgName name revision"

subsection \<open>Effects of one iteration of pushProxies\<close>

definition push_effects :: "args \<Rightarrow> proxy_name \<Rightarrow> effect list" where
  "push_effects a n =
     [RemoveDir (getProxyZipPath a n),
      ZipFolder (getProxySourcePath a n) (getProxyZipPath a n) (CbZip n (getProxySourcePath a n) (getProxyZipPath a n)),
      Request (apiOptions a (org a) n) (CbPushApi (org a) n)]"

definition push_cbs :: "args \<Rightarrow> proxy_name \<Rightarrow> callback list" where
  "push_cbs a n = [CbZip n (getProxySourcePath a n) (getProxyZipPath a n), CbPushApi (org a) n]"

subsection \<open>Start state and a sample command line\<close>

text \<open>\<open>var data = {}; var args = {};\<close>, then the parsed arguments, on the disk the
  process finds.\<close>

definition init_state :: "args \<Rightarrow> disk \<Rightarrow> state" where
  "init_state a d = \<lparr>args = a, data = Map.empty, pending = [], trace = [], console = [], disk = d\<rparr>"

definition demo_args :: "bool \<Rightarrow> env_name option \<Rightarrow> proxy_name list \<Rightarrow> args" where
  "demo_args upd e proxies =
     \<lparr>command = Some ''pull'', org = ''acme'', proxy = proxies, destination = ''.'', source = ''.'',
      update = upd, env = e, continuous = False, interval = Some 30, username = ''u'',
      password = ''p'', quite = False, verbose = False\<rparr>"

text \<open>A disk with a local copy of proxy \<open>p\<close> from an earlier pull.\<close>

definition old_copy :: disk where
  "old_copy = [(''.'', Dir), (''./p'', Dir), (''./p/proxy.xml'', File (Raw ''v1''))]"

text \<open>A disk with the source folder of proxy \<open>p\<close> and the archive an earlier push left.\<close>

definition push_disk :: disk where
  "push_disk = [(''.'', Dir), (''./p'', Dir), (''./p/proxy.xml'', File (Raw ''v2'')),
                (''./p.zip'', File (Raw ''old archive''))]"

section \<open>Lemmas\<close>

subsection \<open>Effects of the operations\<close>

lemmas request_ops =
  importProxy_def updateProxy_def getProxyToPull_def getProxyToPush_def getProxyList_def

declare onZip_def [handler_simps] onUpdate_def [handler_simps] onDeploy_def [handler_simps]
  onExport_def [handler_simps] onImport_def [handler_simps]

lemma exportProxy_fields [simp, frame_simps]:
  "args (exportProxy orgName name revision s) = args s"
  "data (exportProxy orgName name revision s) = data s"
  "pending (exportProxy orgName name revision s) =
     pending s @ [CbExport orgName name revision (getProxyDestinationPath (args s) name)]"
  "trace (exportProxy orgName name revision s) =
     trace s @ [RemoveDir (getProxyDestinationPath (args s) name),
                Request (exportOptions (args s) orgName name revision)
                  (CbExport orgName name revision (getProxyDestinationPath (args s) name))]"
  "console (exportProxy orgName name revision s) = console s"
  "disk (exportProxy orgName name revision s) = rimraf (getProxyDestinationPath (args s) name) (disk s)"
  by (simp_all add: exportProxy_def Let_def)

lemma zipProxy_fields [simp, frame_simps]:
  "args (zipProxy name s) = args s"
  "data (zipProxy name s) = data s"
  "pending (zipProxy name s) =
     pending s @ [CbZip name (getProxySourcePath (args s) name) (getProxyZipPath (args s) name)]"
  "trace (zipProxy name s) =
     trace s @ [RemoveDir (getProxyZipPath (args s) name),
                ZipFolder (getProxySourcePath (args s) name) (getProxyZipPath (args s) name)
                  (CbZip name (getProxySourcePath (args s) name) (getProxyZipPath (args s) name))]"
  "console (zipProxy name s) = console s"
  "disk (zipProxy name s) = rimraf (getProxyZipPath (args s) name) (disk s)"
  by (simp_all add: zipProxy_def Let_def)

lemma deployProxy_fields [simp, frame_simps]:
  "args (deployProxy orgName name revision s) = args s"
  "data (deployProxy orgName name revision s) = data s"
  "pending (deployProxy orgName name revision s) =
     pending s @ (if isEmpty (env (args s)) then []
                  else [CbDeploy orgName name revision (the (env (args s)))])"
  "trace (deployProxy orgName name revision s) =
     trace s @ (if isEmpty (env (args s)) then []
                else [Request (deployOptions (args s) orgName name revision (the (env (args s))))
                        (CbDeploy orgName name revision (the (env (args s))))])"
  "disk (deployProxy orgName name revision s) = disk s"
  by (simp_all add: deployProxy_def Let_def)

subsection \<open>The two forEach loops\<close>

lemma fold_getProxyToPull:
  "args (fold (\<lambda>name s'. getProxyToPull og name (verboseLog (m name) s')) ns s) = args s \<and>
   data (fold (\<lambda>name s'. getProxyToPull og name (verboseLog (m name) s')) ns s) = data s \<and>
   pending (fold (\<lambda>name s'. getProxyToPull og name (verboseLog (m name) s')) ns s) =
     pending s @ map (CbPullApi og) ns \<and>
   trace (fold (\<lambda>name s'. getProxyToPull og name (verboseLog (m name) s')) ns s) =
     trace s @ map (\<lambda>n. Request (apiOptions (args s) og n) (CbPullApi og n)) ns \<and>
   disk (fold (\<lambda>name s'. getProxyToPull og name (verboseLog (m name) s')) ns s) = disk s"
  by (induction ns arbitrary: s) (simp_all add: getProxyToPull_def)

lemma pullProxies_fields [simp, frame_simps]:
  "args (pullProxies s) = args s"
  "data (pullProxies s) = data s"
  "pending (pullProxies s) = pending s @ map (CbPullApi (org (args s))) (proxy (args s))"
  "trace (pullProxies s) =
     trace s @ map (\<lambda>n. Request (apiOptions (args s) (org (args s)) n) (CbPullApi (org (args s)) n))
                 (proxy (args s))"
  "disk (pullProxies s) = disk s"
  by (simp_all add: pullProxies_def fold_getProxyToPull)

lemma fold_pushProxies:
  "args (fold (\<lambda>name s'. getProxyToPush (org a) name (zipProxy name (verboseLog (m name) s'))) ns s) = args s \<and>
   data (fold (\<lambda>name s'. getProxyToPush (org a) name (zipProxy name (verboseLog (m name) s'))) ns s) = data s \<and>
   (args s = a \<longrightarrow>
    pending (fold (\<lambda>name s'. getProxyToPush (org a) name (zipProxy name (verboseLog (m name) s'))) ns s) =
      pending s @ concat (map (push_cbs a) ns)) \<and>
   (args s = a \<longrightarrow>
    trace (fold (\<lambda>name s'. getProxyToPush (org a) name (zipProxy name (verboseLog (m name) s'))) ns s) =
      trace s @ concat (map (push_effects a) ns)) \<and>
   (args s = a \<longrightarrow>
    disk (fold (\<lambda>name s'. getProxyToPush (org a) name (zipProxy name (verboseLog (m name) s'))) ns s) =
      fold (\<lambda>n. rimraf (getProxyZipPath a n)) ns (disk s))"
  by (induction ns arbitrary: s) (simp_all add: getProxyToPush_def push_effects_def push_cbs_def)

lemma pushProxies_fields [simp, frame_simps]:
  "args (pushProxies s) = args s"
  "data (pushProxies s) = data s"
  "pending (pushProxies s) =
     pending s @ concat (map (push_cbs (args s)) (proxy (args s)))"
  "trace (pushProxies s) = trace s @ concat (map (push_effects (args s)) (proxy (args s)))"
  "disk (pushProxies s) = fold (\<lambda>n. rimraf (getProxyZipPath (args s) n)) (proxy (args s)) (disk s)"
  using fold_pushProxies [where a = "args s" and ns = "proxy (args s)" and s = s]
  by (simp_all add: pushProxies_def)

subsection \<open>The metadata callback of a pull\<close>

lemma onPullApi_meta:
  "revs \<noteq> [] \<Longrightarrow> onPullApi orgName name (Reply 200 (JsonMeta revs lm)) s =
     (if shouldExport (data s) name lm
      then Inr (exportProxy orgName name (Max (set revs))
                  (defaultLog (''Exporting proxy '' @ name @ '' revision '' @ js_string_of_int (Max (set revs)))
                    (s\<lparr>data := recordSeen (data s) name (Max (set revs)) lm\<rparr>)))
      else Inr s)"
  by (simp add: onPullApi_def getMaxRevision_Max)

lemma onPullApi_meta_settles:
  assumes h: "onPullApi orgName name (Reply 200 (JsonMeta revs lm)) s = Inr s1"
  shows "revs \<noteq> [] \<and> \<not> shouldExport (data s1) name lm"
proof -
  have revs: "revs \<noteq> []" using h by (auto simp: onPullApi_def)
  with h show ?thesis by (auto simp: onPullApi_meta split: if_splits)
qed

lemma push_cbs_proxy [simp]: "push_cbs (a\<lparr>proxy := ps\<rparr>) = push_cbs a"
  by (simp add: push_cbs_def getProxySourcePath_def getProxyZipPath_def fun_eq_iff)

lemma onExport_data: "onExport orgName name revision dest r s = Inr s' \<Longrightarrow> data s' = data s"
  by (auto simp: onExport_def Let_def split: response.splits)

text \<open>C2. When the remote \<open>lastModifiedAt\<close> is newer than the stored one (or nothing is
  stored), the metadata callback stores the new revision and timestamp, removes the old local
  copy and then requests exactly one export of the newest revision into that directory.\<close>

theorem onPullApi_newer_exports:
  assumes newer: "\<forall>x. data s name = Some x \<longrightarrow> lastModified x < lm" and revs: "revs \<noteq> []"
  shows "\<exists>s'. onPullApi orgName name (Reply 200 (JsonMeta revs lm)) s = Inr s' \<and>
     data s' = (data s)(name \<mapsto> \<lparr>proxyName = name, lastRevision = Max (set revs), lastModified = lm\<rparr>) \<and>
     trace s' = trace s @ [RemoveDir (getProxyDestinationPath (args s) name),
        Request (exportOptions (args s) orgName name (Max (set revs)))
          (CbExport orgName name (Max (set revs)) (getProxyDestinationPath (args s) name))]"
proof -
  from newer have "shouldExport (data s) name lm"
    by (auto simp: shouldExport_def split: option.splits)
  with revs show ?thesis by (simp add: onPullApi_meta recordSeen_def)
qed

theorem onPullApi_newer_exports_witness:
  "\<exists>s'. onPullApi ''acme'' ''p'' (Reply 200 (JsonMeta [1, 2] 5))
          ((init_state (demo_args False None [''p'']) [])\<lparr>data := [''p'' \<mapsto> \<lparr>proxyName = ''p'', lastRevision = 1, lastModified = 3\<rparr>]\<rparr>) = Inr s' \<and>
     data s' = [''p'' \<mapsto> \<lparr>proxyName = ''p'', lastRevision = 2, lastModified = 5\<rparr>] \<and>
     trace s' = [RemoveDir ''./p'', Request (exportOptions (demo_args False None [''p'']) ''acme'' ''p'' 2)
                                      (CbExport ''acme'' ''p'' 2 ''./p'')]"
  using onPullApi_newer_exports [of "(init_state (demo_args False None [''p'']) [])\<lparr>data := [''p'' \<mapsto> \<lparr>proxyName = ''p'', lastRevision = 1, lastModified = 3\<rparr>]\<rparr>"
      "''p''" 5 "[1, 2]" "''acme''"]
  by (simp add: init_state_def demo_args_def getProxyDestinationPath_def)

text \<open>C3. When the remote timestamp is not newer than the stored one (a tie included), the
  metadata callback skips the proxy and leaves the whole state unchanged.\<close>

theorem onPullApi_not_newer_noop:
  "data s name = Some x \<Longrightarrow> lm \<le> lastModified x \<Longrightarrow> revs \<noteq> [] \<Longrightarrow>
   onPullApi orgName name (Reply 200 (JsonMeta revs lm)) s = Inr s"
  by (simp add: onPullApi_meta shouldExport_def)

theorem onPullApi_not_newer_noop_witness:
  "onPullApi ''acme'' ''p'' (Reply 200 (JsonMeta [4] 3))
     ((init_state (demo_args False None [''p'']) [])\<lparr>data := [''p'' \<mapsto> \<lparr>proxyName = ''p'', lastRevision = 4, lastModified = 3\<rparr>]\<rparr>)
   = Inr ((init_state (demo_args False None [''p'']) [])\<lparr>data := [''p'' \<mapsto> \<lparr>proxyName = ''p'', lastRevision = 4, lastModified = 3\<rparr>]\<rparr>)"
  by (rule onPullApi_not_newer_noop [where x = "\<lparr>proxyName = ''p'', lastRevision = 4, lastModified = 3\<rparr>"]) simp_all

text \<open>C4. A metadata lookup that fails (transport error or a status other than 200) is
  isolated: the only change to the state is the error report on the console; no record is
  stored, so the next poll tick asks again, and nothing is requested.\<close>

theorem onPullApi_failure_isolated:
  "\<not> succeeded 200 r \<Longrightarrow> onPullApi orgName name r s = Inr (logError ''getAPI: '' r s)"
  by (simp add: onPullApi_def)

theorem onPullApi_failure_isolated_witness:
  "onPullApi ''acme'' ''p'' (Reply 401 NotJson) (init_state (demo_args False None [''p'']) [])
   = Inr ((init_state (demo_args False None [''p'']) [])\<lparr>console :=
       [Line ''Error while calling getAPI: '', Line (''statusCode: '' @ js_string_of_int 401),
        Line ''error: null'', BodyValue NotJson]\<rparr>)"
  using onPullApi_failure_isolated [of "Reply 401 NotJson" "''acme''" "''p''" "init_state (demo_args False None [''p'']) []"]
  by (simp add: logError_def error_lines_def init_state_def)

text \<open>C5. A proxy whose metadata lists no revision makes \<open>getMaxRevision\<close> call
  \<open>reduce\<close> on an empty array: the callback throws a TypeError instead of skipping or
  resolving revision 1.\<close>

theorem onPullApi_empty_revisions_throws:
  "onPullApi orgName name (Reply 200 (JsonMeta [] lm)) s = Inl TypeError"
  by (simp add: onPullApi_def)

text \<open>C6. The record is stored before the export is attempted: after the metadata
  callback has triggered an export, whatever the export's outcome (a failed one included),
  the next poll with the same metadata does not export again.\<close>

theorem export_failure_not_retried:
  assumes meta: "onPullApi orgName name (Reply 200 (JsonMeta revs lm)) s = Inr s1"
    and exp: "onExport orgName name rv dest r s1 = Inr s2"
  shows "onPullApi orgName name (Reply 200 (JsonMeta revs lm)) s2 = Inr s2"
proof -
  from meta have "revs \<noteq> []" and "\<not> shouldExport (data s1) name lm"
    by (auto dest: onPullApi_meta_settles)
  moreover from exp have "data s2 = data s1" by (rule onExport_data)
  ultimately show ?thesis by (simp add: onPullApi_meta)
qed

theorem export_failure_not_retried_witness:
  "\<exists>s1 s2. onPullApi ''acme'' ''p'' (Reply 200 (JsonMeta [1] 5)) (init_state (demo_args False None [''p'']) []) = Inr s1 \<and>
     onExport ''acme'' ''p'' 1 ''./p'' NetError s1 = Inr s2 \<and>
     onPullApi ''acme'' ''p'' (Reply 200 (JsonMeta [1] 5)) s2 = Inr s2"
proof -
  obtain s1 where h: "onPullApi ''acme'' ''p'' (Reply 200 (JsonMeta [1] 5))
                        (init_state (demo_args False None [''p'']) []) = Inr s1"
    by (simp add: onPullApi_def getMaxRevision_def js_reduce_def init_state_def)
  obtain s2 where e: "onExport ''acme'' ''p'' 1 ''./p'' NetError s1 = Inr s2"
    by (simp add: onExport_def)
  show ?thesis using h e export_failure_not_retried [OF h e] by blast
qed

subsection \<open>The metadata callback of a push\<close>

text \<open>C7. The push decision refines the spec's Revision Resolver: for an existing proxy
  with revisions \<open>R\<close>, the callback issues exactly one request, an update of
  \<open>max R\<close> with \<open>--update\<close> and an import of \<open>max R + 1\<close> without it, and
  registers the matching callback.\<close>

theorem onPushApi_refines_target:
  assumes "revs \<noteq> []"
  shows "\<exists>s' q. onPushApi orgName name (Reply 200 (JsonMeta revs lm)) s = Inr s' \<and>
     data s' = data s \<and>
     pending s' = pending s @ [op_callback orgName name (push_target_spec (update (args s)) (Some (set revs)))] \<and>
     trace s' = trace s @ [Request q (op_callback orgName name (push_target_spec (update (args s)) (Some (set revs))))]"
  using assms
  by (simp add: onPushApi_def getMaxRevision_Max push_target_spec_def request_ops)

theorem onPushApi_refines_target_witness:
  "(\<exists>s' q. onPushApi ''acme'' ''p'' (Reply 200 (JsonMeta [3, 1, 4, 1, 5] 0)) (init_state (demo_args False None [''p'']) []) = Inr s' \<and>
      pending s' = [CbImport ''acme'' ''p'' 6] \<and> trace s' = [Request q (CbImport ''acme'' ''p'' 6)]) \<and>
   (\<exists>s' q. onPushApi ''acme'' ''p'' (Reply 200 (JsonMeta [7, 2] 0)) (init_state (demo_args True None [''p'']) []) = Inr s' \<and>
      pending s' = [CbUpdate ''acme'' ''p'' 7] \<and> trace s' = [Request q (CbUpdate ''acme'' ''p'' 7)])"
  using onPushApi_refines_target [of "[3, 1, 4, 1, 5]" "''acme''" "''p''" 0 "init_state (demo_args False None [''p'']) []"]
    onPushApi_refines_target [of "[7, 2]" "''acme''" "''p''" 0 "init_state (demo_args True None [''p'']) []"]
  by (simp add: push_target_spec_def init_state_def demo_args_def) blast

text \<open>C8. Every failed metadata lookup of a push, an authentication failure or a transport
  error as much as a missing proxy, is taken for "proxy does not exist": the callback
  imports the archive as revision 1.\<close>

theorem onPushApi_lookup_failure_imports_one:
  "\<not> succeeded 200 r \<Longrightarrow>
   \<exists>s'. onPushApi orgName name r s = Inr s' \<and> data s' = data s \<and>
     pending s' = pending s @ [CbImport orgName name 1] \<and>
     trace s' = trace s @ [Request (importOptions (args s) orgName name) (CbImport orgName name 1)]"
  by (simp add: onPushApi_def importProxy_def)

theorem onPushApi_lookup_failure_imports_one_witness:
  "\<exists>s'. onPushApi ''acme'' ''p'' (Reply 401 NotJson) (init_state (demo_args False None [''p'']) []) = Inr s' \<and>
     pending s' = [CbImport ''acme'' ''p'' 1] \<and>
     trace s' = [Request (importOptions (demo_args False None [''p'']) ''acme'' ''p'') (CbImport ''acme'' ''p'' 1)]"
  using onPushApi_lookup_failure_imports_one [of "Reply 401 NotJson" "''acme''" "''p''" "init_state (demo_args False None [''p'']) []"]
  by (simp add: init_state_def) blast

text \<open>C9. The import callback deploys if and only if the import succeeded (status 201)
  and an environment was given: then it issues one deploy request of the imported revision
  to that environment, otherwise it issues nothing.\<close>

theorem onImport_deploys_iff:
  "onImport orgName name rv r s = Inr s' \<Longrightarrow>
   trace s' = trace s @
     (if succeeded 201 r \<and> \<not> isEmpty (env (args s))
      then [Request (deployOptions (args s) orgName name rv (the (env (args s))))
              (CbDeploy orgName name rv (the (env (args s))))]
      else [])"
  by (auto simp: onImport_def)

theorem onImport_deploys_iff_witness:
  "\<exists>s'. onImport ''acme'' ''p'' 6 (Reply 201 NotJson) (init_state (demo_args False (Some ''prod'') [''p'']) []) = Inr s' \<and>
     trace s' = [Request (deployOptions (demo_args False (Some ''prod'') [''p'']) ''acme'' ''p'' 6 ''prod'')
                   (CbDeploy ''acme'' ''p'' 6 ''prod'')]"
proof -
  obtain s' where h: "onImport ''acme'' ''p'' 6 (Reply 201 NotJson)
                        (init_state (demo_args False (Some ''prod'') [''p'']) []) = Inr s'"
    by (simp add: onImport_def)
  show ?thesis
    using h onImport_deploys_iff [OF h] by (simp add: init_state_def demo_args_def)
qed

subsection \<open>Worklists\<close>

text \<open>C10. \<open>pull\<close> derives its worklist from \<open>args.proxy\<close>: with the sentinel
  \<open>all\<close> first it issues one listing request, otherwise one metadata request per named
  proxy, in order, with nothing waited for in between.\<close>

theorem pull_worklist:
  "pending (pull s) = pending s @
     (if first_is_all (proxy (args s)) then [CbProxyList (org (args s))]
      else map (CbPullApi (org (args s))) (proxy (args s)))"
  by (simp add: pull_def getProxyList_def)

text \<open>C11. The listing callback overwrites \<open>args.proxy\<close> with the listed names, so the
  sentinel \<open>all\<close> is gone: the next poll tick re-uses the old list and issues metadata
  requests only, never a new listing, and proxies created remotely later are not found.\<close>

theorem onProxyList_stops_relisting:
  assumes h: "onProxyList orgName (Reply 200 (JsonList ps)) s = Inr s'"
    and ps: "\<not> first_is_all ps"
  shows "proxy (args s') = ps \<and> pending (pull s') = pending s' @ map (CbPullApi (org (args s))) ps"
proof -
  from h have "args s' = (args s)\<lparr>proxy := ps\<rparr>"
    by (auto simp: onProxyList_def Let_def)
  with ps show ?thesis by (simp add: pull_def)
qed

theorem onProxyList_stops_relisting_witness:
  "\<exists>s'. onProxyList ''acme'' (Reply 200 (JsonList [''p1'', ''p2'']))
          (pull (init_state (demo_args False None [''all'']) [])) = Inr s' \<and>
     proxy (args s') = [''p1'', ''p2''] \<and>
     pending (pull s') = pending s' @ [CbPullApi ''acme'' ''p1'', CbPullApi ''acme'' ''p2'']"
proof -
  obtain s' where h: "onProxyList ''acme'' (Reply 200 (JsonList [''p1'', ''p2'']))
                        (pull (init_state (demo_args False None [''all'']) [])) = Inr s'"
    by (simp add: onProxyList_def)
  have ps: "\<not> first_is_all [''p1'', ''p2'']" by (simp add: first_is_all_def)
  have o: "org (args (pull (init_state (demo_args False None [''all'']) []))) = ''acme''"
    by (simp add: pull_def first_is_all_def init_state_def demo_args_def getProxyList_def)
  have "proxy (args s') = [''p1'', ''p2''] \<and>
        pending (pull s') = pending s' @ map (CbPullApi ''acme'') [''p1'', ''p2'']"
    using onProxyList_stops_relisting [OF h ps] unfolding o .
  with h show ?thesis by (intro exI [of _ s']) simp
qed

text \<open>C12. The module entry \<open>pushWithArgs\<close> calls \<open>pull\<close>: it issues metadata
  requests answered by the pull callback, never packages or uploads anything, and a later
  export would go to the unset destination \<open>"undefined"\<close>.\<close>

theorem pushWithArgs_runs_pull:
  "\<not> first_is_all ps \<Longrightarrow>
   pending (pushWithArgs user pass orgName ps src upd e s) = pending s @ map (CbPullApi orgName) ps \<and>
   destination (args (pushWithArgs user pass orgName ps src upd e s)) = js_undefined"
  by (simp add: pushWithArgs_def pull_def)

theorem pushWithArgs_runs_pull_witness:
  "\<not> first_is_all [''p''] \<and>
   pending (pushWithArgs ''u'' ''pw'' ''acme'' [''p''] ''src'' False (Some ''prod'') (init_state (demo_args False None []) [])) =
     [CbPullApi ''acme'' ''p''] \<and>
   destination (args (pushWithArgs ''u'' ''pw'' ''acme'' [''p''] ''src'' False (Some ''prod'') (init_state (demo_args False None []) []))) =
     ''undefined''"
  using pushWithArgs_runs_pull [of "[''p'']" "''u''" "''pw''" "''acme''" "''src''" False "Some ''prod''" "init_state (demo_args False None []) []"]
  by (simp add: first_is_all_def init_state_def js_undefined_def)

text \<open>C13. \<open>push\<close> with the sentinel \<open>all\<close> takes as worklist exactly the entries
  that \<open>fs.readdirSync\<close> lists in the source directory and that are directories, in
  listing order, and for each packages the archive and then looks the proxy up.\<close>

theorem push_all_expands:
  "first_is_all (proxy (args s)) \<Longrightarrow> readdirSync (disk s) (source (args s)) = Some files \<Longrightarrow>
   push s = Inr s' \<Longrightarrow>
   proxy (args s') = filter (\<lambda>f. isDirectory (disk s) (source (args s) @ ''/'' @ f)) files \<and>
   pending s' = pending s @ concat (map (push_cbs (args s)) (proxy (args s')))"
  by (auto simp: push_def getProxySourceDirs_def push_cbs_def getProxySourcePath_def getProxyZipPath_def)

theorem push_all_expands_witness:
  "\<exists>s'. push (init_state (demo_args False None [''all''])
                [(''.'', Dir), (''./a'', Dir), (''./notes.txt'', File (Raw ''n'')), (''./b'', Dir)]) = Inr s' \<and>
     proxy (args s') = [''a'', ''b''] \<and>
     pending s' = [CbZip ''a'' ''./a'' ''./a.zip'', CbPushApi ''acme'' ''a'',
                   CbZip ''b'' ''./b'' ''./b.zip'', CbPushApi ''acme'' ''b'']"
proof -
  let ?s = "init_state (demo_args False None [''all''])
              [(''.'', Dir), (''./a'', Dir), (''./notes.txt'', File (Raw ''n'')), (''./b'', Dir)]"
  have all: "first_is_all (proxy (args ?s))"
    by (simp add: first_is_all_def init_state_def demo_args_def)
  have ls: "readdirSync (disk ?s) (source (args ?s)) = Some [''a'', ''notes.txt'', ''b'']"
    by (simp add: readdirSync_def init_state_def demo_args_def List.map_filter_simps)
  obtain s' where h: "push ?s = Inr s'"
    using all ls by (simp add: push_def getProxySourceDirs_def)
  have "proxy (args s') = [''a'', ''b'']"
    using push_all_expands [OF all ls h] by (simp add: init_state_def demo_args_def isDirectory_def)
  with h push_all_expands [OF all ls h] show ?thesis
    by (simp add: init_state_def demo_args_def push_cbs_def getProxySourcePath_def getProxyZipPath_def)
qed

subsection \<open>Refinement of the Change Detector contract\<close>

lemma onPullApi_data_observe:
  assumes h: "onPullApi orgName name (Reply 200 (JsonMeta revs lm)) s = Inr s'"
  shows "data s' = observe (data s) name (Max (set revs)) lm"
proof -
  from h have "revs \<noteq> []" by (auto simp: onPullApi_def)
  with h show ?thesis by (auto simp: onPullApi_meta observe_def split: if_splits)
qed

text \<open>C20. The pull callback refines the abstract Change Detector: on a metadata reply,
  the map of last-seen timestamps becomes \<open>seen_spec\<close> of the old one, i.e. the proxy's
  entry becomes the maximum of the stored and the observed timestamp, other entries
  unchanged.\<close>

theorem onPullApi_refines_lastSeen:
  "onPullApi orgName name (Reply 200 (JsonMeta revs lm)) s = Inr s' \<Longrightarrow>
   lastSeen (data s') = seen_spec (lastSeen (data s)) name lm"
  by (simp add: onPullApi_data_observe observe_refines_spec)

theorem onPullApi_refines_lastSeen_witness:
  "\<exists>s'. onPullApi ''acme'' ''p'' (Reply 200 (JsonMeta [1] 5)) (init_state (demo_args False None [''p'']) []) = Inr s' \<and>
     lastSeen (data s') = [''p'' \<mapsto> 5]"
proof -
  obtain s' where h: "onPullApi ''acme'' ''p'' (Reply 200 (JsonMeta [1] 5))
                        (init_state (demo_args False None [''p'']) []) = Inr s'"
    by (simp add: onPullApi_def getMaxRevision_def js_reduce_def init_state_def)
  have "lastSeen (data s') = [''p'' \<mapsto> 5]"
    using onPullApi_refines_lastSeen [OF h]
    by (simp add: seen_spec_def lastSeen_def init_state_def)
  with h show ?thesis by blast
qed

text \<open>C25. An export replaces the local copy whatever its response: for any status,
  the old copy has been removed, the body is piped into \<open>unzip.Extract\<close> at the same
  place, and the record of the new timestamp stays committed. Below the destination the
  disk then holds exactly what the body unpacks to, nothing of the old copy (for an error
  body: nothing at all); outside it the disk is as before.\<close>

theorem failed_export_replaces_copy:
  assumes meta: "onPullApi orgName name (Reply 200 (JsonMeta revs lm)) s = Inr s1"
    and fresh: "shouldExport (data s) name lm"
    and exp: "onExport orgName name (Max (set revs)) (getProxyDestinationPath (args s) name) (Reply c b) s1 = Inr s2"
  shows "trace s2 = trace s @ [RemoveDir (getProxyDestinationPath (args s) name),
           Request (exportOptions (args s) orgName name (Max (set revs)))
             (CbExport orgName name (Max (set revs)) (getProxyDestinationPath (args s) name)),
           Unpack (getProxyDestinationPath (args s) name)] \<and>
         data s2 name = Some \<lparr>proxyName = name, lastRevision = Max (set revs), lastModified = lm\<rparr> \<and>
         (\<forall>f. path_under (getProxyDestinationPath (args s) name) f \<longrightarrow>
              map_of (disk s2) f = map_of (unpack (getProxyDestinationPath (args s) name) b []) f) \<and>
         (\<forall>f. \<not> path_under (getProxyDestinationPath (args s) name) f \<longrightarrow>
              map_of (disk s2) f = map_of (disk s) f)"
proof -
  from meta have revs: "revs \<noteq> []" by (auto simp: onPullApi_def)
  with meta fresh have s1: "args s1 = args s \<and>
      trace s1 = trace s @ [RemoveDir (getProxyDestinationPath (args s) name),
                            Request (exportOptions (args s) orgName name (Max (set revs)))
                              (CbExport orgName name (Max (set revs)) (getProxyDestinationPath (args s) name))] \<and>
      data s1 = recordSeen (data s) name (Max (set revs)) lm \<and>
      disk s1 = rimraf (getProxyDestinationPath (args s) name) (disk s)"
    by (auto simp: onPullApi_meta)
  from exp have "trace s2 = trace s1 @ [Unpack (getProxyDestinationPath (args s) name)] \<and> data s2 = data s1 \<and>
      disk s2 = unpack (getProxyDestinationPath (args s) name) b (disk s1)"
    by (auto simp: onExport_def Let_def)
  with s1 show ?thesis by (simp add: recordSeen_def unpack_fresh unpack_outside)
qed

theorem failed_export_replaces_copy_witness:
  "\<exists>s1 s2. onPullApi ''acme'' ''p'' (Reply 200 (JsonMeta [1] 5)) (init_state (demo_args False None [''p'']) old_copy) = Inr s1 \<and>
     onExport ''acme'' ''p'' 1 ''./p'' (Reply 500 NotJson) s1 = Inr s2 \<and>
     trace s2 = [RemoveDir ''./p'', Request (exportOptions (demo_args False None [''p'']) ''acme'' ''p'' 1)
                                      (CbExport ''acme'' ''p'' 1 ''./p''), Unpack ''./p''] \<and>
     data s2 ''p'' = Some \<lparr>proxyName = ''p'', lastRevision = 1, lastModified = 5\<rparr> \<and>
     map_of (disk s2) ''./p/proxy.xml'' = None \<and> map_of (disk s2) ''./p'' = None \<and>
     map_of (disk s2) ''.'' = Some Dir"
proof -
  let ?s = "init_state (demo_args False None [''p'']) old_copy"
  obtain s1 where h: "onPullApi ''acme'' ''p'' (Reply 200 (JsonMeta [1] 5)) ?s = Inr s1"
    by (simp add: onPullApi_def getMaxRevision_def js_reduce_def init_state_def)
  have f: "shouldExport (data ?s) ''p'' 5" by (simp add: init_state_def)
  have d: "getProxyDestinationPath (args ?s) ''p'' = ''./p''"
    by (simp add: init_state_def demo_args_def getProxyDestinationPath_def)
  obtain s2 where e: "onExport ''acme'' ''p'' 1 ''./p'' (Reply 500 NotJson) s1 = Inr s2"
    by (simp add: onExport_def Let_def)
  from failed_export_replaces_copy [OF h f, of 500 NotJson s2] e d
  have r: "trace s2 = [RemoveDir ''./p'', Request (exportOptions (demo_args False None [''p'']) ''acme'' ''p'' 1)
                     (CbExport ''acme'' ''p'' 1 ''./p''), Unpack ''./p''] \<and>
        data s2 ''p'' = Some \<lparr>proxyName = ''p'', lastRevision = 1, lastModified = 5\<rparr> \<and>
        (\<forall>f. path_under ''./p'' f \<longrightarrow> map_of (disk s2) f = map_of (unpack ''./p'' NotJson []) f) \<and>
        (\<forall>f. \<not> path_under ''./p'' f \<longrightarrow> map_of (disk s2) f = map_of old_copy f)"
    by (simp add: init_state_def demo_args_def)
  then have "map_of (disk s2) ''./p/proxy.xml'' = None \<and> map_of (disk s2) ''./p'' = None \<and>
             map_of (disk s2) ''.'' = Some Dir"
    by (simp add: path_under_def unpack_def old_copy_def)
  with h e r show ?thesis by blast
qed

end
