(* ===== verification/PollLoop.thy ===== *)
theory PollLoop
  imports Orchestrator
begin

text \<open>
  The Poll Loop and the Node process around the orchestrator. \<open>runCommand\<close> of
  src/edgeci.js starts a single pull, arms \<open>setInterval(pull, interval * 1000)\<close> for
  \<open>--continuous\<close>, or starts a push. From then on the process is an event loop: a timer
  tick runs \<open>pull\<close> again, and any pending callback may be run next with any response,
  since responses arrive in no fixed order. A host program that loaded the module may also
  call \<open>pull\<close>/\<open>push\<close> of \<open>module.exports\<close> at any time. An exception thrown by a
  callback ends the process. The step relation \<open>sys_step\<close> has one rule per kind of
  event, \<open>reach\<close> is the set of reachable process states, and the invariants below hold
  in all of them by rule induction. Timing is not modelled: a tick may come at any point,
  which covers the overlapping passes the spec allows.
\<close>

section \<open>Process states and steps\<close>

text \<open>\<open>Alive timer s\<close>: running, with the poll timer armed with a delay in
  milliseconds (\<open>Some d\<close>) or not armed (\<open>None\<close>); \<open>Dead e\<close>: ended by the uncaught
  exception \<open>e\<close>.\<close>

datatype sys = Alive "int option" state | Dead js_exn

text \<open>\<open>setInterval(pull, args.interval * 1000)\<close>: Node's timers take a delay outside
  \<open>[1, 2147483647]\<close> (or not a number, as \<open>undefined * 1000\<close> is) as 1 ms.\<close>

definition timeout_max :: int where
  "timeout_max = 2147483647"

definition pollDelay :: "int option \<Rightarrow> int" where
  "pollDelay ival =
     (case ival of None \<Rightarrow> 1
      | Some i \<Rightarrow> if 1 \<le> i * 1000 \<and> i * 1000 \<le> timeout_max then i * 1000 else 1)"

definition lift :: "int option \<Rightarrow> js_exn + state \<Rightarrow> sys" where
  "lift timer r = (case r of Inl e \<Rightarrow> Dead e | Inr s \<Rightarrow> Alive timer s)"

definition runCommand :: "state \<Rightarrow> sys" where
  "runCommand s =
     (if command (args s) = Some ''pull'' then
        (if continuous (args s) then Alive (Some (pollDelay (interval (args s)))) s
         else Alive None (pull s))
      else if command (args s) = Some ''push'' then lift None (push s)
      else Alive None (say (''Unknown command '' @ js_str_opt (command (args s))) s))"

inductive sys_step :: "sys \<Rightarrow> sys \<Rightarrow> bool" where
  tick: "sys_step (Alive (Some d) s) (Alive (Some d) (pull s))"
| callback: "i < length (pending s) \<Longrightarrow> sys_step (Alive timer s) (lift timer (deliver i r s))"
| host_pull: "sys_step (Alive timer s) (Alive timer (pullWithArgs user pass orgName ps dest cont ival s))"
| host_push: "sys_step (Alive timer s) (Alive timer (pushWithArgs user pass orgName ps src upd e s))"

inductive reach :: "sys \<Rightarrow> bool" where
  start: "reach (runCommand (init_state a dsk))"
| module: "reach (Alive None (pullWithArgs user pass orgName ps dest cont ival (init_state a dsk)))"
| step: "reach x \<Longrightarrow> sys_step x y \<Longrightarrow> reach y"

inductive_cases sys_step_DeadE: "sys_step (Dead e) y"

inductive_simps sys_step_Dead [simp]: "sys_step (Dead e) y"

subsection \<open>What one step may do\<close>

text \<open>The data map either stays or takes one guarded upsert.\<close>

definition data_step :: "proxy_data \<Rightarrow> proxy_data \<Rightarrow> bool" where
  "data_step d d' = (d' = d \<or> (\<exists>n rv lm. shouldExport d n lm \<and> d' = recordSeen d n rv lm))"

text \<open>New deploy requests come only from the import callback of the same proxy and
  revision; a new pending import callback always goes with its request; the callbacks that
  start to wait are exactly those registered by the new effects, in order.\<close>

definition effects_ok :: "callback option \<Rightarrow> effect list \<Rightarrow> callback list \<Rightarrow> bool" where
  "effects_ok src ys zs =
     ((\<forall>q og n rv e. Request q (CbDeploy og n rv e) \<in> set ys \<longrightarrow> src = Some (CbImport og n rv)) \<and>
      (\<forall>og n rv. CbImport og n rv \<in> set zs \<longrightarrow> (\<exists>q. Request q (CbImport og n rv) \<in> set ys)) \<and>
      cbs_of ys = zs)"

definition grows :: "callback option \<Rightarrow> state \<Rightarrow> state \<Rightarrow> bool" where
  "grows src s s' =
     (\<exists>ys zs. trace s' = trace s @ ys \<and> pending s' = pending s @ zs \<and> effects_ok src ys zs \<and>
              data_step (data s) (data s'))"

section \<open>Invariants\<close>

definition deploys_after_imports :: "effect list \<Rightarrow> bool" where
  "deploys_after_imports tr =
     (\<forall>i < length tr. \<forall>q og n rv e. tr ! i = Request q (CbDeploy og n rv e) \<longrightarrow>
        (\<exists>j < i. \<exists>q'. tr ! j = Request q' (CbImport og n rv)))"

definition imports_issued :: "state \<Rightarrow> bool" where
  "imports_issued s =
     (\<forall>og n rv. CbImport og n rv \<in> set (pending s) \<longrightarrow> (\<exists>q. Request q (CbImport og n rv) \<in> set (trace s)))"

text \<open>Every waiting callback is backed by its own issued \<open>request\<close> or
  \<open>zipfolder\<close> call: the pending callbacks, counted with multiplicity, are among those
  the trace has registered.\<close>

definition pending_issued :: "state \<Rightarrow> bool" where
  "pending_issued s = (mset (pending s) \<subseteq># mset (cbs_of (trace s)))"

definition sys_inv :: "sys \<Rightarrow> bool" where
  "sys_inv x = (case x of Dead e \<Rightarrow> True
     | Alive t s \<Rightarrow> data_wf (data s) \<and> deploys_after_imports (trace s) \<and> imports_issued s \<and>
                     pending_issued s)"

section \<open>Lemmas\<close>

subsection \<open>Effects of the events\<close>

lemma data_step_refl [simp]: "data_step d d"
  by (simp add: data_step_def)

lemma effects_ok_Nil [simp]: "effects_ok src [] []"
  by (simp add: effects_ok_def)

lemma grows_refl [simp]: "grows src s s"
  by (auto simp: grows_def intro: exI [of _ "[]"])

lemma pullProxies_grows: "grows None s (pullProxies s)"
  by (auto simp: grows_def effects_ok_def)

lemma pull_grows: "grows None s (pull s)"
  by (auto simp: grows_def effects_ok_def pull_def getProxyList_def)

lemma pushProxies_effects_ok:
  "effects_ok None (concat (map (push_effects a) ns)) (concat (map (push_cbs a) ns))"
  unfolding effects_ok_def push_effects_def push_cbs_def by (auto simp: comp_def)

lemma grows_quiet:
  "trace s' = trace s \<Longrightarrow> pending s' = pending s \<Longrightarrow> data s' = data s \<Longrightarrow> grows src s s'"
  by (auto simp: grows_def effects_ok_def)

lemma data_step_recordSeen [simp]: "shouldExport d n lm \<Longrightarrow> data_step d (recordSeen d n rv lm)"
  by (auto simp: data_step_def)

lemma onPullApi_grows: "onPullApi og n r s = Inr s' \<Longrightarrow> grows (Some (CbPullApi og n)) s s'"
  by (auto simp: onPullApi_def grows_def effects_ok_def
           split: if_splits body.splits option.splits)

lemma onProxyList_grows: "onProxyList og r s = Inr s' \<Longrightarrow> grows (Some (CbProxyList og)) s s'"
  by (auto simp: onProxyList_def grows_def effects_ok_def split: if_splits body.splits)

lemma onPushApi_grows: "onPushApi og n r s = Inr s' \<Longrightarrow> grows (Some (CbPushApi og n)) s s'"
  by (auto simp: onPushApi_def grows_def effects_ok_def request_ops
           split: if_splits body.splits option.splits)

lemma onImport_grows: "onImport og n rv r s = Inr s' \<Longrightarrow> grows (Some (CbImport og n rv)) s s'"
  by (auto simp: handler_simps grows_def effects_ok_def)

lemma onExport_grows: "onExport og n rv dest r s = Inr s' \<Longrightarrow> grows (Some (CbExport og n rv dest)) s s'"
  by (auto simp: handler_simps grows_def effects_ok_def Let_def split: response.splits)

lemma onZip_grows: "onZip n src zp r s = Inr s' \<Longrightarrow> grows (Some (CbZip n src zp)) s s'"
  by (auto simp: handler_simps intro: grows_quiet split: response.splits)

lemma onUpdate_grows: "onUpdate og n rv r s = Inr s' \<Longrightarrow> grows (Some (CbUpdate og n rv)) s s'"
  by (auto simp: handler_simps intro: grows_quiet)

lemma onDeploy_grows: "onDeploy og n rv e r s = Inr s' \<Longrightarrow> grows (Some (CbDeploy og n rv e)) s s'"
  by (auto simp: handler_simps intro: grows_quiet)

lemma handle_grows: "handle cb r s = Inr s' \<Longrightarrow> grows (Some cb) s s'"
  by (cases cb)
     (simp_all add: onPullApi_grows onProxyList_grows onPushApi_grows onImport_grows onExport_grows
                    onZip_grows onUpdate_grows onDeploy_grows)

lemma grows_None_intro:
  "trace s' = trace s @ ys \<Longrightarrow> pending s' = pending s @ zs \<Longrightarrow> data s' = data s \<Longrightarrow>
   effects_ok None ys zs \<Longrightarrow> grows None s s'"
  by (auto simp: grows_def)

lemma grows_transfer:
  "grows src s s' \<Longrightarrow> trace s = trace t \<Longrightarrow> pending s = pending t \<Longrightarrow> data s = data t \<Longrightarrow>
   grows src t s'"
  by (simp add: grows_def)

lemma pushProxies_grows: "grows None s (pushProxies s)"
  by (rule grows_None_intro [OF pushProxies_fields(4) pushProxies_fields(3) pushProxies_fields(2)
                                pushProxies_effects_ok])

lemma push_grows:
  assumes h: "push s = Inr s'"
  shows "grows None s s'"
proof (cases "first_is_all (proxy (args s))")
  case True
  with h obtain dirs where s': "s' = pushProxies (s\<lparr>args := (args s)\<lparr>proxy := dirs\<rparr>\<rparr>)"
    by (auto simp: push_def split: sum.splits)
  have "grows None (s\<lparr>args := (args s)\<lparr>proxy := dirs\<rparr>\<rparr>) s'"
    unfolding s' by (rule pushProxies_grows)
  then show ?thesis by (rule grows_transfer) simp_all
next
  case False
  with h have "s' = pushProxies s" by (simp add: push_def)
  then show ?thesis by (simp add: pushProxies_grows)
qed

lemma host_grows:
  "grows None s (pullWithArgs user pass orgName ps dest cont ival s)"
  "grows None s (pushWithArgs user pass orgName ps src upd e s)"
  unfolding pullWithArgs_def pushWithArgs_def
  by (rule grows_transfer [OF pull_grows], simp_all)+

lemma deliver_grows:
  "deliver i r s = Inr s' \<Longrightarrow> grows (Some (pending s ! i)) (s\<lparr>pending := remove_at i (pending s)\<rparr>) s'"
  by (simp add: deliver_def handle_grows)

subsection \<open>Keeping the invariants\<close>

lemma data_step_wf: "data_wf d \<Longrightarrow> data_step d d' \<Longrightarrow> data_wf d'"
  by (auto simp: data_step_def observe_wf_step)

lemma data_step_mono:
  "data_step d d' \<Longrightarrow> d n = Some x \<Longrightarrow> \<exists>y. d' n = Some y \<and> lastModified x \<le> lastModified y"
  by (cases "d' = d")
     (auto simp: data_step_def shouldExport_def recordSeen_def split: option.splits)

lemma deploys_after_imports_append:
  assumes old: "deploys_after_imports xs"
    and new: "\<forall>q og n rv e. Request q (CbDeploy og n rv e) \<in> set ys \<longrightarrow>
                (\<exists>q'. Request q' (CbImport og n rv) \<in> set xs)"
  shows "deploys_after_imports (xs @ ys)"
  unfolding deploys_after_imports_def
proof (intro allI impI)
  fix i q og n rv e
  assume i: "i < length (xs @ ys)" and d: "(xs @ ys) ! i = Request q (CbDeploy og n rv e)"
  show "\<exists>j<i. \<exists>q'. (xs @ ys) ! j = Request q' (CbImport og n rv)"
  proof (cases "i < length xs")
    case True
    with d have "xs ! i = Request q (CbDeploy og n rv e)" by (simp add: nth_append)
    with True old obtain j q' where j: "j < i" and x: "xs ! j = Request q' (CbImport og n rv)"
      unfolding deploys_after_imports_def by blast
    from j True have "(xs @ ys) ! j = xs ! j" by (simp add: nth_append)
    with j x show ?thesis by metis
  next
    case False
    with i have k: "i - length xs < length ys" by simp
    from d False have "ys ! (i - length xs) = Request q (CbDeploy og n rv e)"
      by (simp add: nth_append)
    with nth_mem [OF k] have "Request q (CbDeploy og n rv e) \<in> set ys" by simp
    with new obtain q' j where j: "j < length xs" and x: "xs ! j = Request q' (CbImport og n rv)"
      by (meson in_set_conv_nth)
    from j have "(xs @ ys) ! j = xs ! j" by (simp add: nth_append)
    moreover from j False have "j < i" by simp
    ultimately show ?thesis using x by metis
  qed
qed

lemma grows_inv:
  assumes g: "grows src s1 s'" and t: "trace s1 = trace s" and d: "data s1 = data s"
    and pm: "mset (pending s1) \<subseteq># mset (pending s)"
    and src: "\<forall>cb. src = Some cb \<longrightarrow> cb \<in> set (pending s)"
    and inv: "data_wf (data s) \<and> deploys_after_imports (trace s) \<and> imports_issued s \<and> pending_issued s"
  shows "data_wf (data s') \<and> deploys_after_imports (trace s') \<and> imports_issued s' \<and> pending_issued s'"
proof -
  obtain ys zs where tr: "trace s' = trace s @ ys" and pe: "pending s' = pending s1 @ zs"
    and ok: "effects_ok src ys zs" and ds: "data_step (data s) (data s')"
    using g t d by (auto simp: grows_def)
  have p: "set (pending s1) \<subseteq> set (pending s)"
    using pm by (metis set_mset_mono set_mset_mset)
  have "data_wf (data s')" using inv ds by (blast intro: data_step_wf)
  moreover have "deploys_after_imports (trace s')"
    unfolding tr
  proof (rule deploys_after_imports_append)
    show "deploys_after_imports (trace s)" using inv by simp
    show "\<forall>q og n rv e. Request q (CbDeploy og n rv e) \<in> set ys \<longrightarrow>
            (\<exists>q'. Request q' (CbImport og n rv) \<in> set (trace s))"
    proof (intro allI impI)
      fix q og n rv e
      assume "Request q (CbDeploy og n rv e) \<in> set ys"
      with ok have "src = Some (CbImport og n rv)" unfolding effects_ok_def by blast
      with src have "CbImport og n rv \<in> set (pending s)" by simp
      with inv show "\<exists>q'. Request q' (CbImport og n rv) \<in> set (trace s)"
        by (simp add: imports_issued_def)
    qed
  qed
  moreover have "imports_issued s'"
    unfolding imports_issued_def
  proof (intro allI impI)
    fix og n rv
    assume "CbImport og n rv \<in> set (pending s')"
    then have "CbImport og n rv \<in> set (pending s1) \<or> CbImport og n rv \<in> set zs"
      by (simp add: pe)
    then show "\<exists>q. Request q (CbImport og n rv) \<in> set (trace s')"
    proof
      assume "CbImport og n rv \<in> set (pending s1)"
      with p have "CbImport og n rv \<in> set (pending s)" by blast
      with inv obtain q where "Request q (CbImport og n rv) \<in> set (trace s)"
        unfolding imports_issued_def by blast
      then show ?thesis by (auto simp: tr)
    next
      assume "CbImport og n rv \<in> set zs"
      with ok obtain q where "Request q (CbImport og n rv) \<in> set ys"
        unfolding effects_ok_def by blast
      then show ?thesis by (auto simp: tr)
    qed
  qed
  moreover have "pending_issued s'"
  proof -
    have "mset (pending s') = mset (pending s1) + mset (cbs_of ys)"
      using ok by (simp add: pe effects_ok_def)
    also have "\<dots> \<subseteq># mset (cbs_of (trace s)) + mset (cbs_of ys)"
      using subset_mset.order_trans [OF pm] inv
      by (simp add: pending_issued_def subset_mset.add_right_mono)
    finally show ?thesis by (simp add: pending_issued_def tr)
  qed
  ultimately show ?thesis by blast
qed

lemma sys_inv_Alive_grows:
  assumes g: "grows None s s'" and inv: "sys_inv (Alive t s)"
  shows "sys_inv (Alive t' s')"
proof -
  have "data_wf (data s') \<and> deploys_after_imports (trace s') \<and> imports_issued s' \<and> pending_issued s'"
    by (rule grows_inv [OF g]) (insert inv, simp_all add: sys_inv_def)
  then show ?thesis by (simp add: sys_inv_def)
qed

lemma init_state_inv [simp]: "sys_inv (Alive t (init_state a dsk))"
  by (simp add: sys_inv_def init_state_def data_wf_def deploys_after_imports_def imports_issued_def
                pending_issued_def)

lemma sys_step_inv: "sys_step x y \<Longrightarrow> sys_inv x \<Longrightarrow> sys_inv y"
proof (induction rule: sys_step.induct)
  case (tick s)
  then show ?case by (blast intro: sys_inv_Alive_grows pull_grows)
next
  case (callback i s timer r)
  show ?case
  proof (cases "deliver i r s")
    case (Inl e)
    then show ?thesis by (simp add: lift_def sys_inv_def)
  next
    case (Inr s')
    have "data_wf (data s') \<and> deploys_after_imports (trace s') \<and> imports_issued s' \<and> pending_issued s'"
    proof (rule grows_inv [OF deliver_grows [OF Inr]])
      show "mset (pending (s\<lparr>pending := remove_at i (pending s)\<rparr>)) \<subseteq># mset (pending s)"
        by (simp add: mset_remove_at_subseteq)
      show "\<forall>cb. Some (pending s ! i) = Some cb \<longrightarrow> cb \<in> set (pending s)"
        using callback.hyps by simp
      show "data_wf (data s) \<and> deploys_after_imports (trace s) \<and> imports_issued s \<and> pending_issued s"
        using callback.prems by (simp add: sys_inv_def)
    qed simp_all
    with Inr show ?thesis by (simp add: lift_def sys_inv_def)
  qed
next
  case host_pull
  then show ?case by (blast intro: sys_inv_Alive_grows host_grows)
next
  case host_push
  then show ?case by (blast intro: sys_inv_Alive_grows host_grows)
qed

lemma runCommand_inv: "sys_inv (runCommand (init_state a dsk))"
proof -
  have pull: "sys_inv (Alive t (pull (init_state a dsk)))" for t
    by (rule sys_inv_Alive_grows [OF pull_grows init_state_inv])
  have push: "sys_inv (lift None (push (init_state a dsk)))"
  proof (cases "push (init_state a dsk)")
    case (Inl e)
    then show ?thesis by (simp add: lift_def sys_inv_def)
  next
    case (Inr s')
    have "sys_inv (Alive None s')"
      by (rule sys_inv_Alive_grows [OF push_grows [OF Inr] init_state_inv])
    with Inr show ?thesis by (simp add: lift_def)
  qed
  have unknown: "sys_inv (Alive None (say m (init_state a dsk)))" for m
    by (rule sys_inv_Alive_grows [OF grows_quiet init_state_inv]) simp_all
  show ?thesis using pull push unknown by (simp add: runCommand_def)
qed

lemma reach_inv: "reach x \<Longrightarrow> sys_inv x"
proof (induction rule: reach.induct)
  case (start a dsk)
  then show ?case by (rule runCommand_inv)
next
  case (module user pass orgName ps dest cont ival a)
  then show ?case by (blast intro: sys_inv_Alive_grows host_grows init_state_inv)
next
  case (step x y)
  then show ?case by (blast intro: sys_step_inv)
qed

lemma grows_data_step: "grows src s s' \<Longrightarrow> data_step (data s) (data s')"
  by (auto simp: grows_def)

lemma sys_step_data_step:
  "sys_step x y \<Longrightarrow> x = Alive t s \<Longrightarrow> y = Alive t' s' \<Longrightarrow> data_step (data s) (data s')"
proof (induction rule: sys_step.induct)
  case (tick d s0)
  then show ?case using pull_grows [of s0] by (auto simp: grows_def)
next
  case (callback i s0 timer r)
  then have "deliver i r s0 = Inr s'" by (auto simp: lift_def split: sum.splits)
  then show ?case using deliver_grows [of i r s0 s'] callback.prems by (auto simp: grows_def)
next
  case host_pull
  then show ?case by (auto intro: grows_data_step host_grows)
next
  case host_push
  then show ?case by (auto intro: grows_data_step host_grows)
qed

lemma steps_data_mono:
  "sys_step\<^sup>*\<^sup>* x y \<Longrightarrow> x = Alive t s \<Longrightarrow> y = Alive t' s' \<Longrightarrow> data s n = Some r \<Longrightarrow>
   \<exists>r'. data s' n = Some r' \<and> lastModified r \<le> lastModified r'"
proof (induction arbitrary: t' s' rule: rtranclp_induct)
  case base
  then show ?case by auto
next
  case (step z y)
  obtain tz sz where z: "z = Alive tz sz"
    using step.hyps(2) by (cases z) simp_all
  from step.IH [OF step.prems(1) z step.prems(3)] obtain rz
    where rz: "data sz n = Some rz" "lastModified r \<le> lastModified rz" by blast
  from sys_step_data_step [OF step.hyps(2) z step.prems(2)] have "data_step (data sz) (data s')" .
  from data_step_mono [OF this rz(1)] rz(2) show ?case by fastforce
qed

subsection \<open>Building runs\<close>

lemma reach_callback:
  "reach (Alive t s) \<Longrightarrow> i < length (pending s) \<Longrightarrow> deliver i r s = Inr s' \<Longrightarrow> reach (Alive t s')"
  using reach.step [OF _ sys_step.callback [of i s t r]] by (simp add: lift_def)

lemma reach_tick: "reach (Alive (Some d) s) \<Longrightarrow> reach (Alive (Some d) (pull s))"
  by (blast intro: reach.step sys_step.tick)

lemma deliver_at:
  "deliver i r s = handle (pending s ! i) r (s\<lparr>pending := remove_at i (pending s)\<rparr>)"
  by (rule deliver_def)

lemmas run_simps = deliver_at remove_at_def request_ops onPullApi_def onPushApi_def handler_simps
  getMaxRevision_def js_reduce_def init_state_def demo_args_def

text \<open>A push of proxy \<open>p\<close> to environment \<open>prod\<close> whose lookup fails: the archive
  is still being written when the import reads it, and the import is then deployed.\<close>

lemma demo_push_run:
  fixes dsk :: disk
  defines "a \<equiv> (demo_args False (Some ''prod'') [''p''])\<lparr>command := Some ''push''\<rparr>"
  defines "s1 \<equiv> pushProxies (init_state a dsk)"
  defines "s2 \<equiv> importProxy ''acme'' ''p'' 1
                 (defaultLog (''Importing new proxy '' @ ''p'') (s1\<lparr>pending := [CbZip ''p'' ''./p'' ''./p.zip'']\<rparr>))"
  defines "s3 \<equiv> deployProxy ''acme'' ''p'' 1
                 (defaultLog (''Done importing proxy '' @ ''p'') (s2\<lparr>pending := [CbZip ''p'' ''./p'' ''./p.zip'']\<rparr>))"
  shows "reach (Alive None s2) \<and> reach (Alive None s3) \<and>
    pending s2 = [CbZip ''p'' ''./p'' ''./p.zip'', CbImport ''acme'' ''p'' 1] \<and>
    trace s3 = [RemoveDir (getProxyZipPath a ''p''),
                ZipFolder (getProxySourcePath a ''p'') (getProxyZipPath a ''p'') (CbZip ''p'' ''./p'' ''./p.zip''),
                Request (apiOptions a ''acme'' ''p'') (CbPushApi ''acme'' ''p''),
                Request (importOptions a ''acme'' ''p'') (CbImport ''acme'' ''p'' 1),
                Request (deployOptions a ''acme'' ''p'' 1 ''prod'') (CbDeploy ''acme'' ''p'' 1 ''prod'')]"
proof -
  have r1: "reach (Alive None s1)"
    using reach.start [of a dsk]
    by (simp add: runCommand_def push_def lift_def first_is_all_def a_def s1_def init_state_def demo_args_def)
  have p1: "pending s1 = [CbZip ''p'' ''./p'' ''./p.zip'', CbPushApi ''acme'' ''p'']"
    by (simp add: s1_def a_def init_state_def demo_args_def push_cbs_def getProxySourcePath_def getProxyZipPath_def)
  have r2: "reach (Alive None s2)"
    by (rule reach_callback [OF r1, of 1 "Reply 404 NotJson"]) (simp_all add: p1 run_simps s2_def)
  have p2: "pending s2 = [CbZip ''p'' ''./p'' ''./p.zip'', CbImport ''acme'' ''p'' 1]"
    by (simp add: s2_def importProxy_def)
  have r3: "reach (Alive None s3)"
    by (rule reach_callback [OF r2, of 1 "Reply 201 NotJson"]) (simp_all add: p2 run_simps s3_def)
  have "trace s3 = trace s1 @ [Request (importOptions a ''acme'' ''p'') (CbImport ''acme'' ''p'' 1),
                Request (deployOptions a ''acme'' ''p'' 1 ''prod'') (CbDeploy ''acme'' ''p'' 1 ''prod'')]"
    by (simp add: s3_def s2_def s1_def importProxy_def a_def demo_args_def init_state_def)
  moreover have "trace s1 = push_effects a ''p''"
    by (simp add: s1_def a_def init_state_def demo_args_def)
  ultimately show ?thesis using r2 r3 p2 by (simp add: push_effects_def a_def demo_args_def getProxySourcePath_def getProxyZipPath_def)
qed

lemma demo_pull_run:
  "\<exists>s. reach (Alive None s) \<and>
     data s ''p'' = Some \<lparr>proxyName = ''p'', lastRevision = 2, lastModified = 5\<rparr>"
proof -
  define s1 where "s1 = pull (init_state (demo_args False None [''p'']) [])"
  have r1: "reach (Alive None s1)"
    using reach.start [of "demo_args False None [''p'']" "[]"]
    by (simp add: runCommand_def init_state_def demo_args_def s1_def)
  have p1: "pending s1 = [CbPullApi ''acme'' ''p'']" and d1: "data s1 = Map.empty"
    by (simp_all add: s1_def pull_def first_is_all_def init_state_def demo_args_def)
  obtain s2 where d: "deliver 0 (Reply 200 (JsonMeta [1, 2] 5)) s1 = Inr s2"
    by (simp add: p1 d1 deliver_at remove_at_def onPullApi_def getMaxRevision_def js_reduce_def)
  have "reach (Alive None s2)" by (rule reach_callback [OF r1 _ d]) (simp add: p1)
  moreover have "data s2 ''p'' = Some \<lparr>proxyName = ''p'', lastRevision = 2, lastModified = 5\<rparr>"
    using d by (auto simp: p1 d1 deliver_at remove_at_def onPullApi_def getMaxRevision_def
                            js_reduce_def recordSeen_def)
  ultimately show ?thesis by blast
qed

lemma demo_update_run:
  fixes dsk :: disk
  defines "a \<equiv> (demo_args True None [''p''])\<lparr>command := Some ''push''\<rparr>"
  shows "reach (Alive None (updateProxy ''acme'' ''p'' 7
            (defaultLog (''Updating proxy '' @ ''p'' @ '' revision '' @ js_string_of_int 7)
              ((pushProxies (init_state a dsk))\<lparr>pending := [CbZip ''p'' ''./p'' ''./p.zip'']\<rparr>))))"
proof -
  define s1 where "s1 = pushProxies (init_state a dsk)"
  have r1: "reach (Alive None s1)"
    using reach.start [of a dsk]
    by (simp add: runCommand_def push_def lift_def first_is_all_def a_def s1_def init_state_def demo_args_def)
  have p1: "pending s1 = [CbZip ''p'' ''./p'' ''./p.zip'', CbPushApi ''acme'' ''p'']" and u1: "update (args s1)"
    by (simp_all add: s1_def a_def init_state_def demo_args_def push_cbs_def getProxySourcePath_def
                      getProxyZipPath_def)
  show ?thesis unfolding s1_def [symmetric]
    by (rule reach_callback [OF r1, of 1 "Reply 200 (JsonMeta [3, 7, 5] 0)"])
       (simp_all add: p1 u1 deliver_at remove_at_def onPushApi_def getMaxRevision_def js_reduce_def)
qed

lemma demo_poll_twice_run:
  fixes dsk :: disk
  defines "a \<equiv> (demo_args False None [''p''])\<lparr>continuous := True\<rparr>"
  defines "s1 \<equiv> pull (init_state a dsk)"
  defines "s2 \<equiv> exportProxy ''acme'' ''p'' 7
                 (defaultLog (''Exporting proxy '' @ ''p'' @ '' revision '' @ js_string_of_int 7)
                   ((s1\<lparr>pending := []\<rparr>)\<lparr>data := recordSeen (data s1) ''p'' 7 5\<rparr>))"
  defines "s3 \<equiv> (pull s2)\<lparr>pending := [CbExport ''acme'' ''p'' 7 ''./p'']\<rparr>"
  shows "reach (Alive (Some 30000) s3)"
proof -
  have r0: "reach (Alive (Some 30000) (init_state a dsk))"
    using reach.start [of a dsk]
    by (simp add: runCommand_def a_def init_state_def demo_args_def pollDelay_def timeout_max_def)
  have r1: "reach (Alive (Some 30000) s1)" unfolding s1_def by (rule reach_tick [OF r0])
  have p1: "pending s1 = [CbPullApi ''acme'' ''p'']" and d1: "data s1 = Map.empty"
    by (simp_all add: s1_def a_def pull_def first_is_all_def init_state_def demo_args_def)
  have r2: "reach (Alive (Some 30000) s2)"
    by (rule reach_callback [OF r1, of 0 "Reply 200 (JsonMeta [7] 5)"])
       (simp_all add: p1 d1 s2_def deliver_at remove_at_def onPullApi_def getMaxRevision_def js_reduce_def)
  have r2': "reach (Alive (Some 30000) (pull s2))" by (rule reach_tick [OF r2])
  have p2: "pending (pull s2) = [CbExport ''acme'' ''p'' 7 ''./p'', CbPullApi ''acme'' ''p'']"
    and d2: "data (pull s2) ''p'' = Some \<lparr>proxyName = ''p'', lastRevision = 7, lastModified = 5\<rparr>"
    by (simp_all add: s2_def s1_def a_def pull_def first_is_all_def init_state_def demo_args_def
                      getProxyDestinationPath_def)
  show ?thesis
    by (rule reach_callback [OF r2', of 1 "Reply 200 (JsonMeta [7] 5)"])
       (simp_all add: p2 d2 s3_def deliver_at remove_at_def onPullApi_def getMaxRevision_def
                      js_reduce_def shouldExport_def)
qed

section \<open>Properties of the running process\<close>

text \<open>C14. In every reachable state of the process, whatever the interleaving of ticks,
  responses and host calls, every deploy request in the trace is preceded by an import
  request for the same organisation, proxy and revision: deploy never runs before its
  upload, and never after an update.\<close>

theorem reach_deploy_after_import:
  assumes "reach (Alive t s)" and "i < length (trace s)"
    and "trace s ! i = Request q (CbDeploy og n rv e)"
  shows "\<exists>j<i. \<exists>q'. trace s ! j = Request q' (CbImport og n rv)"
  using reach_inv [OF assms(1)] assms(2,3)
  unfolding sys_inv_def deploys_after_imports_def by auto

theorem reach_deploy_after_import_witness:
  "\<exists>s. reach (Alive None s) \<and> 4 < length (trace s) \<and>
     (\<exists>q. trace s ! 4 = Request q (CbDeploy ''acme'' ''p'' 1 ''prod'')) \<and>
     (\<exists>j<4. \<exists>q'. trace s ! j = Request q' (CbImport ''acme'' ''p'' 1))"
proof -
  obtain s3 q where r: "reach (Alive None s3)" and l: "4 < length (trace s3)"
    and d: "trace s3 ! 4 = Request q (CbDeploy ''acme'' ''p'' 1 ''prod'')"
    using demo_push_run by fastforce
  from reach_deploy_after_import [OF r l d] r l d show ?thesis by blast
qed

text \<open>C15. No record of the Change Detector is ever garbled: in every reachable state the
  record stored under a proxy name carries that name.\<close>

theorem reach_record_wf:
  "reach (Alive t s) \<Longrightarrow> data s n = Some x \<Longrightarrow> proxyName x = n"
  using reach_inv [of "Alive t s"] by (auto simp: sys_inv_def data_wf_def)

theorem reach_record_wf_witness:
  "\<exists>s x. reach (Alive None s) \<and> data s ''p'' = Some x \<and> proxyName x = ''p''"
proof -
  obtain s where r: "reach (Alive None s)"
    and d: "data s ''p'' = Some \<lparr>proxyName = ''p'', lastRevision = 2, lastModified = 5\<rparr>"
    using demo_pull_run by blast
  from r d reach_record_wf [OF r d] show ?thesis by blast
qed

text \<open>C16. Along any run of the process, overlapping poll passes included, a stored record
  is never deleted and its \<open>lastModified\<close> never decreases (last writer wins only with
  a newer timestamp).\<close>

theorem steps_lastModified_mono:
  "sys_step\<^sup>*\<^sup>* (Alive t s) (Alive t' s') \<Longrightarrow> data s n = Some x \<Longrightarrow>
   \<exists>y. data s' n = Some y \<and> lastModified x \<le> lastModified y"
  by (rule steps_data_mono) auto

theorem steps_lastModified_mono_witness:
  "\<exists>s s' y. sys_step\<^sup>*\<^sup>* (Alive None s) (Alive None s') \<and>
     data s ''p'' = Some \<lparr>proxyName = ''p'', lastRevision = 1, lastModified = 3\<rparr> \<and>
     data s' ''p'' = Some y \<and> 3 \<le> lastModified y"
proof -
  let ?s = "(init_state (demo_args False None [''p'']) [])\<lparr>
              data := [''p'' \<mapsto> \<lparr>proxyName = ''p'', lastRevision = 1, lastModified = 3\<rparr>],
              pending := [CbPullApi ''acme'' ''p'']\<rparr>"
  obtain s' where d: "deliver 0 (Reply 200 (JsonMeta [2] 5)) ?s = Inr s'"
    by (simp add: run_simps shouldExport_def)
  have "sys_step (Alive None ?s) (Alive None s')"
    using sys_step.callback [of 0 ?s None "Reply 200 (JsonMeta [2] 5)"] d by (simp add: lift_def)
  then have st: "sys_step\<^sup>*\<^sup>* (Alive None ?s) (Alive None s')" by blast
  have dp: "data ?s ''p'' = Some \<lparr>proxyName = ''p'', lastRevision = 1, lastModified = 3\<rparr>" by simp
  from steps_lastModified_mono [OF st dp] st dp show ?thesis by fastforce
qed

text \<open>C17. With \<open>--continuous\<close>, \<open>runCommand\<close> only arms the timer: nothing is
  requested until the first interval has elapsed, whereas the spec has the poll loop fire
  immediately on start.\<close>

theorem runCommand_continuous_waits:
  "command (args s) = Some ''pull'' \<Longrightarrow> continuous (args s) \<Longrightarrow>
   runCommand s = Alive (Some (pollDelay (interval (args s)))) s"
  by (simp add: runCommand_def)

theorem runCommand_continuous_waits_witness:
  "runCommand (init_state ((demo_args False None [''all''])\<lparr>continuous := True\<rparr>) []) =
     Alive (Some 30000) (init_state ((demo_args False None [''all''])\<lparr>continuous := True\<rparr>) []) \<and>
   trace (init_state ((demo_args False None [''all''])\<lparr>continuous := True\<rparr>) []) = []"
  using runCommand_continuous_waits [of "init_state ((demo_args False None [''all''])\<lparr>continuous := True\<rparr>) []"]
  by (simp add: init_state_def demo_args_def pollDelay_def timeout_max_def)

text \<open>C18. Packaging and upload race: \<open>pushProxies\<close> removes the old archive and
  does not wait for \<open>zipfolder\<close>, so a reachable state has just issued the import
  request, whose form file is \<open>source/p.zip\<close>, while the archive's zip callback is
  still pending and no file exists at that path, although the source folder is there.\<close>

theorem zip_race_reachable:
  "\<exists>s. reach (Alive None s) \<and> CbZip ''p'' ''./p'' ''./p.zip'' \<in> set (pending s) \<and>
     last (trace s) = Request (importOptions (args s) ''acme'' ''p'') (CbImport ''acme'' ''p'' 1) \<and>
     formFile (importOptions (args s) ''acme'' ''p'') = Some ''./p.zip'' \<and>
     map_of (disk s) ''./p.zip'' = None \<and> map_of (disk s) ''./p/proxy.xml'' = Some (File (Raw ''v2''))"
proof -
  let ?a = "(demo_args False (Some ''prod'') [''p''])\<lparr>command := Some ''push''\<rparr>"
  let ?s1 = "pushProxies (init_state ?a push_disk)"
  let ?s2 = "importProxy ''acme'' ''p'' 1
               (defaultLog (''Importing new proxy '' @ ''p'') (?s1\<lparr>pending := [CbZip ''p'' ''./p'' ''./p.zip'']\<rparr>))"
  have "reach (Alive None ?s2)" and "pending ?s2 = [CbZip ''p'' ''./p'' ''./p.zip'', CbImport ''acme'' ''p'' 1]"
    using demo_push_run [of push_disk] by (simp_all only:)
  moreover have "last (trace ?s2) = Request (importOptions (args ?s2) ''acme'' ''p'') (CbImport ''acme'' ''p'' 1)"
    by (simp add: importProxy_def)
  moreover have "formFile (importOptions (args ?s2) ''acme'' ''p'') = Some ''./p.zip''"
    by (simp add: importProxy_def importOptions_def getProxyZipPath_def init_state_def demo_args_def)
  moreover have "map_of (disk ?s2) ''./p.zip'' = None \<and> map_of (disk ?s2) ''./p/proxy.xml'' = Some (File (Raw ''v2''))"
    by (simp add: importProxy_def init_state_def demo_args_def getProxyZipPath_def push_disk_def path_under_def)
  ultimately show ?thesis by fastforce
qed

text \<open>C19. The update callback issues nothing, for any response: a push with
  \<open>--update --env E\<close> never deploys, although the spec deploys after a successful
  upload of either kind.\<close>

theorem update_callback_never_deploys:
  "pending s ! i = CbUpdate og n rv \<Longrightarrow>
   \<exists>s'. deliver i r s = Inr s' \<and> trace s' = trace s \<and> pending s' = remove_at i (pending s) \<and>
     data s' = data s"
  by (simp add: deliver_at onUpdate_def)

theorem update_callback_never_deploys_witness:
  "\<exists>s'. deliver 0 (Reply 200 NotJson)
     ((init_state (demo_args True (Some ''prod'') [''p'']) [])\<lparr>pending := [CbUpdate ''acme'' ''p'' 7]\<rparr>) = Inr s' \<and>
   trace s' = [] \<and> pending s' = []"
  using update_callback_never_deploys [of "(init_state (demo_args True (Some ''prod'') [''p'']) [])\<lparr>pending := [CbUpdate ''acme'' ''p'' 7]\<rparr>" 0
      "''acme''" "''p''" 7 "Reply 200 NotJson"]
  by (simp add: remove_at_def init_state_def) blast

text \<open>C26. A push reads the source directory only for the sentinel \<open>all\<close>: then a
  source that is not a directory on the disk (\<open>readdirSync\<close> throws) ends the process
  before any request goes out; with named proxies the directory is never read.\<close>

theorem push_unreadable_source_dies:
  "command (args s) = Some ''push'' \<Longrightarrow> readdirSync (disk s) (source (args s)) = None \<Longrightarrow>
   runCommand s = (if first_is_all (proxy (args s)) then Dead FsError else Alive None (pushProxies s))"
  by (simp add: runCommand_def push_def getProxySourceDirs_def lift_def)

theorem push_unreadable_source_dies_witness:
  "runCommand (init_state ((demo_args False None [''all''])\<lparr>command := Some ''push''\<rparr>) []) = Dead FsError"
  using push_unreadable_source_dies [of "init_state ((demo_args False None [''all''])\<lparr>command := Some ''push''\<rparr>) []"]
  by (simp add: init_state_def first_is_all_def demo_args_def readdirSync_def)

text \<open>C29. Bounds of the poll timer: whatever \<open>--interval\<close> says, the delay Node uses
  is between 1 ms and \<open>2\<^sup>31 - 1\<close> ms, and it is the requested \<open>interval * 1000\<close>
  exactly when the interval is between 1 and 2147483 seconds; a zero, negative or larger
  interval polls every millisecond.\<close>

theorem pollDelay_bounds:
  "1 \<le> pollDelay ival \<and> pollDelay ival \<le> 2147483647 \<and>
   (pollDelay (Some i) = i * 1000 \<longleftrightarrow> 1 \<le> i \<and> i \<le> 2147483)"
proof -
  have a: "1 \<le> pollDelay ival \<and> pollDelay ival \<le> 2147483647"
    by (auto simp: pollDelay_def timeout_max_def split: option.splits)
  have b: "pollDelay (Some i) = i * 1000 \<longleftrightarrow> 1 \<le> i \<and> i \<le> 2147483"
    by (auto simp: pollDelay_def timeout_max_def)
  from a b show ?thesis by blast
qed

end
