(* ===== verification/CommandLine.thy ===== *)
theory CommandLine
  imports PollLoop
begin

text \<open>
  The command line of src/edgeci.js: \<open>parseArgs\<close>, \<open>addPullArgs\<close> and
  \<open>addPushArgs\<close> declare the options of the \<open>argparse\<close> parser, and \<open>execute\<close>
  parses \<open>process.argv\<close> and runs the command. The option tables below are the
  declarations of the source, field for field. The parser that reads them is the
  \<open>argparse\<close> library, modelled after its algorithm (\<open>_parse_optional\<close>,
  \<open>_get_option_tuples\<close>, \<open>consume_optional\<close>): a token is an option when it names
  one exactly, as \<open>--opt=value\<close>, as \<open>-ovalue\<close> or as the unique prefix of a long
  option; a negative number or a token with a space is a value; the subcommand takes every
  token after it. The separator \<open>--\<close> and clusters of short flags (\<open>-cu\<close>) are
  outside the model: the parser answers \<open>NotModelled\<close> for them.
\<close>

section \<open>Option declarations\<close>

datatype arg_value = VNull | VBool bool | VStr string | VList "string list" | VInt int

text \<open>\<open>storeTrue\<close>, \<open>store\<close>, \<open>store\<close> with \<open>nargs: '*'\<close>, \<open>store\<close> with
  \<open>type: 'int'\<close>, and the help and version actions the library adds.\<close>

datatype opt_action = StoreTrue | StoreValue | StoreValues | StoreInt | ShowHelp | ShowVersion

record opt_decl =
  optStrings :: "string list"
  optDest :: string
  optAction :: opt_action
  optRequired :: bool
  optDefault :: "arg_value option"

type_synonym namespace = "string \<rightharpoonup> arg_value"

text \<open>\<open>addHelp: true\<close>: \<open>-h, --help\<close> on every parser.\<close>

definition helpOption :: opt_decl where
  "helpOption = \<lparr>optStrings = [''-h'', ''--help''], optDest = ''help'', optAction = ShowHelp,
                 optRequired = False, optDefault = None\<rparr>"

text \<open>The main parser of \<open>parseArgs\<close>: \<open>version: '0.0.1'\<close> adds \<open>-v, --version\<close>;
  then the two \<open>addArgument\<close> calls.\<close>

definition versionOption :: opt_decl where
  "versionOption = \<lparr>optStrings = [''-v'', ''--version''], optDest = ''version'', optAction = ShowVersion,
                    optRequired = False, optDefault = None\<rparr>"

definition quiteOption :: opt_decl where
  "quiteOption = \<lparr>optStrings = [''-q'', ''--quite''], optDest = ''quite'', optAction = StoreTrue,
                  optRequired = False, optDefault = Some (VBool False)\<rparr>"

definition verboseOption :: opt_decl where
  "verboseOption = \<lparr>optStrings = [''-V'', ''--verbose''], optDest = ''verbose'', optAction = StoreTrue,
                    optRequired = False, optDefault = Some (VBool False)\<rparr>"

definition parserOptions :: "opt_decl list" where
  "parserOptions = [helpOption, versionOption, quiteOption, verboseOption]"

text \<open>The \<open>addArgument\<close> calls of \<open>addPullArgs\<close> and \<open>addPushArgs\<close>; the first two
  are the same in both (only their help texts differ).\<close>

definition orgOption :: opt_decl where
  "orgOption = \<lparr>optStrings = [''-o'', ''--org''], optDest = ''org'', optAction = StoreValue,
                optRequired = True, optDefault = Some VNull\<rparr>"

definition proxyOption :: opt_decl where
  "proxyOption = \<lparr>optStrings = [''-p'', ''--proxy''], optDest = ''proxy'', optAction = StoreValues,
                  optRequired = True, optDefault = Some VNull\<rparr>"

definition destinationOption :: opt_decl where
  "destinationOption = \<lparr>optStrings = [''-d'', ''--destination''], optDest = ''destination'',
                        optAction = StoreValue, optRequired = False, optDefault = Some (VStr ''.'')\<rparr>"

definition continuousOption :: opt_decl where
  "continuousOption = \<lparr>optStrings = [''-c'', ''--continuous''], optDest = ''continuous'',
                       optAction = StoreTrue, optRequired = False, optDefault = Some (VBool False)\<rparr>"

definition intervalOption :: opt_decl where
  "intervalOption = \<lparr>optStrings = [''-i'', ''--interval''], optDest = ''interval'', optAction = StoreInt,
                     optRequired = False, optDefault = Some (VInt 30)\<rparr>"

definition addPullArgs :: "opt_decl list" where
  "addPullArgs = [orgOption, proxyOption, destinationOption, continuousOption, intervalOption]"

definition sourceOption :: opt_decl where
  "sourceOption = \<lparr>optStrings = [''-s'', ''--source''], optDest = ''source'', optAction = StoreValue,
                   optRequired = False, optDefault = Some (VStr ''.'')\<rparr>"

definition updateOption :: opt_decl where
  "updateOption = \<lparr>optStrings = [''-u'', ''--update''], optDest = ''update'', optAction = StoreTrue,
                   optRequired = False, optDefault = Some (VBool False)\<rparr>"

definition envOption :: opt_decl where
  "envOption = \<lparr>optStrings = [''-e'', ''--env''], optDest = ''env'', optAction = StoreValue,
                optRequired = False, optDefault = Some VNull\<rparr>"

definition addPushArgs :: "opt_decl list" where
  "addPushArgs = [orgOption, proxyOption, sourceOption, updateOption, envOption]"

text \<open>\<open>subparsers.addParser('pull', {addHelp: true})\<close> and the same for push.\<close>

definition pullParser :: "opt_decl list" where
  "pullParser = helpOption # addPullArgs"

definition pushParser :: "opt_decl list" where
  "pushParser = helpOption # addPushArgs"

definition subcommand :: "string \<Rightarrow> opt_decl list option" where
  "subcommand name =
     (if name = ''pull'' then Some pullParser else if name = ''push'' then Some pushParser else None)"

section \<open>Reading a token\<close>

definition starts_with :: "string \<Rightarrow> string \<Rightarrow> bool" where
  "starts_with p str = (take (length p) str = p)"

text \<open>\<open>/^-\d+$|^-\d*\.\d+$/\<close>\<close>

definition negative_number :: "string \<Rightarrow> bool" where
  "negative_number str =
     (case str of [] \<Rightarrow> False
      | c # r \<Rightarrow> c = CHR ''-'' \<and>
          ((r \<noteq> [] \<and> list_all js_is_digit r) \<or>
           (case dropWhile js_is_digit r of [] \<Rightarrow> False
            | d # e \<Rightarrow> d = CHR ''.'' \<and> e \<noteq> [] \<and> list_all js_is_digit e)))"

definition find_option :: "opt_decl list \<Rightarrow> string \<Rightarrow> opt_decl option" where
  "find_option decls opt = find (\<lambda>d. opt \<in> set (optStrings d)) decls"

text \<open>\<open>_get_option_tuples\<close>: the options a token may abbreviate, each with the explicit
  argument it carries.\<close>

definition option_tuples :: "opt_decl list \<Rightarrow> string \<Rightarrow> (opt_decl \<times> string option) list" where
  "option_tuples decls tok =
     (if starts_with ''--'' tok then
        (let pre = takeWhile (\<lambda>c. c \<noteq> CHR ''='') tok;
             ex = (if CHR ''='' \<in> set tok then Some (tl (dropWhile (\<lambda>c. c \<noteq> CHR ''='') tok)) else None)
         in concat (map (\<lambda>d. map (\<lambda>opt. (d, ex)) (filter (starts_with pre) (optStrings d))) decls))
      else
        concat (map (\<lambda>d. map (\<lambda>opt. (d, if opt = take 2 tok then Some (drop 2 tok) else None))
                            (filter (\<lambda>opt. opt = take 2 tok \<or> starts_with tok opt) (optStrings d))) decls))"

datatype token = Positional | Optional opt_decl "string option" | Unknown | Ambiguous

text \<open>\<open>_parse_optional\<close>\<close>

definition classify :: "opt_decl list \<Rightarrow> string \<Rightarrow> token" where
  "classify decls tok =
     (if tok = [] \<or> hd tok \<noteq> CHR ''-'' then Positional
      else case find_option decls tok of
        Some d \<Rightarrow> Optional d None
      | None \<Rightarrow>
          if length tok = 1 then Positional
          else case (if CHR ''='' \<in> set tok then find_option decls (takeWhile (\<lambda>c. c \<noteq> CHR ''='') tok)
                     else None) of
            Some d \<Rightarrow> Optional d (Some (tl (dropWhile (\<lambda>c. c \<noteq> CHR ''='') tok)))
          | None \<Rightarrow>
              (case option_tuples decls tok of
                 [] \<Rightarrow> if negative_number tok \<or> CHR '' '' \<in> set tok then Positional else Unknown
               | [(d, ex)] \<Rightarrow> Optional d ex
               | _ \<Rightarrow> Ambiguous))"

section \<open>Parsing\<close>

datatype cli_exit = UsageError | HelpShown | VersionShown | NotModelled

definition defaults :: "opt_decl list \<Rightarrow> namespace" where
  "defaults decls = map_of (map (\<lambda>d. (optDest d, the (optDefault d))) (filter (\<lambda>d. optDefault d \<noteq> None) decls))"

text \<open>An option with no argument given an explicit one: an error for \<open>--flag=x\<close>, a
  cluster of short flags for \<open>-fx\<close>.\<close>

definition explicit_flag :: "string \<Rightarrow> cli_exit" where
  "explicit_flag tok = (if starts_with ''--'' tok then UsageError else NotModelled)"

text \<open>A required option that was not given (\<open>required: true\<close>).\<close>

definition missing_required :: "opt_decl list \<Rightarrow> string list \<Rightarrow> bool" where
  "missing_required decls seen = (\<exists>d \<in> set decls. optRequired d \<and> optDest d \<notin> set seen)"

text \<open>The options of one parser, token by token; \<open>seen\<close> are the destinations given,
  \<open>extra\<close> records a token no option took.\<close>

function consume :: "opt_decl list \<Rightarrow> string list \<Rightarrow> namespace \<Rightarrow> string list \<Rightarrow> bool \<Rightarrow> cli_exit + namespace" where
  "consume decls [] ns seen extra =
     (if extra \<or> missing_required decls seen then Inl UsageError else Inr ns)"
| "consume decls (tok # ts) ns seen extra =
     (case classify decls tok of
        Positional \<Rightarrow> consume decls ts ns seen True
      | Unknown \<Rightarrow> consume decls ts ns seen True
      | Ambiguous \<Rightarrow> Inl UsageError
      | Optional d ex \<Rightarrow>
          (case optAction d of
             ShowHelp \<Rightarrow> Inl (if ex = None then HelpShown else explicit_flag tok)
           | ShowVersion \<Rightarrow> Inl (if ex = None then VersionShown else explicit_flag tok)
           | StoreTrue \<Rightarrow>
               (case ex of None \<Rightarrow> consume decls ts (ns(optDest d \<mapsto> VBool True)) (optDest d # seen) extra
                | Some _ \<Rightarrow> Inl (explicit_flag tok))
           | StoreValue \<Rightarrow>
               (case ex of Some v \<Rightarrow> consume decls ts (ns(optDest d \<mapsto> VStr v)) (optDest d # seen) extra
                | None \<Rightarrow>
                    (case ts of [] \<Rightarrow> Inl UsageError
                     | v # ts' \<Rightarrow>
                         if classify decls v = Positional
                         then consume decls ts' (ns(optDest d \<mapsto> VStr v)) (optDest d # seen) extra
                         else Inl UsageError))
           | StoreInt \<Rightarrow>
               (case ex of Some v \<Rightarrow>
                   (case js_parseInt v of None \<Rightarrow> Inl UsageError
                    | Some i \<Rightarrow> consume decls ts (ns(optDest d \<mapsto> VInt i)) (optDest d # seen) extra)
                | None \<Rightarrow>
                    (case ts of [] \<Rightarrow> Inl UsageError
                     | v # ts' \<Rightarrow>
                         if classify decls v = Positional
                         then (case js_parseInt v of None \<Rightarrow> Inl UsageError
                               | Some i \<Rightarrow> consume decls ts' (ns(optDest d \<mapsto> VInt i)) (optDest d # seen) extra)
                         else Inl UsageError))
           | StoreValues \<Rightarrow>
               (case ex of Some v \<Rightarrow> consume decls ts (ns(optDest d \<mapsto> VList [v])) (optDest d # seen) extra
                | None \<Rightarrow>
                    consume decls (dropWhile (\<lambda>v. classify decls v = Positional) ts)
                      (ns(optDest d \<mapsto> VList (takeWhile (\<lambda>v. classify decls v = Positional) ts)))
                      (optDest d # seen) extra)))"
  by pat_completeness auto
termination
  by (relation "measure (\<lambda>(decls, ts, ns, seen, extra). length ts)")
     (auto simp: le_imp_less_Suc length_dropWhile_le)

text \<open>A subparser: \<open>_parse_optional\<close> first reads every token (an ambiguous
  abbreviation stops the parse there), then the tokens are consumed on top of the
  subparser's defaults.\<close>

definition subparse :: "opt_decl list \<Rightarrow> string list \<Rightarrow> namespace \<Rightarrow> bool \<Rightarrow> cli_exit + namespace" where
  "subparse decls ts ns extra =
     (if \<exists>t \<in> set ts. classify decls t = Ambiguous then Inl UsageError
      else case consume decls ts (defaults decls ++ ns) [] False of
        Inl e \<Rightarrow> Inl e
      | Inr ns' \<Rightarrow> if extra then Inl UsageError else Inr ns')"

text \<open>The main parser: its own flags, then the subcommand, which takes every token after
  it (\<open>nargs: PARSER\<close>); no subcommand is "too few arguments".\<close>

fun toplevel :: "string list \<Rightarrow> namespace \<Rightarrow> bool \<Rightarrow> cli_exit + namespace" where
  "toplevel [] ns extra = Inl UsageError"
| "toplevel (tok # ts) ns extra =
     (case classify parserOptions tok of
        Positional \<Rightarrow>
          (case subcommand tok of None \<Rightarrow> Inl UsageError
           | Some decls \<Rightarrow> subparse decls ts (ns(''command'' \<mapsto> VStr tok)) extra)
      | Unknown \<Rightarrow> toplevel ts ns True
      | Ambiguous \<Rightarrow> Inl UsageError
      | Optional d ex \<Rightarrow>
          (case optAction d of
             ShowHelp \<Rightarrow> Inl (if ex = None then HelpShown else explicit_flag tok)
           | ShowVersion \<Rightarrow> Inl (if ex = None then VersionShown else explicit_flag tok)
           | StoreTrue \<Rightarrow>
               (case ex of None \<Rightarrow> toplevel ts (ns(optDest d \<mapsto> VBool True)) extra
                | Some _ \<Rightarrow> Inl (explicit_flag tok))
           | _ \<Rightarrow> Inl UsageError))"

subsection \<open>From the namespace to \<open>args\<close>\<close>

text \<open>A property of the namespace as JavaScript reads it: an absent one is
  \<open>undefined\<close>, \<open>null\<close> prints as \<open>"null"\<close>.\<close>

definition ns_str :: "namespace \<Rightarrow> string \<Rightarrow> string" where
  "ns_str ns k = (case ns k of Some (VStr x) \<Rightarrow> x | Some VNull \<Rightarrow> ''null'' | _ \<Rightarrow> js_undefined)"

definition ns_opt_str :: "namespace \<Rightarrow> string \<Rightarrow> string option" where
  "ns_opt_str ns k = (case ns k of Some (VStr x) \<Rightarrow> Some x | _ \<Rightarrow> None)"

definition ns_bool :: "namespace \<Rightarrow> string \<Rightarrow> bool" where
  "ns_bool ns k = (case ns k of Some (VBool b) \<Rightarrow> b | _ \<Rightarrow> False)"

definition ns_list :: "namespace \<Rightarrow> string \<Rightarrow> string list" where
  "ns_list ns k = (case ns k of Some (VList xs) \<Rightarrow> xs | _ \<Rightarrow> [])"

definition ns_int :: "namespace \<Rightarrow> string \<Rightarrow> int option" where
  "ns_int ns k = (case ns k of Some (VInt i) \<Rightarrow> Some i | _ \<Rightarrow> None)"

definition args_of :: "namespace \<Rightarrow> string option \<Rightarrow> string option \<Rightarrow> args" where
  "args_of ns user pass =
     \<lparr>command = ns_opt_str ns ''command'', org = ns_str ns ''org'', proxy = ns_list ns ''proxy'',
      destination = ns_str ns ''destination'', source = ns_str ns ''source'',
      update = ns_bool ns ''update'', env = ns_opt_str ns ''env'',
      continuous = ns_bool ns ''continuous'', interval = ns_int ns ''interval'',
      username = js_str_opt user, password = js_str_opt pass,
      quite = ns_bool ns ''quite'', verbose = ns_bool ns ''verbose''\<rparr>"

text \<open>\<open>args = parser.parseArgs(); args.username = process.env.EDGE_USERNAME; \<dots>\<close>\<close>

definition parseArgs :: "string list \<Rightarrow> string option \<Rightarrow> string option \<Rightarrow> cli_exit + args" where
  "parseArgs argv user pass =
     (if ''--'' \<in> set argv then Inl NotModelled
      else if \<exists>t \<in> set argv. classify parserOptions t = Ambiguous then Inl UsageError
      else case toplevel argv (defaults parserOptions) False of
        Inl e \<Rightarrow> Inl e
      | Inr ns \<Rightarrow> Inr (args_of ns user pass))"

text \<open>\<open>execute()\<close>: parse, then \<open>runCommand()\<close> on fresh globals. A parse that ends in
  an exit (usage error, help, version) ends the process before anything runs.\<close>

definition execute ::
  "string list \<Rightarrow> string option \<Rightarrow> string option \<Rightarrow> disk \<Rightarrow> cli_exit + sys" where
  "execute argv user pass d =
     (case parseArgs argv user pass of
        Inl e \<Rightarrow> Inl e
      | Inr a \<Rightarrow> Inr (runCommand (init_state a d)))"


section \<open>Rendering a pull command line\<close>

text \<open>A token that does not start with a dash: \<open>argparse\<close> reads it as a value
  wherever it stands.\<close>

definition plain :: "string \<Rightarrow> bool" where
  "plain tok = (tok = [] \<or> hd tok \<noteq> CHR ''-'')"

definition pull_argv :: "org_name \<Rightarrow> proxy_name list \<Rightarrow> path \<Rightarrow> bool \<Rightarrow> int \<Rightarrow> string list" where
  "pull_argv orgName ps dest cont ival =
     [''pull'', ''--org'', orgName, ''--proxy''] @ ps @ [''--destination'', dest] @
     (if cont then [''--continuous''] else []) @ [''--interval'', js_string_of_int ival]"

text \<open>Option strings whose second character is not a digit: none of them can be read as
  the start of a negative number.\<close>

definition option_strings_ok :: "opt_decl list \<Rightarrow> bool" where
  "option_strings_ok decls =
     (\<forall>d\<in>set decls. \<forall>opt\<in>set (optStrings d). 2 \<le> length opt \<and> \<not> js_is_digit (opt ! 1))"

section \<open>Lemmas\<close>

lemma js_digits_is_digit: "c \<in> set (js_digits n) \<Longrightarrow> js_is_digit c"
  using js_digits_chars [of c n] by (simp add: js_is_digit_def)

lemma classify_plain: "tok = [] \<or> hd tok \<noteq> CHR ''-'' \<Longrightarrow> classify decls tok = Positional"
  by (auto simp: classify_def)

lemma classify_string_of_int:
  assumes ok: "option_strings_ok decls"
  shows "classify decls (js_string_of_int i) = Positional"
proof (cases "i < 0")
  case False
  obtain c cs where d: "js_digits (nat i) = c # cs"
    using js_digits_nonempty by (cases "js_digits (nat i)") auto
  have "c \<noteq> CHR ''-''" using js_digits_not_minus [OF d] .
  with False d show ?thesis by (simp add: js_string_of_int_def classify_plain)
next
  case True
  define ds where "ds = js_digits (nat (- i))"
  obtain c cs where d: "ds = c # cs"
    using js_digits_nonempty by (cases ds) (auto simp: ds_def)
  have dig: "\<forall>x\<in>set ds. js_is_digit x" by (auto simp: ds_def js_digits_is_digit)
  then have c: "js_is_digit c" by (simp add: d)
  have tok: "js_string_of_int i = CHR ''-'' # c # cs" using True by (simp add: js_string_of_int_def ds_def [symmetric] d)
  have od: "\<not> js_is_digit (opt ! 1)" if "opt \<in> set (optStrings dl)" "dl \<in> set decls" for opt dl
    using ok that unfolding option_strings_ok_def by blast
  have no: "opt \<noteq> CHR ''-'' # c # cs" if "opt \<in> set (optStrings dl)" "dl \<in> set decls" for opt dl
    using od [OF that] c by auto
  have nopre: "\<not> starts_with (CHR ''-'' # c # cs) opt" if "opt \<in> set (optStrings dl)" "dl \<in> set decls" for opt dl
  proof
    assume "starts_with (CHR ''-'' # c # cs) opt"
    then have "take (length (CHR ''-'' # c # cs)) opt = CHR ''-'' # c # cs" by (simp add: starts_with_def)
    then have "opt ! 1 = c" by (metis length_Cons nth_Cons_0 nth_Cons_Suc nth_take One_nat_def lessI Suc_less_eq zero_less_Suc)
    with od [OF that] c show False by simp
  qed
  have notake: "opt \<noteq> [CHR ''-'', c]" if "opt \<in> set (optStrings dl)" "dl \<in> set decls" for opt dl
    using od [OF that] c by auto
  have eq: "CHR ''='' \<notin> set (c # cs)" using dig d by (auto simp: js_is_digit_def)
  have dd: "c \<noteq> CHR ''-''" using c by (auto simp: js_is_digit_def)
  have "find_option decls (CHR ''-'' # c # cs) = None"
    using no by (auto simp: find_option_def find_None_iff)
  moreover have "option_tuples decls (CHR ''-'' # c # cs) = []"
    using nopre notake dd by (auto simp: option_tuples_def starts_with_def filter_empty_conv)
  moreover have "negative_number (CHR ''-'' # c # cs)"
    using dig d by (simp add: negative_number_def list_all_iff)
  ultimately show ?thesis using eq by (simp add: tok classify_def)
qed

lemmas option_defs = helpOption_def versionOption_def quiteOption_def verboseOption_def orgOption_def
  proxyOption_def destinationOption_def continuousOption_def intervalOption_def sourceOption_def
  updateOption_def envOption_def

lemmas parser_defs = parserOptions_def pullParser_def pushParser_def addPullArgs_def addPushArgs_def

lemma option_strings_ok_tables:
  "option_strings_ok parserOptions" "option_strings_ok pullParser" "option_strings_ok pushParser"
  by (simp_all add: option_strings_ok_def parser_defs option_defs js_is_digit_def)

lemma plain_classify: "plain tok \<Longrightarrow> classify decls tok = Positional"
  by (simp add: plain_def classify_plain)

lemma string_of_int_not_sep: "js_string_of_int i \<noteq> ''--''"
proof -
  obtain c cs where d: "js_digits (nat \<bar>i\<bar>) = c # cs"
    using js_digits_nonempty by (cases "js_digits (nat \<bar>i\<bar>)") auto
  have "c \<noteq> CHR ''-''" using js_digits_not_minus [OF d] .
  then show ?thesis using d by (auto simp: js_string_of_int_def)
qed

lemma top_classify_literals:
  "classify parserOptions ''pull'' = Positional"
  "classify parserOptions ''--org'' = Unknown"
  "classify parserOptions ''--proxy'' = Unknown"
  "classify parserOptions ''--destination'' = Unknown"
  "classify parserOptions ''--continuous'' = Unknown"
  "classify parserOptions ''--interval'' = Unknown"
  by (simp_all add: classify_def find_option_def parser_defs option_defs option_tuples_def
                    starts_with_def negative_number_def js_is_digit_def)

lemma pull_classify_literals:
  "classify pullParser ''--org'' = Optional orgOption None"
  "classify pullParser ''--proxy'' = Optional proxyOption None"
  "classify pullParser ''--destination'' = Optional destinationOption None"
  "classify pullParser ''--continuous'' = Optional continuousOption None"
  "classify pullParser ''--interval'' = Optional intervalOption None"
  by (simp_all add: classify_def find_option_def parser_defs option_defs)

lemma defaults_tables:
  "defaults parserOptions = [''quite'' \<mapsto> VBool False, ''verbose'' \<mapsto> VBool False]"
  "defaults pullParser = [''org'' \<mapsto> VNull, ''proxy'' \<mapsto> VNull, ''destination'' \<mapsto> VStr ''.'',
     ''continuous'' \<mapsto> VBool False, ''interval'' \<mapsto> VInt 30]"
  "defaults pushParser = [''org'' \<mapsto> VNull, ''proxy'' \<mapsto> VNull, ''source'' \<mapsto> VStr ''.'',
     ''update'' \<mapsto> VBool False, ''env'' \<mapsto> VNull]"
  by (simp_all add: defaults_def parser_defs option_defs fun_eq_iff)

lemma required_tables:
  "missing_required pullParser seen = (''org'' \<notin> set seen \<or> ''proxy'' \<notin> set seen)"
  "missing_required pushParser seen = (''org'' \<notin> set seen \<or> ''proxy'' \<notin> set seen)"
  by (auto simp: missing_required_def parser_defs option_defs)

lemma classify_Optional_in: "classify decls tok = Optional d ex \<Longrightarrow> d \<in> set decls"
proof -
  assume h: "classify decls tok = Optional d ex"
  have f: "find_option decls x = Some d' \<Longrightarrow> d' \<in> set decls" for x d'
    by (auto simp: find_option_def find_Some_iff)
  have t: "(d', ex') \<in> set (option_tuples decls tok) \<Longrightarrow> d' \<in> set decls" for d' ex'
    by (auto simp: option_tuples_def Let_def split: if_splits)
  show ?thesis using h f t
    by (auto simp: classify_def split: if_splits option.splits list.splits)
qed

lemma consume_keeps:
  "consume decls ts ns seen e = Inr ns' \<Longrightarrow> k \<notin> optDest ` set decls \<Longrightarrow> ns' k = ns k"
proof (induction decls ts ns seen e rule: consume.induct)
  case (1 decls ns seen extra)
  then show ?case by (simp split: if_splits)
next
  case (2 decls tok ts ns seen extra)
  show ?case
  proof (cases "classify decls tok")
    case (Optional d ex)
    then have "d \<in> set decls" by (rule classify_Optional_in)
    with "2.prems"(2) have k: "k \<noteq> optDest d" by auto
    show ?thesis
      using "2.prems" "2.IH" Optional k
      by (auto simp: fun_upd_def split: opt_action.splits option.splits list.splits if_splits)
  qed (use "2.prems" "2.IH" in auto)
qed


lemma command_not_dest:
  "''command'' \<notin> optDest ` set pullParser" "''command'' \<notin> optDest ` set pushParser"
  by (auto simp: parser_defs option_defs)

lemma subcommand_Some:
  "subcommand tok = Some decls \<Longrightarrow>
   (tok = ''pull'' \<and> decls = pullParser) \<or> (tok = ''push'' \<and> decls = pushParser)"
  by (auto simp: subcommand_def split: if_splits)

lemma subparse_keeps:
  assumes "subparse decls ts ns e = Inr ns'" and "k \<notin> optDest ` set decls" and "ns k = Some v"
  shows "ns' k = Some v"
proof -
  from assms(1) have "consume decls ts (defaults decls ++ ns) [] False = Inr ns'"
    by (auto simp: subparse_def split: if_splits sum.splits)
  from consume_keeps [OF this assms(2)] assms(3) show ?thesis by simp
qed

lemma toplevel_command:
  "toplevel ts ns e = Inr ns' \<Longrightarrow>
   ns' ''command'' = Some (VStr ''pull'') \<or> ns' ''command'' = Some (VStr ''push'')"
proof (induction ts ns e rule: toplevel.induct)
  case (1 ns extra)
  then show ?case by simp
next
  case (2 tok ts ns extra)
  show ?case
  proof (cases "classify parserOptions tok")
    case Positional
    with "2.prems" obtain decls where sc: "subcommand tok = Some decls"
      and sp: "subparse decls ts (ns(''command'' \<mapsto> VStr tok)) extra = Inr ns'"
      by (auto split: option.splits)
    from subcommand_Some [OF sc] show ?thesis
      using subparse_keeps [OF sp, of "''command''" "VStr tok"] command_not_dest by auto
  qed (use "2.prems" "2.IH" in \<open>auto simp: fun_upd_def split: opt_action.splits option.splits if_splits\<close>)
qed

lemma subparse_extra: "subparse decls ts ns True \<noteq> Inr ns'"
  by (auto simp: subparse_def split: sum.splits)

lemma toplevel_extra: "toplevel ts ns True \<noteq> Inr ns'"
proof (induction ts arbitrary: ns)
  case Nil
  then show ?case by simp
next
  case (Cons tok ts)
  then show ?case
    by (auto simp: subparse_extra split: token.splits opt_action.splits option.splits)
qed

lemma top_classify_quiet: "classify parserOptions ''--quiet'' = Unknown"
  by (simp add: classify_def find_option_def parser_defs option_defs option_tuples_def
                starts_with_def negative_number_def js_is_digit_def)

lemma pull_classify_proxy_tail:
  "\<forall>p\<in>set ps. plain p \<Longrightarrow> takeWhile (\<lambda>v. classify pullParser v = Positional) ps = ps \<and>
     dropWhile (\<lambda>v. classify pullParser v = Positional) ps = []"
  by (simp add: plain_classify)

lemmas cli_eval = execute_def parseArgs_def subparse_def subcommand_def parser_defs option_defs
  classify_def find_option_def option_tuples_def starts_with_def negative_number_def js_is_digit_def
  defaults_def missing_required_def args_of_def ns_str_def ns_opt_str_def ns_bool_def ns_list_def
  ns_int_def js_parseInt_def js_space_def js_parse_nat_def

text \<open>C31. Command line roundtrip: a pull command line rendered from an organisation,
  a list of proxies, a destination, the continuous flag and an interval (negative ones
  included) parses back to exactly those settings, with the other fields as JavaScript
  sees them unset. In particular \<open>--proxy a,b\<close> is the one proxy \<open>a,b\<close>: names are
  separated by spaces, not by the commas of the spec.\<close>

theorem parseArgs_pull_roundtrip:
  assumes o: "plain orgName" and ps: "\<forall>p\<in>set ps. plain p" and d: "plain dest"
  shows "parseArgs (pull_argv orgName ps dest cont ival) user pass =
     Inr \<lparr>command = Some ''pull'', org = orgName, proxy = ps, destination = dest, source = js_undefined,
          update = False, env = None, continuous = cont, interval = Some ival,
          username = js_str_opt user, password = js_str_opt pass, quite = False, verbose = False\<rparr>"
proof -
  have sep: "''--'' \<notin> set (pull_argv orgName ps dest cont ival)"
    using o ps d string_of_int_not_sep [of ival] by (auto simp: pull_argv_def plain_def)
  have num: "classify decls (js_string_of_int ival) = Positional" if "option_strings_ok decls" for decls
    using that by (rule classify_string_of_int)
  have amb: "\<forall>t\<in>set (pull_argv orgName ps dest cont ival). classify parserOptions t \<noteq> Ambiguous"
    using o ps d num [OF option_strings_ok_tables(1)]
    by (auto simp: pull_argv_def top_classify_literals plain_classify)
  have tw: "takeWhile (\<lambda>v. classify pullParser v = Positional) (ps @ ''--destination'' # rest) = ps"
    and dw: "dropWhile (\<lambda>v. classify pullParser v = Positional) (ps @ ''--destination'' # rest) =
             ''--destination'' # rest" for rest
    using ps by (simp_all add: takeWhile_append2 dropWhile_append2 plain_classify pull_classify_literals)
  show ?thesis
    using sep amb o d ps num [OF option_strings_ok_tables(2)]
    by (cases cont)
       (simp_all add: parseArgs_def pull_argv_def subparse_def subcommand_def top_classify_literals
          pull_classify_literals plain_classify tw dw js_parseInt_string_of_int args_of_def
          ns_str_def ns_opt_str_def ns_bool_def ns_list_def ns_int_def defaults_tables required_tables
          option_defs)
qed

theorem parseArgs_pull_roundtrip_witness:
  "parseArgs (pull_argv ''acme'' [''a,b''] ''out'' True (- 5)) None None =
     Inr \<lparr>command = Some ''pull'', org = ''acme'', proxy = [''a,b''], destination = ''out'',
          source = js_undefined, update = False, env = None, continuous = True, interval = Some (- 5),
          username = js_undefined, password = js_undefined, quite = False, verbose = False\<rparr>"
  using parseArgs_pull_roundtrip [of "''acme''" "[''a,b'']" "''out''" True "- 5" None None]
  by (simp add: plain_def js_str_opt_def)

text \<open>C32. \<open>--org\<close> is required: a pull command line that names proxies but no
  organisation is a usage error, and nothing runs.\<close>

theorem parseArgs_requires_org:
  assumes ps: "\<forall>p\<in>set ps. plain p"
  shows "parseArgs (''pull'' # ''--proxy'' # ps) user pass = Inl UsageError"
proof -
  have top: "\<forall>t\<in>set ps. classify parserOptions t = Positional"
    and sub: "\<forall>t\<in>set ps. classify pullParser t = Positional"
    using ps by (simp_all add: plain_classify)
  have sep: "''--'' \<notin> set ps" using ps by (auto simp: plain_def)
  show ?thesis
    using top sub sep
    by (simp add: pull_classify_proxy_tail [OF ps] parseArgs_def subparse_def subcommand_def top_classify_literals pull_classify_literals
                  required_tables option_defs)
qed

theorem parseArgs_requires_org_witness:
  "parseArgs [''pull'', ''--proxy'', ''a'', ''b''] None None = Inl UsageError"
  using parseArgs_requires_org [of "[''a'', ''b'']" None None] by (simp add: plain_def)

text \<open>C33. The spec's global flag \<open>--quiet\<close> is not accepted: the code declares it as
  \<open>--quite\<close>, \<open>--quiet\<close> is no abbreviation of it, so any command line starting with
  \<open>--quiet\<close> fails to parse.\<close>

theorem quiet_flag_rejected: "parseArgs (''--quiet'' # rest) user pass \<noteq> Inr a"
  by (auto simp: parseArgs_def top_classify_quiet toplevel_extra split: sum.splits)


end
