(* ===== verification/Quiescence.thy ===== *)
theory Quiescence
  imports PollLoop
begin

text \<open>
  The callback cascade of one pass ends. A response runs one pending callback, which may
  register new ones: the listing callback registers one metadata callback per proxy, the
  metadata callbacks an export, import or update callback, the import callback a deploy
  callback; export, update, deploy and zip callbacks register nothing. Ranking the callbacks
  by how deep a chain they can start, every delivery replaces one pending callback by finitely
  many of smaller rank, so the multiset of ranks decreases in the multiset order
  (\<open>mult\<close>), which is well founded. Hence, leaving out timer ticks and host calls, no
  run of deliveries is infinite, whatever the responses.
\<close>

section \<open>Deliveries only\<close>

text \<open>The steps of a process that has no timer armed and receives no host call: the event
  loop runs pending callbacks, in any order, with any response.\<close>

inductive cb_step :: "sys \<Rightarrow> sys \<Rightarrow> bool" where
  deliver: "i < length (pending s) \<Longrightarrow> cb_step (Alive t s) (lift t (deliver i r s))"

fun rank :: "callback \<Rightarrow> nat" where
  "rank (CbProxyList og) = 2"
| "rank (CbPullApi og n) = 1"
| "rank (CbExport og n rv d) = 0"
| "rank (CbPushApi og n) = 2"
| "rank (CbImport og n rv) = 1"
| "rank (CbUpdate og n rv) = 0"
| "rank (CbDeploy og n rv e) = 0"
| "rank (CbZip n src zp) = 0"

definition weight :: "sys \<Rightarrow> nat multiset" where
  "weight x = (case x of Dead e \<Rightarrow> {#} | Alive t s \<Rightarrow> mset (map rank (pending s)))"

section \<open>Lemmas\<close>

lemma handle_spawns_lower:
  "handle cb r s = Inr s' \<Longrightarrow> \<exists>zs. pending s' = pending s @ zs \<and> (\<forall>z\<in>set zs. rank z < rank cb)"
  by (cases cb)
     (auto simp: onPullApi_def onProxyList_def onPushApi_def handler_simps request_ops Let_def
           split: if_splits body.splits option.splits response.splits)

lemma cb_step_Alive_Inr:
  "i < length (pending s) \<Longrightarrow> deliver i r s = Inr s' \<Longrightarrow>
   (mset (map rank (pending s')), mset (map rank (pending s))) \<in> mult {(a, b). a < b}"
proof -
  assume i: "i < length (pending s)" and d: "deliver i r s = Inr s'"
  obtain zs where p: "pending s' = remove_at i (pending s) @ zs"
    and lt: "\<forall>z\<in>set zs. rank z < rank (pending s ! i)"
    using handle_spawns_lower [OF d [unfolded deliver_def]] by auto
  have old: "mset (map rank (pending s)) =
             mset (map rank (remove_at i (pending s))) + {#rank (pending s ! i)#}"
    using mset_remove_at [OF i] by (simp add: mset_map)
  have new: "mset (map rank (pending s')) = mset (map rank (remove_at i (pending s))) + mset (map rank zs)"
    by (simp add: p)
  have "(mset (map rank (remove_at i (pending s))) + mset (map rank zs),
         mset (map rank (remove_at i (pending s))) + {#rank (pending s ! i)#}) \<in> mult {(a, b). a < b}"
    by (rule one_step_implies_mult) (use lt in auto)
  then show ?thesis by (simp only: old new)
qed

lemma cb_step_weight: "cb_step x y \<Longrightarrow> (weight y, weight x) \<in> mult {(a, b). a < b}"
proof (induction rule: cb_step.induct)
  case (deliver i s t r)
  show ?case
  proof (cases "deliver i r s")
    case (Inl e)
    have "pending s \<noteq> []" using deliver.hyps by auto
    then have "({#} + {#}, {#} + mset (map rank (pending s))) \<in> mult {(a, b). a < b}"
      by (intro one_step_implies_mult) auto
    with Inl show ?thesis by (simp add: weight_def lift_def)
  next
    case (Inr s')
    with cb_step_Alive_Inr [OF deliver.hyps Inr] show ?thesis by (simp add: weight_def lift_def)
  qed
qed

lemma wf_cb_step: "wf {(y, x). cb_step x y}"
proof (rule wf_subset)
  show "wf (inv_image (mult {(a, b). (a::nat) < b}) weight)"
    by (intro wf_inv_image wf_mult) (simp add: wf_less)
  show "{(y, x). cb_step x y} \<subseteq> inv_image (mult {(a, b). a < b}) weight"
    by (auto dest: cb_step_weight)
qed

section \<open>Properties\<close>

text \<open>C27. Termination of the event loop without timer: there is no infinite run of
  deliveries, whatever the order in which responses arrive and whatever they contain.\<close>

theorem callbacks_terminate: "\<not> (\<exists>f. \<forall>i. cb_step (f i) (f (Suc i)))"
proof -
  have "\<not> (\<exists>f. \<forall>i. (f (Suc i), f i) \<in> {(y, x). cb_step x y})"
    using wf_cb_step by (simp add: wf_iff_no_infinite_down_chain)
  then show ?thesis by simp
qed

theorem callbacks_terminate_witness:
  "\<not> (\<exists>f. f 0 = Alive None (pull (init_state (demo_args False None [''p1'', ''p2'']) [])) \<and>
        (\<forall>i. cb_step (f i) (f (Suc i))))"
  using callbacks_terminate by blast


end
