(* ===== verification/Interleaving.thy ===== *)
theory Interleaving
  imports PollLoop
begin

text \<open>
  Interleavings of the event loop. The spec lets the pipelines of different proxies complete
  in any order; the metadata callback of a pull only reads the global \<open>args\<close> and its
  own entry of \<open>data\<close>, and only writes that entry and appends to the outside world, so
  two such callbacks for different proxies commute. The module entry points, on the other
  hand, overwrite the global \<open>args\<close> that every waiting callback reads.
\<close>

section \<open>A callback seen on one proxy\<close>

text \<open>The part of the state the metadata callback of proxy \<open>n\<close> reads, and the way its
  result is put back: the entry of \<open>n\<close> replaced, the effects, callbacks and console
  lines appended, and the directories it removed removed from the disk.\<close>

definition local_state :: "proxy_name \<Rightarrow> state \<Rightarrow> state" where
  "local_state n s =
     \<lparr>args = args s, data = Map.empty(n := data s n), pending = [], trace = [], console = [], disk = []\<rparr>"

definition apply_local :: "proxy_name \<Rightarrow> state \<Rightarrow> state \<Rightarrow> state" where
  "apply_local n c s =
     s\<lparr>data := (data s)(n := data c n), trace := trace s @ trace c, pending := pending s @ pending c,
       console := console s @ console c,
       disk := filter (\<lambda>e. \<forall>p\<in>set (removed (trace c)). \<not> path_under p (fst e)) (disk s)\<rparr>"

section \<open>Lemmas\<close>

text \<open>The metadata callback acts locally.\<close>

lemma onPullApi_local:
  "onPullApi og n r s = map_sum id (\<lambda>c. apply_local n c s) (onPullApi og n r (local_state n s))"
  by (auto simp: onPullApi_def apply_local_def local_state_def shouldExport_def recordSeen_def
                 exportProxy_def Let_def defaultLog_def say_def logError_def request_def pend_def emit_def
                 rimraf_def
           split: if_splits body.splits option.splits)


lemma local_state_simps [simp]:
  "local_state n (s\<lparr>pending := ps\<rparr>) = local_state n s"
  "m \<noteq> n \<Longrightarrow> local_state n (apply_local m c s) = local_state n s"
  by (simp_all add: local_state_def apply_local_def)

lemma apply_local_fields [simp]:
  "args (apply_local n c s) = args s"
  "data (apply_local n c s) = (data s)(n := data c n)"
  "pending (apply_local n c s) = pending s @ pending c"
  "trace (apply_local n c s) = trace s @ trace c"
  "console (apply_local n c s) = console s @ console c"
  "disk (apply_local n c s) = filter (\<lambda>e. \<forall>p\<in>set (removed (trace c)). \<not> path_under p (fst e)) (disk s)"
  by (simp_all add: apply_local_def)

lemma deliver_pull_local:
  "pending s ! i = CbPullApi og n \<Longrightarrow>
   deliver i r s = map_sum id (\<lambda>c. apply_local n c (s\<lparr>pending := remove_at i (pending s)\<rparr>))
                     (onPullApi og n r (local_state n s))"
proof -
  assume "pending s ! i = CbPullApi og n"
  then have "deliver i r s = onPullApi og n r (s\<lparr>pending := remove_at i (pending s)\<rparr>)"
    by (simp add: deliver_def)
  also have "\<dots> = map_sum id (\<lambda>c. apply_local n c (s\<lparr>pending := remove_at i (pending s)\<rparr>))
                     (onPullApi og n r (local_state n (s\<lparr>pending := remove_at i (pending s)\<rparr>)))"
    by (rule onPullApi_local)
  finally show ?thesis by simp
qed

lemma deliver_pull_InrE:
  assumes "pending s ! i = CbPullApi og n" and "deliver i r s = Inr s'"
  obtains c where "onPullApi og n r (local_state n s) = Inr c"
    and "s' = apply_local n c (s\<lparr>pending := remove_at i (pending s)\<rparr>)"
  using assms by (cases "onPullApi og n r (local_state n s)") (auto simp: deliver_pull_local)

section \<open>Properties\<close>

text \<open>C28. Equivalence of interleavings: two waiting metadata callbacks of a pull for
  different proxies can be delivered in either order. If one order succeeds, so does the
  other, and both end with the same arguments, stored records and disk, and the same
  pending callbacks, effects and console lines up to their order.\<close>

theorem pull_callbacks_commute:
  assumes ij: "i < j" "j < length (pending s)"
    and cbs: "pending s ! i = CbPullApi og1 n1" "pending s ! j = CbPullApi og2 n2" and ne: "n1 \<noteq> n2"
    and h1: "deliver i r1 s = Inr s1" and h12: "deliver (j - 1) r2 s1 = Inr s12"
  shows "\<exists>s2 s21. deliver j r2 s = Inr s2 \<and> deliver i r1 s2 = Inr s21 \<and>
           args s21 = args s12 \<and> data s21 = data s12 \<and> mset (pending s21) = mset (pending s12) \<and>
           mset (trace s21) = mset (trace s12) \<and> mset (console s21) = mset (console s12) \<and>
           disk s21 = disk s12"
proof -
  let ?p = "pending s"
  obtain c1 where c1: "onPullApi og1 n1 r1 (local_state n1 s) = Inr c1"
    and s1: "s1 = apply_local n1 c1 (s\<lparr>pending := remove_at i ?p\<rparr>)"
    using deliver_pull_InrE [OF cbs(1) h1] .
  have lj: "j - 1 < length (remove_at i ?p)" using ij by simp
  have at1: "pending s1 ! (j - 1) = CbPullApi og2 n2"
  proof -
    have "pending s1 ! (j - 1) = remove_at i ?p ! (j - 1)"
      using lj by (simp add: s1 nth_append)
    also have "\<dots> = ?p ! j" by (rule nth_remove_at_after [OF ij])
    finally show ?thesis using cbs(2) by simp
  qed
  obtain c2 where c2': "onPullApi og2 n2 r2 (local_state n2 s1) = Inr c2"
    and s12: "s12 = apply_local n2 c2 (s1\<lparr>pending := remove_at (j - 1) (pending s1)\<rparr>)"
    using deliver_pull_InrE [OF at1 h12] .
  have c2: "onPullApi og2 n2 r2 (local_state n2 s) = Inr c2"
    using c2' ne by (simp add: s1)
  define s2 where "s2 = apply_local n2 c2 (s\<lparr>pending := remove_at j ?p\<rparr>)"
  define s21 where "s21 = apply_local n1 c1 (s2\<lparr>pending := remove_at i (pending s2)\<rparr>)"
  have d2: "deliver j r2 s = Inr s2"
    using cbs(2) c2 by (simp add: deliver_pull_local s2_def)
  have at2: "pending s2 ! i = CbPullApi og1 n1"
  proof -
    have "i < length (remove_at j ?p)" using ij by simp
    then have "pending s2 ! i = remove_at j ?p ! i" by (simp add: s2_def nth_append)
    also have "\<dots> = ?p ! i" by (rule nth_remove_at_before [OF ij])
    finally show ?thesis using cbs(1) by simp
  qed
  have d21: "deliver i r1 s2 = Inr s21"
    using at2 c1 ne by (simp add: deliver_pull_local s21_def s2_def)
  have li: "i < length (remove_at j ?p)" using ij by simp
  have sw: "remove_at (j - 1) (remove_at i ?p) = remove_at i (remove_at j ?p)"
    by (rule remove_at_swap [OF ij])
  have "pending s12 = remove_at i (remove_at j ?p) @ pending c1 @ pending c2"
    using lj sw by (simp add: s12 s1 remove_at_append_before)
  moreover have "pending s21 = remove_at i (remove_at j ?p) @ pending c2 @ pending c1"
    using li by (simp add: s21_def s2_def remove_at_append_before)
  moreover have "data s21 = data s12"
    using ne by (simp add: s21_def s2_def s12 s1 fun_upd_twist)
  moreover have "trace s21 = trace s @ trace c2 @ trace c1" and "trace s12 = trace s @ trace c1 @ trace c2"
    and "console s21 = console s @ console c2 @ console c1" and "console s12 = console s @ console c1 @ console c2"
    and "args s21 = args s12"
    by (simp_all add: s21_def s2_def s12 s1)
  moreover have "disk s21 = disk s12"
    by (simp add: s21_def s2_def s12 s1 conj_commute)
  ultimately show ?thesis
    using d2 d21 by (auto simp: union_ac)
qed


theorem pull_callbacks_commute_witness:
  "\<exists>s1 s12 s2 s21.
     deliver 0 (Reply 200 (JsonMeta [1] 5)) (pull (init_state (demo_args False None [''p1'', ''p2'']) [])) = Inr s1 \<and>
     deliver 0 (Reply 200 (JsonMeta [2] 6)) s1 = Inr s12 \<and>
     deliver 1 (Reply 200 (JsonMeta [2] 6)) (pull (init_state (demo_args False None [''p1'', ''p2'']) [])) = Inr s2 \<and>
     deliver 0 (Reply 200 (JsonMeta [1] 5)) s2 = Inr s21 \<and>
     data s21 = data s12 \<and> mset (trace s21) = mset (trace s12) \<and> disk s21 = disk s12"
proof -
  let ?s = "pull (init_state (demo_args False None [''p1'', ''p2'']) [])"
  have p: "pending ?s = [CbPullApi ''acme'' ''p1'', CbPullApi ''acme'' ''p2'']"
    by (simp add: pull_def first_is_all_def init_state_def demo_args_def)
  have d: "data ?s = Map.empty" by (simp add: pull_def first_is_all_def init_state_def demo_args_def)
  obtain s1 where h1: "deliver 0 (Reply 200 (JsonMeta [1] 5)) ?s = Inr s1"
    by (simp add: deliver_def p d onPullApi_def getMaxRevision_def js_reduce_def)
  have p1: "pending s1 ! 0 = CbPullApi ''acme'' ''p2''"
    using h1 by (auto simp: deliver_def p remove_at_def onPullApi_def getMaxRevision_def js_reduce_def
                      split: if_splits)
  obtain s12 where h12: "deliver (1 - 1) (Reply 200 (JsonMeta [2] 6)) s1 = Inr s12"
    by (cases "shouldExport (data s1) ''p2'' 6")
       (simp_all add: deliver_def p1 onPullApi_def getMaxRevision_def js_reduce_def)
  from pull_callbacks_commute [of 0 1 ?s "''acme''" "''p1''" "''acme''" "''p2''", OF _ _ _ _ _ h1 h12]
  show ?thesis using h1 h12 p by auto
qed

text \<open>C30. The module entry points share one global \<open>args\<close>: when a second
  \<open>pullWithArgs\<close> call comes while a metadata callback of the first is still waiting,
  that callback exports into the destination, and with the credentials, of the second
  call.\<close>

theorem module_calls_share_args:
  assumes sA: "sA = pullWithArgs userA passA og [n] destA contA ivalA s"
    and sB: "sB = pullWithArgs userB passB orgB psB destB contB ivalB sA"
    and n: "n \<noteq> ''all''" and psB: "\<not> first_is_all psB"
    and fresh: "shouldExport (data s) n lm" and revs: "revs \<noteq> []"
  shows "\<exists>s'. deliver (length (pending s)) (Reply 200 (JsonMeta revs lm)) sB = Inr s' \<and>
           RemoveDir (destB @ ''/'' @ n) \<in> set (trace s') \<and>
           Request (exportOptions (args sB) og n (Max (set revs))) (CbExport og n (Max (set revs)) (destB @ ''/'' @ n))
             \<in> set (trace s') \<and>
           auth (exportOptions (args sB) og n (Max (set revs))) = (userB, passB)"
proof -
  have peA: "pending sA = pending s @ [CbPullApi og n]" and dA: "data sA = data s"
    using n by (simp_all add: sA pullWithArgs_def pull_def first_is_all_def)
  have peB: "pending sB = pending sA @ map (CbPullApi orgB) psB" and dB: "data sB = data sA"
    and aB: "destination (args sB) = destB" "username (args sB) = userB" "password (args sB) = passB"
    using psB by (simp_all add: sB pullWithArgs_def pull_def)
  have at: "pending sB ! length (pending s) = CbPullApi og n" by (simp add: peB peA nth_append)
  have fr: "shouldExport (data sB) n lm" using fresh by (simp add: dB dA)
  show ?thesis
    using revs fr aB
    by (simp add: deliver_def at onPullApi_meta getProxyDestinationPath_def exportOptions_def)
qed

theorem module_calls_share_args_witness:
  "\<exists>s'. deliver 0 (Reply 200 (JsonMeta [3] 9))
          (pullWithArgs ''bob'' ''pw2'' ''acme'' [''q''] ''/tmp/b'' False None
            (pullWithArgs ''ann'' ''pw1'' ''acme'' [''p''] ''/tmp/a'' False None (init_state (demo_args False None []) []))) = Inr s' \<and>
     RemoveDir (''/tmp/b'' @ ''/'' @ ''p'') \<in> set (trace s')"
proof -
  have "\<not> first_is_all [''q'']" by (simp add: first_is_all_def)
  moreover have "shouldExport (data (init_state (demo_args False None []) [])) ''p'' 9" by (simp add: init_state_def)
  ultimately show ?thesis
    using module_calls_share_args [where userA = "''ann''" and passA = "''pw1''" and og = "''acme''"
        and n = "''p''" and destA = "''/tmp/a''" and contA = False and ivalA = None
        and s = "init_state (demo_args False None []) []" and userB = "''bob''" and passB = "''pw2''"
        and orgB = "''acme''" and psB = "[''q'']" and destB = "''/tmp/b''" and contB = False and ivalB = None
        and lm = 9 and revs = "[3]", OF refl refl]
    by (auto simp: init_state_def)
qed

end
