(* ===== verification/Console.thy ===== *)
theory Console
  imports Orchestrator
begin

text \<open>
  Console output under the global flags. \<open>defaultLog\<close> prints unless \<open>-q\<close>
  (\<open>--quite\<close>) is given, \<open>verboseLog\<close> only with \<open>-V\<close>, and \<open>logError\<close> and the
  direct \<open>console.log\<close> calls always. The spec's \<open>--quiet\<close> suppresses informational
  logs; the zip callback's messages are informational and still print.
\<close>

section \<open>Lemmas\<close>

lemma fold_getProxyToPull_console:
  "\<not> verbose (args s) \<Longrightarrow>
   console (fold (\<lambda>name s'. getProxyToPull og name (verboseLog (m name) s')) ns s) = console s \<and>
   args (fold (\<lambda>name s'. getProxyToPull og name (verboseLog (m name) s')) ns s) = args s"
  by (induction ns arbitrary: s) (simp_all add: getProxyToPull_def)

lemma pullProxies_console: "\<not> verbose (args s) \<Longrightarrow> console (pullProxies s) = console s"
  by (simp add: pullProxies_def fold_getProxyToPull_console)

lemma deployProxy_console: "quite (args s) \<Longrightarrow> console (deployProxy og n rv s) = console s"
  by (simp add: deployProxy_def Let_def)

section \<open>Properties\<close>

text \<open>C35. With \<open>-q\<close> (and without \<open>-V\<close>), every callback but the zip callback
  prints nothing but, possibly, the error report of its failed request; the zip callback
  prints its message \<open>Done zipping proxy n\<close> or \<open>Error zipping n\<close> all the same,
  since it calls \<open>console.log\<close> directly: \<open>-q\<close> does not silence it.\<close>

theorem quiet_callbacks_report_only_errors:
  assumes q: "quite (args s)" and v: "\<not> verbose (args s)" and h: "handle cb r s = Inr s'"
  shows "(case cb of
            CbZip n src zp \<Rightarrow>
              console s' = console s @
                [Line (case r of NetError \<Rightarrow> ''Error zipping '' @ n | Reply _ _ \<Rightarrow> ''Done zipping proxy '' @ n)]
          | _ \<Rightarrow> console s' = console s \<or> (\<exists>fn. console s' = console s @ error_lines fn r))"
  using q v h
  by (cases cb)
     (auto simp: onPullApi_def onProxyList_def onPushApi_def handler_simps request_ops Let_def
                 pullProxies_console deployProxy_console
           split: if_splits body.splits option.splits response.splits)

theorem quiet_callbacks_report_only_errors_witness:
  "\<exists>s'. handle (CbZip ''p'' ''./p'' ''./p.zip'') (Reply 0 NotJson)
          (init_state ((demo_args False None [''p''])\<lparr>quite := True\<rparr>) []) = Inr s' \<and>
     console s' = [Line ''Done zipping proxy p'']"
proof -
  let ?s = "init_state ((demo_args False None [''p''])\<lparr>quite := True\<rparr>) []"
  obtain s' where h: "handle (CbZip ''p'' ''./p'' ''./p.zip'') (Reply 0 NotJson) ?s = Inr s'"
    by (simp add: onZip_def)
  have "quite (args ?s)" and "\<not> verbose (args ?s)" by (simp_all add: init_state_def demo_args_def)
  from quiet_callbacks_report_only_errors [OF this h] h show ?thesis by (simp add: init_state_def)
qed

end
