(* ===== verification/LocalCopy.thy ===== *)
theory LocalCopy
  imports PollLoop
begin

text \<open>
  What the running process does to the disk (the Bundle Store): \<open>rimraf.sync\<close> in
  \<open>exportProxy\<close> and \<open>zipProxy\<close>, the \<open>unzip.Extract\<close> sink of an export and the
  archive \<open>zipfolder\<close> writes. Every write goes to a path the process removed first:
  below a destination \<open>destination/proxy\<close> or at an archive \<open>source/proxy.zip\<close>.
  This is an invariant of all runs from the start, proved over the step relation of theory
  PollLoop. Removing and writing are separate events, though: the removal happens when the
  export is requested and the unpacking when its response arrives, so two exports of the
  same proxy from overlapping poll passes both unpack into one directory.
\<close>

section \<open>Where a pending callback writes\<close>

text \<open>The path a waiting callback's library call will write when it completes: the
  destination of an export and the archive of a \<open>zipfolder\<close> call.\<close>

fun cb_writes :: "callback \<Rightarrow> path list" where
  "cb_writes (CbExport og n rv dest) = [dest]"
| "cb_writes (CbZip n src zp) = [zp]"
| "cb_writes (CbProxyList og) = []"
| "cb_writes (CbPullApi og n) = []"
| "cb_writes (CbPushApi og n) = []"
| "cb_writes (CbImport og n rv) = []"
| "cb_writes (CbUpdate og n rv) = []"
| "cb_writes (CbDeploy og n rv e) = []"

text \<open>The effect right after the removal of \<open>p\<close> puts something at exactly \<open>p\<close> for
  the proxy it names: the export of proxy \<open>n\<close> into \<open>p\<close>, a path ending in \<open>/n\<close>, or
  the \<open>zipfolder\<close> call writing proxy \<open>n\<close>'s archive at \<open>p\<close>, a path ending in
  \<open>/n.zip\<close>.\<close>

fun clears :: "path \<Rightarrow> effect \<Rightarrow> bool" where
  "clears p (Request q (CbExport og n rv dest)) = (dest = p \<and> suffix (''/'' @ n) p)"
| "clears p (ZipFolder src zp (CbZip n src' zp')) = (zp = p \<and> zp' = p \<and> suffix (''/'' @ n @ ''.zip'') p)"
| "clears p e = False"

text \<open>Every removal in an effect list is directly followed by an effect that clears it.\<close>

fun removals_ok :: "effect list \<Rightarrow> bool" where
  "removals_ok [] = True"
| "removals_ok [RemoveDir p] = False"
| "removals_ok (RemoveDir p # e # es) = (clears p e \<and> removals_ok (e # es))"
| "removals_ok (e # es) = removals_ok es"

text \<open>A step from \<open>s\<close> to \<open>s'\<close> that appends effects \<open>ys\<close> and callbacks \<open>zs\<close>,
  every new callback writing only where \<open>ys\<close> removed, and that changes the disk only
  below a path \<open>ys\<close> removed or below one of \<open>ws\<close> (the paths of the completed call).\<close>

definition confined_step :: "path list \<Rightarrow> state \<Rightarrow> state \<Rightarrow> bool" where
  "confined_step ws s s' =
     (\<exists>ys zs. trace s' = trace s @ ys \<and> pending s' = pending s @ zs \<and> removals_ok ys \<and>
        (\<forall>z\<in>set zs. set (cb_writes z) \<subseteq> set (removed ys)) \<and>
        (\<forall>f. map_of (disk s') f \<noteq> map_of (disk s) f \<longrightarrow>
             (\<exists>p\<in>set (removed ys) \<union> set ws. path_under p f)))"

text \<open>Relative to the disk \<open>d\<close> the process started on: every removal of the trace is
  followed by what it clears, every changed path lies below a path the trace removed, and
  every waiting callback writes only where the trace removed.\<close>

definition writes_cleared :: "disk \<Rightarrow> state \<Rightarrow> bool" where
  "writes_cleared d s =
     (removals_ok (trace s) \<and> (\<forall>f. map_of (disk s) f \<noteq> map_of d f \<longrightarrow> (\<exists>p\<in>set (removed (trace s)). path_under p f)) \<and>
      (\<forall>cb\<in>set (pending s). set (cb_writes cb) \<subseteq> set (removed (trace s))))"

definition cleared :: "disk \<Rightarrow> sys \<Rightarrow> bool" where
  "cleared d x = (case x of Dead e \<Rightarrow> True | Alive t s \<Rightarrow> writes_cleared d s)"

section \<open>Lemmas\<close>

subsection \<open>Removals and what follows them\<close>

lemma removals_ok_append: "removals_ok xs \<Longrightarrow> removals_ok ys \<Longrightarrow> removals_ok (xs @ ys)"
  by (induction xs rule: removals_ok.induct) simp_all

lemma removals_ok_no_remove: "\<forall>p. RemoveDir p \<notin> set ys \<Longrightarrow> removals_ok ys"
  by (induction ys rule: removals_ok.induct) auto

lemma removals_ok_sublist:
  "removals_ok tr \<Longrightarrow> RemoveDir p \<in> set tr \<Longrightarrow> \<exists>e. sublist [RemoveDir p, e] tr \<and> clears p e"
  by (induction tr rule: removals_ok.induct) (auto simp: sublist_Cons_right)

lemma suffix_after [simp]: "suffix ys (xs @ ys)"
  by (simp add: suffix_def)

subsection \<open>Steps that write nothing\<close>

lemma confined_no_writes:
  "trace s' = trace s @ ys \<Longrightarrow> pending s' = pending s @ zs \<Longrightarrow> disk s' = disk s \<Longrightarrow>
   \<forall>p. RemoveDir p \<notin> set ys \<Longrightarrow> \<forall>z\<in>set zs. cb_writes z = [] \<Longrightarrow> confined_step ws s s'"
  unfolding confined_step_def by (rule exI [of _ ys], rule exI [of _ zs]) (simp add: removals_ok_no_remove)

lemma confined_quiet:
  "trace s' = trace s \<Longrightarrow> pending s' = pending s \<Longrightarrow> disk s' = disk s \<Longrightarrow> confined_step ws s s'"
  by (rule confined_no_writes [of _ _ "[]" "[]"]) simp_all

lemma confined_request:
  "trace t = trace s \<Longrightarrow> pending t = pending s \<Longrightarrow> disk t = disk s \<Longrightarrow> cb_writes cb = [] \<Longrightarrow>
   confined_step ws s (request q cb t)"
  by (rule confined_no_writes [of _ _ "[Request q cb]" "[cb]"]) simp_all

lemma confined_deployProxy:
  "trace t = trace s \<Longrightarrow> pending t = pending s \<Longrightarrow> disk t = disk s \<Longrightarrow>
   confined_step ws s (deployProxy og n rv t)"
  by (cases "isEmpty (env (args t))")
     (simp_all add: deployProxy_def Let_def confined_quiet confined_request)

lemma confined_pullProxies:
  "trace t = trace s \<Longrightarrow> pending t = pending s \<Longrightarrow> disk t = disk s \<Longrightarrow> confined_step ws s (pullProxies t)"
  by (rule confined_no_writes) auto

lemma confined_pull: "confined_step ws s (pull s)"
  by (cases "first_is_all (proxy (args s))")
     (simp_all add: pull_def getProxyList_def confined_request confined_pullProxies)

subsection \<open>Steps that remove and write\<close>

lemma confined_exportProxy:
  "trace t = trace s \<Longrightarrow> pending t = pending s \<Longrightarrow> disk t = disk s \<Longrightarrow>
   confined_step ws s (exportProxy og n rv t)"
  unfolding confined_step_def
  by (rule exI [of _ "[RemoveDir (getProxyDestinationPath (args t) n),
                       Request (exportOptions (args t) og n rv)
                         (CbExport og n rv (getProxyDestinationPath (args t) n))]"],
      rule exI [of _ "[CbExport og n rv (getProxyDestinationPath (args t) n)]"])
     (auto simp: getProxyDestinationPath_def split: if_splits)

lemma removed_concat [simp]: "removed (concat xss) = concat (map removed xss)"
  by (induction xss) simp_all

lemma removed_push_effects [simp]: "removed (push_effects a n) = [getProxyZipPath a n]"
  by (simp add: push_effects_def)

lemma map_of_fold_rimraf:
  "map_of (fold (\<lambda>n. rimraf (zp n)) ns d) f \<noteq> map_of d f \<Longrightarrow> \<exists>n\<in>set ns. path_under (zp n) f"
proof (induction ns arbitrary: d)
  case Nil
  then show ?case by simp
next
  case (Cons a ns)
  show ?case
  proof (cases "map_of (fold (\<lambda>n. rimraf (zp n)) ns (rimraf (zp a) d)) f = map_of (rimraf (zp a) d) f")
    case True
    with Cons.prems have "map_of (rimraf (zp a) d) f \<noteq> map_of d f" by simp
    then show ?thesis by (auto split: if_splits)
  next
    case False
    from Cons.IH [OF False] show ?thesis by auto
  qed
qed

lemma removals_ok_push_effects: "removals_ok (concat (map (push_effects a) ns))"
  by (induction ns) (simp_all add: removals_ok_append push_effects_def getProxyZipPath_def)

lemma confined_pushProxies: "confined_step ws s (pushProxies s)"
  unfolding confined_step_def
proof (intro exI conjI)
  show "removals_ok (concat (map (push_effects (args s)) (proxy (args s))))"
    by (rule removals_ok_push_effects)
  show "\<forall>z\<in>set (concat (map (push_cbs (args s)) (proxy (args s)))).
          set (cb_writes z) \<subseteq> set (removed (concat (map (push_effects (args s)) (proxy (args s)))))"
    by (auto simp: push_cbs_def removed_concat)
  show "\<forall>f. map_of (disk (pushProxies s)) f \<noteq> map_of (disk s) f \<longrightarrow>
          (\<exists>p\<in>set (removed (concat (map (push_effects (args s)) (proxy (args s))))) \<union> set ws. path_under p f)"
    by (auto simp: removed_concat dest!: map_of_fold_rimraf)
qed simp_all

subsection \<open>The callbacks\<close>

lemma onPullApi_confined: "onPullApi og n r s = Inr s' \<Longrightarrow> confined_step ws s s'"
  by (auto simp: onPullApi_def confined_exportProxy confined_quiet
           split: if_splits body.splits option.splits)

lemma onProxyList_confined: "onProxyList og r s = Inr s' \<Longrightarrow> confined_step ws s s'"
  by (auto simp: onProxyList_def Let_def confined_pullProxies confined_quiet split: if_splits body.splits)

lemma onPushApi_confined: "onPushApi og n r s = Inr s' \<Longrightarrow> confined_step ws s s'"
  by (auto simp: onPushApi_def request_ops confined_request split: if_splits body.splits option.splits)

lemma onImport_confined: "onImport og n rv r s = Inr s' \<Longrightarrow> confined_step ws s s'"
  by (auto simp: onImport_def confined_deployProxy confined_quiet)

lemma onUpdate_confined: "onUpdate og n rv r s = Inr s' \<Longrightarrow> confined_step ws s s'"
  by (auto simp: onUpdate_def confined_quiet)

lemma onDeploy_confined: "onDeploy og n rv e r s = Inr s' \<Longrightarrow> confined_step ws s s'"
  by (auto simp: onDeploy_def confined_quiet)

lemma onExport_confined: "onExport og n rv dest r s = Inr s' \<Longrightarrow> confined_step [dest] s s'"
  unfolding confined_step_def
  by (rule exI [of _ "case r of NetError \<Rightarrow> [] | Reply c b \<Rightarrow> [Unpack dest]"], rule exI [of _ "[]"])
     (auto simp: onExport_def Let_def dest: unpack_changes split: response.splits if_splits)

lemma onZip_confined: "onZip n src zp r s = Inr s' \<Longrightarrow> confined_step [zp] s s'"
  unfolding confined_step_def
  by (rule exI [of _ "[]"], rule exI [of _ "[]"]) (auto simp: onZip_def split: response.splits if_splits)

lemma handle_confined: "handle cb r s = Inr s' \<Longrightarrow> confined_step (cb_writes cb) s s'"
  by (cases cb)
     (simp_all add: onPullApi_confined onProxyList_confined onPushApi_confined onImport_confined
                    onUpdate_confined onDeploy_confined onExport_confined onZip_confined)

subsection \<open>The invariant\<close>

lemma writes_cleared_step:
  assumes inv: "writes_cleared d s" and ws: "set ws \<subseteq> set (removed (trace s))"
    and t: "trace s1 = trace s" and p: "set (pending s1) \<subseteq> set (pending s)" and k: "disk s1 = disk s"
    and c: "confined_step ws s1 s'"
  shows "writes_cleared d s'"
proof -
  obtain ys zs where tr: "trace s' = trace s @ ys" and pe: "pending s' = pending s1 @ zs"
    and ro: "removals_ok ys" and zs: "\<forall>z\<in>set zs. set (cb_writes z) \<subseteq> set (removed ys)"
    and dk: "\<forall>f. map_of (disk s') f \<noteq> map_of (disk s) f \<longrightarrow> (\<exists>p\<in>set (removed ys) \<union> set ws. path_under p f)"
    using c t k by (auto simp: confined_step_def)
  have "\<exists>p\<in>set (removed (trace s')). path_under p f" if f: "map_of (disk s') f \<noteq> map_of d f" for f
  proof (cases "map_of (disk s') f = map_of (disk s) f")
    case True
    with f inv obtain p where "p \<in> set (removed (trace s))" "path_under p f"
      by (auto simp: writes_cleared_def)
    then show ?thesis by (auto simp: tr)
  next
    case False
    with dk ws show ?thesis by (auto simp: tr)
  qed
  moreover have "set (cb_writes cb) \<subseteq> set (removed (trace s'))" if cb: "cb \<in> set (pending s')" for cb
    using cb p inv zs by (auto simp: pe tr writes_cleared_def)
  moreover have "removals_ok (trace s')"
    using inv ro by (simp add: tr writes_cleared_def removals_ok_append)
  ultimately show ?thesis by (simp add: writes_cleared_def)
qed

lemma writes_cleared_quiet:
  "writes_cleared d s \<Longrightarrow> confined_step [] s s' \<Longrightarrow> writes_cleared d s'"
  by (rule writes_cleared_step [of d s "[]" s]) simp_all

lemma host_confined:
  "confined_step [] s (pullWithArgs user pass og ps dest cont ival s)"
  "confined_step [] s (pushWithArgs user pass og ps src upd e s)"
  unfolding pullWithArgs_def pushWithArgs_def
  using confined_pull [of "[]" "s\<lparr>args := a\<rparr>" for a]
  by (simp_all add: confined_step_def)

lemma sys_step_cleared: "sys_step x y \<Longrightarrow> cleared d x \<Longrightarrow> cleared d y"
proof (induction rule: sys_step.induct)
  case (tick dl s)
  then show ?case by (simp add: cleared_def writes_cleared_quiet confined_pull)
next
  case (callback i s timer r)
  show ?case
  proof (cases "deliver i r s")
    case (Inl e)
    then show ?thesis by (simp add: lift_def cleared_def)
  next
    case (Inr s')
    have inv: "writes_cleared d s" using callback.prems by (simp add: cleared_def)
    have "pending s ! i \<in> set (pending s)" using callback.hyps by simp
    then have ws: "set (cb_writes (pending s ! i)) \<subseteq> set (removed (trace s))"
      using inv by (simp add: writes_cleared_def)
    have c: "confined_step (cb_writes (pending s ! i)) (s\<lparr>pending := remove_at i (pending s)\<rparr>) s'"
      using Inr by (simp add: deliver_def handle_confined)
    have "set (remove_at i (pending s)) \<subseteq> set (pending s)"
      by (metis mset_remove_at_subseteq set_mset_mono set_mset_mset)
    then have "writes_cleared d s'"
      by (intro writes_cleared_step [OF inv ws _ _ _ c]) simp_all
    with Inr show ?thesis by (simp add: lift_def cleared_def)
  qed
next
  case host_pull
  then show ?case by (simp add: cleared_def writes_cleared_quiet host_confined)
next
  case host_push
  then show ?case by (simp add: cleared_def writes_cleared_quiet host_confined)
qed

lemma init_cleared: "writes_cleared d (init_state a d)"
  by (simp add: writes_cleared_def init_state_def)

lemma runCommand_cleared: "cleared d (runCommand (init_state a d))"
proof -
  have fresh: "writes_cleared d (pushProxies s0)" if "trace s0 = []" "pending s0 = []" "disk s0 = d" for s0
    by (rule writes_cleared_quiet [OF _ confined_pushProxies]) (simp add: writes_cleared_def that)
  have push: "cleared d (lift None (push (init_state a d)))"
    by (auto simp: push_def lift_def cleared_def init_state_def fresh split: sum.splits)
  have "cleared d (Alive t (pull (init_state a d)))" for t
    by (simp add: cleared_def writes_cleared_quiet [OF init_cleared confined_pull])
  moreover have "cleared d (Alive None (say m (init_state a d)))" for m
    by (simp add: cleared_def writes_cleared_quiet [OF init_cleared confined_quiet])
  ultimately show ?thesis using push init_cleared by (simp add: runCommand_def cleared_def)
qed

lemma steps_cleared: "sys_step\<^sup>*\<^sup>* x y \<Longrightarrow> cleared d x \<Longrightarrow> cleared d y"
  by (induction rule: rtranclp_induct) (auto intro: sys_step_cleared)

lemma removed_RemoveDir: "p \<in> set (removed tr) \<longleftrightarrow> RemoveDir p \<in> set tr"
  by (induction tr rule: removed.induct) auto

subsection \<open>Runs that export twice\<close>

lemma deliver_meta_export:
  assumes "pending s ! i = CbPullApi og n" and "revs \<noteq> []" and "shouldExport (data s) n lm"
  shows "\<exists>s'. deliver i (Reply 200 (JsonMeta revs lm)) s = Inr s' \<and> args s' = args s \<and>
           pending s' = remove_at i (pending s) @ [CbExport og n (Max (set revs)) (getProxyDestinationPath (args s) n)] \<and>
           data s' = recordSeen (data s) n (Max (set revs)) lm \<and>
           disk s' = rimraf (getProxyDestinationPath (args s) n) (disk s)"
  using assms by (simp add: deliver_def onPullApi_meta)

lemma unpack_twice_keeps:
  "map_of (rev es1) r = Some b \<Longrightarrow> map_of (rev es2) r = None \<Longrightarrow>
   map_of (unpack p (ZipData es2) (unpack p (ZipData es1) d)) (p @ CHR ''/'' # r) = Some (File b)"
  by (simp add: unpack_def)

section \<open>Properties\<close>

text \<open>C1. Overlapping poll passes corrupt the local copy. A continuous pull polls, gets
  lastModifiedAt 5 and requests revision 1; before that export's response arrives the
  next tick sees lastModifiedAt 6 and requests revision 2, removing the directory again.
  Both responses then unpack into the same directory, in their order of arrival: the stored
  record says revision 2 and nothing is pending, but every file of revision 1's archive
  that revision 2 lacks is still in the local copy. The spec replaces the local copy
  wholesale on each export and tolerates overlapping passes only for the record.\<close>

theorem overlapping_exports_merge:
  assumes e1: "map_of (rev es1) r = Some b" and e2: "map_of (rev es2) r = None"
  shows "\<exists>s1 s2 s3 s4.
     runCommand (init_state ((demo_args False None [''p''])\<lparr>continuous := True\<rparr>) d) =
       Alive (Some 30000) (init_state ((demo_args False None [''p''])\<lparr>continuous := True\<rparr>) d) \<and>
     deliver 0 (Reply 200 (JsonMeta [1] 5)) (pull (init_state ((demo_args False None [''p''])\<lparr>continuous := True\<rparr>) d)) = Inr s1 \<and>
     deliver 1 (Reply 200 (JsonMeta [1, 2] 6)) (pull s1) = Inr s2 \<and>
     deliver 0 (Reply 200 (ZipData es1)) s2 = Inr s3 \<and>
     deliver 0 (Reply 200 (ZipData es2)) s3 = Inr s4 \<and>
     reach (Alive (Some 30000) s4) \<and> pending s4 = [] \<and>
     data s4 ''p'' = Some \<lparr>proxyName = ''p'', lastRevision = 2, lastModified = 6\<rparr> \<and>
     map_of (disk s4) (''./p/'' @ r) = Some (File b)"
proof -
  let ?a = "(demo_args False None [''p''])\<lparr>continuous := True\<rparr>"
  let ?s0 = "init_state ?a d"
  have np: "\<not> first_is_all [''p'']" by (simp add: first_is_all_def)
  have r0: "runCommand ?s0 = Alive (Some 30000) ?s0"
    by (simp add: runCommand_def init_state_def demo_args_def pollDelay_def timeout_max_def)
  have reach0: "reach (Alive (Some 30000) (pull ?s0))"
    using reach_tick [OF reach.start [of ?a d, unfolded r0]] .
  have "pending (pull ?s0) ! 0 = CbPullApi ''acme'' ''p''" and "shouldExport (data (pull ?s0)) ''p'' 5"
    by (simp_all add: pull_def np init_state_def demo_args_def)
  from deliver_meta_export [OF this(1) _ this(2), of "[1]"] obtain s1
    where h1: "deliver 0 (Reply 200 (JsonMeta [1] 5)) (pull ?s0) = Inr s1" and a1: "args s1 = ?a"
      and p1: "pending s1 = [CbExport ''acme'' ''p'' 1 ''./p'']"
      and d1: "data s1 = [''p'' \<mapsto> \<lparr>proxyName = ''p'', lastRevision = 1, lastModified = 5\<rparr>]"
      and k1: "disk s1 = rimraf ''./p'' d"
    by (auto simp: pull_def np init_state_def demo_args_def remove_at_def recordSeen_def
                   getProxyDestinationPath_def)
  have reach1: "reach (Alive (Some 30000) (pull s1))"
    by (rule reach_tick, rule reach_callback [OF reach0 _ h1]) (simp add: pull_def np init_state_def demo_args_def)
  have "pending (pull s1) ! 1 = CbPullApi ''acme'' ''p''" and "shouldExport (data (pull s1)) ''p'' 6"
    by (simp_all add: pull_def a1 np p1 d1 demo_args_def shouldExport_def)
  from deliver_meta_export [OF this(1) _ this(2), of "[1, 2]"] obtain s2
    where h2: "deliver 1 (Reply 200 (JsonMeta [1, 2] 6)) (pull s1) = Inr s2"
      and p2: "pending s2 = [CbExport ''acme'' ''p'' 1 ''./p'', CbExport ''acme'' ''p'' 2 ''./p'']"
      and d2: "data s2 ''p'' = Some \<lparr>proxyName = ''p'', lastRevision = 2, lastModified = 6\<rparr>"
      and k2: "disk s2 = rimraf ''./p'' (rimraf ''./p'' d)"
    by (auto simp: pull_def a1 np p1 d1 k1 demo_args_def remove_at_def recordSeen_def
                   getProxyDestinationPath_def)
  have reach2: "reach (Alive (Some 30000) s2)"
    by (rule reach_callback [OF reach1 _ h2]) (simp add: pull_def a1 np p1 demo_args_def)
  obtain s3 where h3: "deliver 0 (Reply 200 (ZipData es1)) s2 = Inr s3"
      and p3: "pending s3 = [CbExport ''acme'' ''p'' 2 ''./p'']" and d3: "data s3 = data s2"
      and k3: "disk s3 = unpack ''./p'' (ZipData es1) (disk s2)"
    by (simp add: deliver_def p2 onExport_def Let_def remove_at_def)
  obtain s4 where h4: "deliver 0 (Reply 200 (ZipData es2)) s3 = Inr s4"
      and p4: "pending s4 = []" and d4: "data s4 = data s3"
      and k4: "disk s4 = unpack ''./p'' (ZipData es2) (disk s3)"
    by (simp add: deliver_def p3 onExport_def Let_def remove_at_def)
  have reach4: "reach (Alive (Some 30000) s4)"
    by (rule reach_callback [OF reach_callback [OF reach2 _ h3] _ h4]) (simp_all add: p2 p3)
  have "map_of (disk s4) (''./p'' @ CHR ''/'' # r) = Some (File b)"
    unfolding k4 k3 by (rule unpack_twice_keeps [OF e1 e2])
  then have "map_of (disk s4) (''./p/'' @ r) = Some (File b)" by simp
  moreover have "data s4 ''p'' = Some \<lparr>proxyName = ''p'', lastRevision = 2, lastModified = 6\<rparr>"
    using d4 d3 d2 by simp
  ultimately show ?thesis using r0 h1 h2 h3 h4 reach4 p4 by blast
qed

theorem overlapping_exports_merge_witness:
  "\<exists>s1 s2 s3 s4.
     runCommand (init_state ((demo_args False None [''p''])\<lparr>continuous := True\<rparr>) []) =
       Alive (Some 30000) (init_state ((demo_args False None [''p''])\<lparr>continuous := True\<rparr>) []) \<and>
     deliver 0 (Reply 200 (JsonMeta [1] 5)) (pull (init_state ((demo_args False None [''p''])\<lparr>continuous := True\<rparr>) [])) = Inr s1 \<and>
     deliver 1 (Reply 200 (JsonMeta [1, 2] 6)) (pull s1) = Inr s2 \<and>
     deliver 0 (Reply 200 (ZipData [(''old.xml'', Raw ''r1'')])) s2 = Inr s3 \<and>
     deliver 0 (Reply 200 (ZipData [(''new.xml'', Raw ''r2'')])) s3 = Inr s4 \<and>
     reach (Alive (Some 30000) s4) \<and> pending s4 = [] \<and>
     data s4 ''p'' = Some \<lparr>proxyName = ''p'', lastRevision = 2, lastModified = 6\<rparr> \<and>
     map_of (disk s4) (''./p/'' @ ''old.xml'') = Some (File (Raw ''r1''))"
  by (rule overlapping_exports_merge) simp_all
text \<open>C34. The process writes only into a proxy's own directory or archive, and only
  after clearing it: along any run from the start, whatever the interleaving and the
  responses, a path whose content differs from the disk the process started on lies below a
  path \<open>p\<close> that the process removed with \<open>rimraf.sync\<close> and whose very next effect
  puts something at exactly \<open>p\<close> for the proxy \<open>n\<close> it names: the export of \<open>n\<close>
  into \<open>p\<close> (a path ending in \<open>/n\<close>), or the \<open>zipfolder\<close> call writing \<open>n\<close>'s
  archive at \<open>p\<close> (a path ending in \<open>/n.zip\<close>). No other file on the disk is
  created, changed or deleted.\<close>

theorem disk_changes_confined:
  assumes run: "sys_step\<^sup>*\<^sup>* (runCommand (init_state a d)) (Alive t s)"
    and f: "map_of (disk s) f \<noteq> map_of d f"
  shows "\<exists>p e. path_under p f \<and> sublist [RemoveDir p, e] (trace s) \<and> clears p e"
proof -
  have "cleared d (Alive t s)" by (rule steps_cleared [OF run runCommand_cleared])
  then have ok: "removals_ok (trace s)"
    and "\<exists>p\<in>set (removed (trace s)). path_under p f"
    using f by (auto simp: cleared_def writes_cleared_def)
  then obtain p where "RemoveDir p \<in> set (trace s)" and "path_under p f"
    by (auto simp: removed_RemoveDir)
  with removals_ok_sublist [OF ok] show ?thesis by blast
qed

theorem disk_changes_confined_witness:
  "\<exists>t s. sys_step\<^sup>*\<^sup>* (runCommand (init_state ((demo_args False None [''p''])\<lparr>command := Some ''push''\<rparr>) push_disk))
            (Alive t s) \<and>
     map_of (disk s) ''./p.zip'' \<noteq> map_of push_disk ''./p.zip'' \<and>
     (\<exists>p e. path_under p ''./p.zip'' \<and> sublist [RemoveDir p, e] (trace s) \<and> clears p e)"
proof -
  let ?a = "(demo_args False None [''p''])\<lparr>command := Some ''push''\<rparr>"
  let ?s = "pushProxies (init_state ?a push_disk)"
  have r: "runCommand (init_state ?a push_disk) = Alive None ?s"
    by (simp add: runCommand_def push_def lift_def first_is_all_def init_state_def demo_args_def)
  have run: "sys_step\<^sup>*\<^sup>* (runCommand (init_state ?a push_disk)) (Alive None ?s)"
    unfolding r by (rule rtranclp.rtrancl_refl)
  have f: "map_of (disk ?s) ''./p.zip'' \<noteq> map_of push_disk ''./p.zip''"
    by (simp add: init_state_def demo_args_def getProxyZipPath_def push_disk_def)
  from disk_changes_confined [OF run f] run f show ?thesis by blast
qed

end
