(* ===== verification/Spec2Isabelle.thy ===== *)
theory Spec2Isabelle
  imports CommandLine Quiescence Interleaving Console LocalCopy
begin

text \<open>
  \<^bold>\<open>A verification development for edgeci\<close> (src/edgeci.js), a command line tool and
  module that pulls API-gateway proxy bundles from a management API to disk and pushes
  local bundles back as new or updated revisions, optionally deploying them.

  \<^bold>\<open>The program and its parts.\<close> One file, one process. \<open>execute\<close> calls
  \<open>parseArgs\<close>, which fills the global \<open>args\<close> through \<open>argparse\<close>, then
  \<open>runCommand\<close> starts \<open>pull\<close> (once, or every interval through \<open>setInterval\<close>)
  or \<open>push\<close>; loaded as a module, the file exports \<open>pullWithArgs\<close> and
  \<open>pushWithArgs\<close> instead. Every remote operation is a \<open>request(options, callback)\<close>
  call; the callbacks run later, in whatever order the responses arrive, and issue the next
  requests. The only state besides \<open>args\<close> is the global map \<open>data\<close> of the last
  metadata seen per proxy; everything else goes to the outside world, to the console, or to
  the disk (the local copies \<open>destination/proxy\<close> of a pull, the archives
  \<open>source/proxy.zip\<close> of a push).

  \<^bold>\<open>Theories and what they model.\<close>
  \<^item> Prelude: type names, rule collections, list and multiset lemmas, and the JavaScript
    built-ins the code relies on (\<open>reduce\<close> without initial value, number-to-string,
    \<open>parseInt\<close>, \<open>undefined\<close> in a string).
  \<^item> Revision (Revision Resolver): \<open>getMaxRevision\<close>, with the abstract contract
    \<open>max_revision_spec\<close>.
  \<^item> ChangeDetector: the record \<open>proxy_record\<close> and map \<open>proxy_data\<close> (the global
    \<open>data\<close>), the guard \<open>shouldExport\<close> and upsert \<open>recordSeen\<close> of
    \<open>getProxyToPull\<close>, and the abstract last-seen map \<open>lastSeen\<close> with its step
    \<open>seen_spec\<close>.
  \<^item> BundleStore (the disk): a list of path entries, directories and files, and the
    library calls on it, \<open>rimraf.sync\<close>, the \<open>unzip.Extract\<close> sink, \<open>zipfolder\<close>,
    \<open>fs.readdirSync\<close> and \<open>isDirectory\<close> (library semantics, not repository code).
  \<^item> Gateway (the interface to the Gateway Client, the Bundle Store and the console):
    responses as the callbacks see them (an exported bundle is an archive of entries), the
    callback closures, the effects (requests, \<open>rimraf\<close>, \<open>zipfolder\<close> with its
    callback, \<open>unzip\<close>), the records \<open>args\<close> and \<open>state\<close> (with the console output
    and the disk), the request builders \<open>listOptions\<close> \<dots> \<open>deployOptions\<close> and path
    helpers field for field, and \<open>defaultLog\<close>, \<open>verboseLog\<close>, \<open>logError\<close>.
  \<^item> Orchestrator (Sync Orchestrator): one definition per function of the source that
    changes state (\<open>pull\<close>, \<open>pullProxies\<close>, \<open>getProxyToPull\<close>, \<open>exportProxy\<close>,
    \<open>getProxyList\<close>, \<open>push\<close>, \<open>getProxySourceDirs\<close>, \<open>pushProxies\<close>,
    \<open>zipProxy\<close>, \<open>getProxyToPush\<close>, \<open>importProxy\<close>, \<open>updateProxy\<close>,
    \<open>deployProxy\<close>, \<open>pullWithArgs\<close>, \<open>pushWithArgs\<close>; \<open>exportProxy\<close> and
    \<open>zipProxy\<close> remove their target on the disk at once, \<open>getProxySourceDirs\<close> reads
    the disk) and one per callback body
    (\<open>onPullApi\<close>, \<open>onExport\<close>, \<open>onProxyList\<close>, \<open>onPushApi\<close>, \<open>onImport\<close>,
    \<open>onUpdate\<close>, \<open>onDeploy\<close>, \<open>onZip\<close>), each returning the new state, logging
    included, or the exception it throws; \<open>handle\<close> and \<open>deliver\<close> run a pending
    callback.
  \<^item> PollLoop (Poll Loop and process): \<open>runCommand\<close>, the delay \<open>pollDelay\<close> Node
    gives \<open>setInterval\<close>, the process states \<open>sys\<close> (alive with or without an armed
    timer, or dead of an exception), the step relation \<open>sys_step\<close> (timer tick, any
    pending callback with any response, host calls of the module API) and the reachable
    states \<open>reach\<close>, with invariants by rule induction.
  \<^item> CommandLine (Argument parsing): the option declarations of \<open>parseArgs\<close>,
    \<open>addPullArgs\<close>, \<open>addPushArgs\<close>, one definition per \<open>addArgument\<close>; the
    \<open>argparse\<close> algorithm that reads them (\<open>classify\<close>, \<open>consume\<close>,
    \<open>subparse\<close>, \<open>toplevel\<close>: library semantics, not repository code); \<open>execute\<close>.
  \<^item> Quiescence: deliveries alone (\<open>cb_step\<close>), their termination.
  \<^item> Interleaving: locality of the pull callback, commutation of deliveries, and the
    module entries sharing \<open>args\<close>.
  \<^item> Console: what \<open>-q\<close> silences.
  \<^item> LocalCopy: what runs do to the disk; the export callback unpacks the response body
    when it arrives, the zip callback finds its archive written.

  \<^bold>\<open>What is proved.\<close> Functional behaviour of every callback on every branch, errors
  included (C2--C9, C19); the worklists of \<open>pull\<close>, \<open>push\<close> and the module entries
  (C10--C13); refinement of the spec's Revision Resolver and Change Detector contracts
  (C7, C20--C22); invariants of every reachable process state by rule induction over
  \<open>reach\<close>: deploys only after an import of the same revision and records never
  garbled (C14, C15); monotone timestamps along any run (C16); disk writes only below a
  path the process removed right before exporting or zipping a proxy into exactly that
  path, along any run from the start (C34); end-to-end runs from \<open>runCommand\<close> with
  the responses given (C23, C24). Termination of the callback cascade, by a multiset
  ordering of pending callbacks (C27); commutation of pull callbacks for different proxies
  (C28); the poll delay's bounds (C29); the command line's roundtrip and required options
  (C31, C32). Several theorems record where the code departs from its spec: a metadata
  reply without revisions throws (C5), and an exception in a callback ends the process; a
  failed export is never retried (C6), any failed lookup imports revision 1 (C8),
  \<open>all\<close> is listed only once (C11), \<open>pushWithArgs\<close> pulls (C12), the poll loop does
  not fire at start (C17), packaging races the upload, which reads an archive that does not
  exist (C18), updates are never deployed (C19), a failed export still deletes the local copy
  and unpacks the error body in its place (C25), two overlapping exports of one proxy leave a
  local copy that mixes two revisions (C1), an unreadable source directory ends a push of
  \<open>all\<close> (C26), module calls share \<open>args\<close> (C30), \<open>--quiet\<close> is spelt
  \<open>--quite\<close> (C33), a zero, negative or too large interval polls every millisecond
  (C29) and \<open>-q\<close> does not silence the zip messages (C35).

  \<^bold>\<open>Bounds and fuel.\<close> None are needed: every function of the source is loop-free or
  loops over a finite list (\<open>forEach\<close>, modelled by \<open>fold\<close>); the argument parser
  recurses on the remaining tokens (a \<open>function\<close> with a length measure); the unbounded
  poll loop is not a recursive function but the step relation, whose runs may be infinite;
  C27 shows that without the timer they are not.

  \<^bold>\<open>Not modelled.\<close> The library \<open>request\<close> beyond its callback (responses are
  arbitrary); the bytes of archives (an archive is its list of entries); what
  \<open>unzip.Extract\<close> does with a body that is not an archive (it writes nothing here; the
  library reports an error event); the moment at which the unzip sink and \<open>zipfolder\<close>
  finish writing relative to their callbacks (here: just before them); path normalisation
  (paths are the strings the code builds); the characters that \<open>console.log\<close> prints for an error
  object or a response body; timing of the interval beyond the delay value; the separator
  \<open>--\<close> and clusters of short flags on the command line (the parser model answers
  \<open>NotModelled\<close>); the help and version texts. Revision numbers are JavaScript numbers
  within the safe-integer range, modelled as \<open>int\<close>.
\<close>

section \<open>End-to-end properties\<close>

text \<open>C23. A push with \<open>--update\<close> of a proxy whose metadata lists the revisions
  3, 7 and 5 runs, from \<open>runCommand\<close> and the lookup's reply, to a state whose
  effects are the packaging of the archive, the lookup and then an update of revision 7,
  with no import.\<close>

theorem push_update_targets_current:
  "\<exists>s1 s2.
     runCommand (init_state ((demo_args True None [''p''])\<lparr>command := Some ''push''\<rparr>) d) = Alive None s1 \<and>
     deliver 1 (Reply 200 (JsonMeta [3, 7, 5] 0)) s1 = Inr s2 \<and>
     trace s2 = push_effects ((demo_args True None [''p''])\<lparr>command := Some ''push''\<rparr>) ''p'' @
       [Request (updateOptions ((demo_args True None [''p''])\<lparr>command := Some ''push''\<rparr>) ''acme'' ''p'' 7)
          (CbUpdate ''acme'' ''p'' 7)]"
proof -
  let ?a = "(demo_args True None [''p''])\<lparr>command := Some ''push''\<rparr>"
  let ?s1 = "pushProxies (init_state ?a d)"
  have r: "runCommand (init_state ?a d) = Alive None ?s1"
    by (simp add: runCommand_def push_def lift_def first_is_all_def init_state_def demo_args_def)
  have p1: "pending ?s1 = [CbZip ''p'' ''./p'' ''./p.zip'', CbPushApi ''acme'' ''p'']"
    and a1: "args ?s1 = ?a" and t1: "trace ?s1 = push_effects ?a ''p''"
    by (simp_all add: init_state_def demo_args_def push_cbs_def getProxySourcePath_def getProxyZipPath_def)
  have dl: "deliver 1 (Reply 200 (JsonMeta [3, 7, 5] 0)) ?s1 =
      onPushApi ''acme'' ''p'' (Reply 200 (JsonMeta [3, 7, 5] 0)) (?s1\<lparr>pending := [CbZip ''p'' ''./p'' ''./p.zip'']\<rparr>)"
    by (simp only: deliver_at p1) (simp add: remove_at_def)
  have u: "update (args ?s1)" by (simp only: a1) (simp add: demo_args_def)
  let ?s2 = "updateProxy ''acme'' ''p'' 7 (defaultLog (''Updating proxy '' @ ''p'' @ '' revision '' @ js_string_of_int 7)
               (?s1\<lparr>pending := [CbZip ''p'' ''./p'' ''./p.zip'']\<rparr>))"
  have h: "deliver 1 (Reply 200 (JsonMeta [3, 7, 5] 0)) ?s1 = Inr ?s2"
    unfolding dl by (simp add: onPushApi_def getMaxRevision_def js_reduce_def u del: pushProxies_fields)
  have t2: "trace ?s2 = trace ?s1 @ [Request (updateOptions ?a ''acme'' ''p'' 7) (CbUpdate ''acme'' ''p'' 7)]"
    by (simp add: updateProxy_def a1 del: pushProxies_fields)
  have t: "trace ?s2 = push_effects ?a ''p'' @ [Request (updateOptions ?a ''acme'' ''p'' 7) (CbUpdate ''acme'' ''p'' 7)]"
    by (simp only: t2 t1)
  show ?thesis by (intro exI conjI) (rule r, rule h, rule t)
qed

text \<open>C24. A continuous pull that polls twice while the remote proxy is unchanged (both
  metadata replies list revision 7 with \<open>lastModifiedAt\<close> 5) issues exactly one export:
  after the two ticks and the two replies the effects are a lookup, the removal of the local
  copy, the export of revision 7 and the second lookup, and only the export waits.\<close>

theorem poll_twice_exports_once:
  "\<exists>s1 s2.
     runCommand (init_state ((demo_args False None [''p''])\<lparr>continuous := True\<rparr>) d) =
       Alive (Some 30000) (init_state ((demo_args False None [''p''])\<lparr>continuous := True\<rparr>) d) \<and>
     deliver 0 (Reply 200 (JsonMeta [7] 5)) (pull (init_state ((demo_args False None [''p''])\<lparr>continuous := True\<rparr>) d)) = Inr s1 \<and>
     deliver 1 (Reply 200 (JsonMeta [7] 5)) (pull s1) = Inr s2 \<and>
     trace s2 = [Request (apiOptions ((demo_args False None [''p''])\<lparr>continuous := True\<rparr>) ''acme'' ''p'') (CbPullApi ''acme'' ''p''),
                 RemoveDir ''./p'',
                 Request (exportOptions ((demo_args False None [''p''])\<lparr>continuous := True\<rparr>) ''acme'' ''p'' 7)
                   (CbExport ''acme'' ''p'' 7 ''./p''),
                 Request (apiOptions ((demo_args False None [''p''])\<lparr>continuous := True\<rparr>) ''acme'' ''p'') (CbPullApi ''acme'' ''p'')] \<and>
     pending s2 = [CbExport ''acme'' ''p'' 7 ''./p'']"
proof -
  let ?a = "(demo_args False None [''p''])\<lparr>continuous := True\<rparr>"
  let ?s0 = "init_state ?a d"
  have np: "\<not> first_is_all [''p'']" by (simp add: first_is_all_def)
  have r: "runCommand ?s0 = Alive (Some 30000) ?s0"
    by (simp add: runCommand_def init_state_def demo_args_def pollDelay_def timeout_max_def)
  obtain s1 where h1: "deliver 0 (Reply 200 (JsonMeta [7] 5)) (pull ?s0) = Inr s1"
    and a1: "args s1 = ?a" and p1: "pending s1 = [CbExport ''acme'' ''p'' 7 ''./p'']"
    and d1: "data s1 ''p'' = Some \<lparr>proxyName = ''p'', lastRevision = 7, lastModified = 5\<rparr>"
    and t1: "trace s1 = [Request (apiOptions ?a ''acme'' ''p'') (CbPullApi ''acme'' ''p''),
                         RemoveDir ''./p'',
                         Request (exportOptions ?a ''acme'' ''p'' 7) (CbExport ''acme'' ''p'' 7 ''./p'')]"
    by (simp add: deliver_at pull_def np init_state_def demo_args_def remove_at_def onPullApi_def
                  getMaxRevision_def js_reduce_def recordSeen_def getProxyDestinationPath_def)
  have p1': "pending (pull s1) ! 1 = CbPullApi ''acme'' ''p''"
    by (simp add: pull_def a1 np p1 demo_args_def)
  let ?s2 = "(pull s1)\<lparr>pending := remove_at 1 (pending (pull s1))\<rparr>"
  have "deliver 1 (Reply 200 (JsonMeta [7] 5)) (pull s1) = onPullApi ''acme'' ''p'' (Reply 200 (JsonMeta [7] 5)) ?s2"
    by (simp only: deliver_at p1' handle.simps)
  also have "\<dots> = Inr ?s2"
    by (simp add: onPullApi_def getMaxRevision_def js_reduce_def shouldExport_def pull_def a1 np demo_args_def d1)
  finally have h2: "deliver 1 (Reply 200 (JsonMeta [7] 5)) (pull s1) = Inr ?s2" .
  have "trace ?s2 = trace s1 @ [Request (apiOptions ?a ''acme'' ''p'') (CbPullApi ''acme'' ''p'')]"
    and "pending ?s2 = [CbExport ''acme'' ''p'' 7 ''./p'']"
    by (simp_all add: pull_def a1 np p1 t1 demo_args_def remove_at_def)
  then show ?thesis using r h1 h2 t1 by auto
qed

end
